(* ===== verification/Prelude.thy ===== *)
theory Prelude
  imports Main
begin

text \<open>
  Shared vocabulary of the development: the clock, SQL tables as lists of rows, the results
  of fallible operations, and the list lemmas every component uses.

  \<^item> Time stamps are integers counting microseconds since the epoch in UTC (the resolution of
    Python's \<open>datetime\<close> and of PostgreSQL's \<open>timestamptz\<close>).  An ISO text column that holds
    \<open>''\<close> or a nullable column that holds \<open>NULL\<close> is \<open>None\<close>.
  \<^item> A table is the list of its rows in insertion order; \<open>update_where\<close>, \<open>rowcount\<close> and
    \<open>sql_sum\<close> are the \<open>UPDATE ... WHERE\<close>, the cursor's \<open>rowcount\<close> and
    \<open>COALESCE(SUM(...), 0)\<close> of the sources' SQL.
  \<^item> An operation that can raise returns a value of \<open>error + 'a\<close> (\<open>Inl\<close> is the exception)
    together with the state it leaves.
\<close>

section \<open>Clock\<close>

type_synonym time = int

definition seconds :: "int \<Rightarrow> time" where
  "seconds n = n * 1000000"

text \<open>SQLite's \<open>datetime(x)\<close> keeps whole seconds only.\<close>

definition sql_datetime :: "time \<Rightarrow> int" where
  "sql_datetime t = t div 1000000"

section \<open>Tables\<close>

definition update_where :: "('r \<Rightarrow> bool) \<Rightarrow> ('r \<Rightarrow> 'r) \<Rightarrow> 'r list \<Rightarrow> 'r list" where
  "update_where P f rows = map (\<lambda>r. if P r then f r else r) rows"

definition rowcount :: "('r \<Rightarrow> bool) \<Rightarrow> 'r list \<Rightarrow> nat" where
  "rowcount P rows = length (filter P rows)"

definition sql_sum :: "('r \<Rightarrow> int) \<Rightarrow> ('r \<Rightarrow> bool) \<Rightarrow> 'r list \<Rightarrow> int" where
  "sql_sum f P rows = sum_list (map f (filter P rows))"

definition fetchone :: "('r \<Rightarrow> bool) \<Rightarrow> 'r list \<Rightarrow> 'r option" where
  "fetchone P rows = List.find P rows"

text \<open>Python's \<open>text[:n]\<close>.\<close>

definition clip :: "nat \<Rightarrow> string \<Rightarrow> string" where
  "clip n s = take n s"

text \<open>Appending what is not there yet, the way the sources remove duplicates.\<close>

definition add_new :: "'a list \<Rightarrow> 'a \<Rightarrow> 'a list" where
  "add_new xs x = (if x \<in> set xs then xs else xs @ [x])"

section \<open>Python strings\<close>

text \<open>Strings are ASCII here, so \<open>strip\<close> and \<open>lower\<close> are the ASCII parts of Python's.\<close>

definition py_isspace :: "char \<Rightarrow> bool" where
  "py_isspace c = (let n = (of_char c :: nat) in (9 \<le> n \<and> n \<le> 13) \<or> (28 \<le> n \<and> n \<le> 32))"

definition py_strip :: "string \<Rightarrow> string" where
  "py_strip s = rev (dropWhile py_isspace (rev (dropWhile py_isspace s)))"

definition py_lower_char :: "char \<Rightarrow> char" where
  "py_lower_char c = (let n = (of_char c :: nat) in if 65 \<le> n \<and> n \<le> 90 then char_of (n + 32) else c)"

definition py_lower :: "string \<Rightarrow> string" where
  "py_lower s = map py_lower_char s"

text \<open>\<open>str\<close> of an integer.\<close>

fun nat_digits :: "nat \<Rightarrow> string" where
  "nat_digits n = (if n < 10 then [char_of (48 + n)] else nat_digits (n div 10) @ [char_of (48 + n mod 10)])"

declare nat_digits.simps [simp del]

definition py_str :: "int \<Rightarrow> string" where
  "py_str i = (if i < 0 then ''-'' @ nat_digits (nat (- i)) else nat_digits (nat i))"

section \<open>Collections of simplification rules\<close>

named_theorems table_simps \<open>facts about tables under updates and inserts\<close>
named_theorems step_defs \<open>definitions of the operations a step relation dispatches to\<close>

section \<open>Generic lemmas\<close>

lemma sql_datetime_mono: "a \<le> b \<Longrightarrow> sql_datetime a \<le> sql_datetime b"
  by (simp add: sql_datetime_def zdiv_mono1)

lemma sql_datetime_lessD: "sql_datetime a < sql_datetime b \<Longrightarrow> a < b"
  by (metis not_le sql_datetime_mono)

lemma sql_datetime_seconds [simp]: "sql_datetime (seconds n) = n"
  by (simp add: sql_datetime_def seconds_def)

lemma sql_datetime_whole_second_gap: "a + seconds 1 \<le> b \<Longrightarrow> sql_datetime a < sql_datetime b"
  by (simp add: sql_datetime_def seconds_def)

lemma seconds_simps [simp]:
  "seconds 0 = 0" "seconds a \<le> seconds b \<longleftrightarrow> a \<le> b" "seconds a < seconds b \<longleftrightarrow> a < b"
  "0 < seconds a \<longleftrightarrow> 0 < a" "0 \<le> seconds a \<longleftrightarrow> 0 \<le> a"
  by (auto simp: seconds_def)

lemma update_where_Nil [simp]: "update_where P f [] = []"
  by (simp add: update_where_def)

lemma update_where_Cons [simp]:
  "update_where P f (r # rows) = (if P r then f r else r) # update_where P f rows"
  by (simp add: update_where_def)

lemma update_where_append [table_simps]:
  "update_where P f (xs @ ys) = update_where P f xs @ update_where P f ys"
  by (simp add: update_where_def)

lemma length_update_where [simp]: "length (update_where P f rows) = length rows"
  by (simp add: update_where_def)

lemma set_update_where:
  "set (update_where P f rows) = (\<lambda>r. if P r then f r else r) ` set rows"
  by (simp add: update_where_def)

lemma update_where_untouched: "r \<in> set rows \<Longrightarrow> \<not> P r \<Longrightarrow> r \<in> set (update_where P f rows)"
  by (auto simp: set_update_where image_iff)

lemma update_where_touched: "r \<in> set rows \<Longrightarrow> P r \<Longrightarrow> f r \<in> set (update_where P f rows)"
  by (auto simp: set_update_where image_iff)

lemma update_where_none: "(\<And>r. r \<in> set rows \<Longrightarrow> \<not> P r) \<Longrightarrow> update_where P f rows = rows"
  by (induction rows) auto

lemma map_update_where_same [table_simps]:
  "(\<And>r. g (f r) = g r) \<Longrightarrow> map g (update_where P f rows) = map g rows"
  by (simp add: update_where_def)

lemma image_update_where_same [table_simps]:
  assumes "\<And>r. g (f r) = g r"
  shows "g ` set (update_where P f rows) = g ` set rows"
  by (metis assms map_update_where_same set_map)

lemma rowcount_Nil [simp]: "rowcount P [] = 0"
  by (simp add: rowcount_def)

lemma rowcount_Cons [simp]: "rowcount P (r # rows) = (if P r then 1 else 0) + rowcount P rows"
  by (simp add: rowcount_def)

lemma rowcount_pos_iff: "0 < rowcount P rows \<longleftrightarrow> (\<exists>r \<in> set rows. P r)"
  by (induction rows) auto

lemma sql_sum_Nil [simp]: "sql_sum f P [] = 0"
  by (simp add: sql_sum_def)

lemma sql_sum_Cons [simp]: "sql_sum f P (r # rows) = (if P r then f r else 0) + sql_sum f P rows"
  by (simp add: sql_sum_def)

lemma sql_sum_append [table_simps]: "sql_sum f P (xs @ ys) = sql_sum f P xs + sql_sum f P ys"
  by (simp add: sql_sum_def)

lemma sql_sum_none: "(\<And>r. r \<in> set rows \<Longrightarrow> \<not> P r) \<Longrightarrow> sql_sum f P rows = 0"
  by (induction rows) auto

lemma sql_sum_nonneg: "(\<And>r. r \<in> set rows \<Longrightarrow> 0 \<le> f r) \<Longrightarrow> 0 \<le> sql_sum f P rows"
  by (induction rows) auto

text \<open>A sum over the rows that satisfy a predicate shrinks under an update that neither makes
  more rows satisfy it nor changes the summed column.\<close>

lemma sql_sum_update_where_le:
  assumes "\<And>r. r \<in> set rows \<Longrightarrow> 0 \<le> g r"
    and "\<And>r. r \<in> set rows \<Longrightarrow> P r \<Longrightarrow> g (f r) = g r"
    and "\<And>r. r \<in> set rows \<Longrightarrow> P r \<Longrightarrow> Q (f r) \<Longrightarrow> Q r"
  shows "sql_sum g Q (update_where P f rows) \<le> sql_sum g Q rows"
  using assms by (induction rows) (auto simp: add_mono)

lemma sql_sum_update_where_eq:
  assumes "\<And>r. r \<in> set rows \<Longrightarrow> P r \<Longrightarrow> g (f r) = g r"
    and "\<And>r. r \<in> set rows \<Longrightarrow> P r \<Longrightarrow> Q (f r) = Q r"
  shows "sql_sum g Q (update_where P f rows) = sql_sum g Q rows"
  using assms by (induction rows) auto

lemma fetchone_SomeD: "fetchone P rows = Some r \<Longrightarrow> r \<in> set rows \<and> P r"
  by (auto simp: fetchone_def find_Some_iff)

lemma fetchone_None_iff: "fetchone P rows = None \<longleftrightarrow> (\<forall>r \<in> set rows. \<not> P r)"
  by (auto simp: fetchone_def find_None_iff)

lemma fetchone_Cons [simp]:
  "fetchone P (r # rows) = (if P r then Some r else fetchone P rows)"
  "fetchone P [] = None"
  by (simp_all add: fetchone_def)

lemma fetchone_append:
  "fetchone P (xs @ ys) = (case fetchone P xs of None \<Rightarrow> fetchone P ys | Some r \<Rightarrow> Some r)"
  by (induction xs) auto

lemma fetchone_update_where:
  assumes "\<And>r. K (f r) = K r"
  shows "fetchone K (update_where P f rows) =
    map_option (\<lambda>r. if P r then f r else r) (fetchone K rows)"
  using assms by (induction rows) auto

text \<open>With a unique key the row a key selects is the only one with that key.\<close>

lemma distinct_key_unique:
  assumes "distinct (map k rows)" "r \<in> set rows" "s \<in> set rows" "k r = k s"
  shows "r = s"
  using assms by (metis distinct_map inj_onD)

lemma fetchone_key_iff:
  assumes "distinct (map k rows)"
  shows "fetchone (\<lambda>r. k r = x) rows = Some r \<longleftrightarrow> r \<in> set rows \<and> k r = x"
  using assms
proof (induction rows)
  case (Cons a rows)
  then show ?case by (auto simp: image_iff)
qed simp

lemma length_clip [simp]: "length (clip n s) \<le> n"
  by (simp add: clip_def)

text \<open>Counting in a list with one element replaced.\<close>

lemma rowcount_list_update:
  assumes "i < length xs"
  shows "int (rowcount P (xs[i := y])) = int (rowcount P xs) - of_bool (P (xs ! i)) + of_bool (P y)"
  using assms
proof (induction xs arbitrary: i)
  case (Cons x xs)
  then show ?case by (cases i) auto
qed simp

lemma rowcount_nth_le: "i < length xs \<Longrightarrow> of_bool (P (xs ! i)) \<le> int (rowcount P xs)"
  using rowcount_pos_iff [of P xs] by (cases "P (xs ! i)") (auto simp: Suc_le_eq)

lemma rowcount_mono: "(\<And>x. x \<in> set xs \<Longrightarrow> P x \<Longrightarrow> Q x) \<Longrightarrow> rowcount P xs \<le> rowcount Q xs"
  by (induction xs) auto

text \<open>Facts that hold of every element of a \<open>foldl\<close> run.\<close>

lemma foldl_invariant:
  assumes "P s" "\<And>s x. P s \<Longrightarrow> P (f s x)"
  shows "P (foldl f s xs)"
  using assms by (induction xs arbitrary: s) auto

lemma foldl_monotone:
  fixes m :: "'s \<Rightarrow> 'b::preorder"
  assumes "\<And>s x. P s \<Longrightarrow> P (f s x)" "\<And>s x. P s \<Longrightarrow> m s \<le> m (f s x)" "P s"
  shows "m s \<le> m (foldl f s xs)"
  using assms(3)
proof (induction xs arbitrary: s)
  case (Cons x xs)
  then have "m s \<le> m (f s x)" "m (f s x) \<le> m (foldl f (f s x) xs)"
    using assms(1,2) by auto
  then show ?case using order_trans by auto
qed simp

text \<open>Stripped strings.\<close>

lemma strip_fixed:
  assumes "s \<noteq> [] \<Longrightarrow> \<not> py_isspace (hd s) \<and> \<not> py_isspace (last s)"
  shows "py_strip s = s"
proof (cases "s = []")
  case False
  then have "dropWhile py_isspace s = s" "dropWhile py_isspace (rev s) = rev s"
    using assms by (simp_all add: dropWhile_eq_self_iff hd_rev)
  then show ?thesis by (simp add: py_strip_def)
qed (simp add: py_strip_def)

lemma strip_ends:
  assumes "py_strip s \<noteq> []"
  shows "\<not> py_isspace (hd (py_strip s)) \<and> \<not> py_isspace (last (py_strip s))"
proof -
  define u where "u = dropWhile py_isspace s"
  define v where "v = dropWhile py_isspace (rev u)"
  have v: "v \<noteq> []" "py_strip s = rev v" using assms by (auto simp: py_strip_def u_def v_def)
  have "\<not> py_isspace (hd v)" using v(1) hd_dropWhile [of py_isspace "rev u"] by (simp add: v_def)
  moreover have "\<not> py_isspace (last v)"
  proof -
    have u: "u \<noteq> []" using v(1) by (auto simp: v_def)
    have "last v = last (rev u)" using v(1) unfolding v_def by (metis takeWhile_dropWhile_id last_appendR)
    also have "\<dots> = hd u" by (simp add: last_rev)
    finally show ?thesis using u hd_dropWhile [of py_isspace s] by (simp add: u_def)
  qed
  ultimately show ?thesis using v by (simp add: hd_rev last_rev)
qed

lemma strip_idem [simp]: "py_strip (py_strip s) = py_strip s"
  by (rule strip_fixed) (rule strip_ends)

text \<open>The characters of a printed integer.\<close>

definition number_char :: "char \<Rightarrow> bool" where
  "number_char c \<longleftrightarrow> (of_char c :: nat) = 45 \<or> 48 \<le> (of_char c :: nat) \<and> (of_char c :: nat) \<le> 57"

lemma nat_digits_chars: "nat_digits n \<noteq> [] \<and> list_all number_char (nat_digits n)"
proof (induction n rule: nat_digits.induct)
  case (1 n)
  have digit: "number_char (char_of (48 + k))" if "k < 10" for k :: nat
    using that by (simp add: number_char_def)
  show ?case
  proof (cases "n < 10")
    case True
    then show ?thesis using digit [OF True] by (subst (1 2) nat_digits.simps) simp
  next
    case False
    with 1 digit [of "n mod 10"] show ?thesis by (subst (1 2) nat_digits.simps) simp
  qed
qed

lemma py_str_number: "list_all number_char (py_str i)" "py_str i \<noteq> []"
  using nat_digits_chars by (auto simp: py_str_def number_char_def)

lemma py_str_chars: "py_str i \<noteq> []" "CHR '':'' \<notin> set (py_str i)" "\<not> py_isspace (last (py_str i))"
proof -
  note all = py_str_number(1) [of i] and ne = py_str_number(2) [of i]
  show "py_str i \<noteq> []" by (rule ne)
  have "\<not> number_char (CHR '':'')" by (simp add: number_char_def)
  with all show "CHR '':'' \<notin> set (py_str i)" by (auto simp: list_all_iff)
  have "number_char (last (py_str i))" using all ne by (simp add: list_all_iff)
  then show "\<not> py_isspace (last (py_str i))" by (auto simp: number_char_def py_isspace_def Let_def)
qed

end
