(* ===== verification/Quota_Types.thy ===== *)
theory Quota_Types
  imports Prelude
begin

text \<open>
  The tables of the deployment-scope quota database (\<open>src/core/concurrency/resource_governor.py\<close>)
  that the SQLite and the PostgreSQL store share, and the interface both stores promise to the
  governor.

  A column \<open>c\<close> of \<open>resource_permits\<close> is the field \<open>p_c\<close>, of \<open>resource_permit_audit\<close> the field
  \<open>a_c\<close>, of \<open>resource_quotas\<close> the field \<open>q_c\<close>.  The maintenance-lease table is in
  \<open>Lease_Election\<close>.
\<close>

section \<open>Rows\<close>

datatype permit_state = Active | Uncertain | Released

record permit_row =
  p_id :: string
  p_resource :: string
  p_interactive :: bool
  p_owner_id :: string
  p_attempt_id :: string
  p_weight :: int
  p_state :: permit_state
  p_expires_at :: time
  p_created_at :: time
  p_started_at :: "time option"
  p_hard_deadline_at :: "time option"
  p_provider_request_id :: string
  p_uncertain_since :: "time option"
  p_escalated_at :: "time option"
  p_recovery_reason :: string

record audit_row =
  a_permit_id :: string
  a_resource :: string
  a_action :: string
  a_evidence :: string
  a_reason :: string
  a_operator :: string
  a_previous_state :: "permit_state option"
  a_recorded_at :: time

record quota_row =
  q_resource :: string
  q_capacity :: int
  q_reserved_interactive :: int
  q_config_revision :: string
  q_updated_at :: time

record quota_db =
  permits :: "permit_row list"
  audit_log :: "audit_row list"
  meta :: "(string \<times> string) list"
  quotas :: "quota_row list"

record store_config =
  c_lease_seconds :: int
  c_deployment_id :: string
  c_config_revision :: string
  c_require_preconfigured :: bool

text \<open>The keyword arguments of \<open>try_acquire\<close>.\<close>

record acquire_request =
  r_resource :: string
  r_capacity :: int
  r_reserved :: int
  r_interactive :: bool
  r_owner_id :: string
  r_attempt_id :: string

text \<open>What the database answers to the statement that takes the write lock.\<close>

datatype lock_outcome = Lock_granted | Lock_busy | Lock_failed

datatype gov_error =
    Not_provisioned
  | Deployment_mismatch string string
  | Schema_mismatch string string
  | Unrecognized_evidence string
  | Unsupported_outcome string
  | Db_busy
  | Db_error
  | Governor_rejected string string

definition VALID_RELEASE_EVIDENCE :: "string list" where
  "VALID_RELEASE_EVIDENCE =
    [''downstream_completed'', ''downstream_cancelled'', ''server_deadline_passed'',
     ''operator_verified_restart'', ''operator_verified_cancel'']"

definition SCHEMA_VERSION :: string where
  "SCHEMA_VERSION = ''1''"

definition DEFAULT_LIMITS :: "(string \<times> int \<times> int) list" where
  "DEFAULT_LIMITS =
    [(''llm'', 4, 2), (''rag'', 8, 4), (''tool'', 16, 0), (''chat'', 4, 0), (''heavy_job'', 4, 1),
     (''ocr'', 1, 0), (''export'', 4, 0), (''memory'', 1, 0), (''mcp'', 4, 1)]"

section \<open>What the tables say\<close>

definition active_weight :: "quota_db \<Rightarrow> string \<Rightarrow> int" where
  "active_weight db res =
    sql_sum p_weight (\<lambda>p. p_resource p = res \<and> p_state p = Active) (permits db)"

definition background_weight :: "quota_db \<Rightarrow> string \<Rightarrow> int" where
  "background_weight db res =
    sql_sum (\<lambda>p. if \<not> p_interactive p then p_weight p else 0)
      (\<lambda>p. p_resource p = res \<and> p_state p = Active) (permits db)"

definition escalated :: "quota_db \<Rightarrow> string \<Rightarrow> bool" where
  "escalated db res \<longleftrightarrow>
    (\<exists>p \<in> set (permits db). p_resource p = res \<and> p_state p = Uncertain \<and> p_escalated_at p \<noteq> None)"

definition lookup_permit :: "quota_db \<Rightarrow> string \<Rightarrow> permit_row option" where
  "lookup_permit db pid = fetchone (\<lambda>p. p_id p = pid) (permits db)"

definition permit_live :: "permit_row \<Rightarrow> bool" where
  "permit_live p \<longleftrightarrow> p_state p = Active \<or> p_state p = Uncertain"

text \<open>Well-formed tables: the primary key is unique, weights are positive, an active permit has
  never been isolated, and an isolated one carries the time of its isolation.\<close>

definition permit_ok :: "permit_row \<Rightarrow> bool" where
  "permit_ok p \<longleftrightarrow> 0 < p_weight p
    \<and> (p_state p = Active \<longrightarrow> p_uncertain_since p = None \<and> p_escalated_at p = None)
    \<and> (p_state p = Uncertain \<longrightarrow> p_uncertain_since p \<noteq> None)"

definition quota_inv :: "quota_db \<Rightarrow> bool" where
  "quota_inv db \<longleftrightarrow> distinct (map p_id (permits db)) \<and> (\<forall>p \<in> set (permits db). permit_ok p)"

definition empty_quota_db :: quota_db where
  "empty_quota_db = \<lparr>permits = [], audit_log = [], meta = [], quotas = []\<rparr>"

text \<open>The life cycle of one permit: isolation and release only go forward.\<close>

fun state_rank :: "permit_state \<Rightarrow> nat" where
  "state_rank Active = 0"
| "state_rank Uncertain = 1"
| "state_rank Released = 2"

text \<open>How two versions of a permit table may be related by an operation: every row keeps its
  identity and only moves forward, and at most rows are appended.\<close>

definition row_advances :: "permit_row \<Rightarrow> permit_row \<Rightarrow> bool" where
  "row_advances p p' \<longleftrightarrow> p_id p' = p_id p \<and> p_resource p' = p_resource p
    \<and> p_weight p' = p_weight p \<and> p_interactive p' = p_interactive p
    \<and> state_rank (p_state p) \<le> state_rank (p_state p')"

definition table_advances :: "permit_row list \<Rightarrow> permit_row list \<Rightarrow> bool" where
  "table_advances ps ps' \<longleftrightarrow>
    (\<exists>qs news. ps' = qs @ news \<and> list_all2 row_advances ps qs)"

section \<open>Lemmas on the tables\<close>

lemma permit_ok_weight: "permit_ok p \<Longrightarrow> 0 \<le> p_weight p"
  by (simp add: permit_ok_def)

lemma quota_inv_weight: "quota_inv db \<Longrightarrow> p \<in> set (permits db) \<Longrightarrow> 0 \<le> p_weight p"
  by (auto simp: quota_inv_def permit_ok_weight)

lemma quota_inv_empty [simp]: "quota_inv empty_quota_db"
  by (simp add: quota_inv_def empty_quota_db_def)

lemma active_weight_nonneg: "quota_inv db \<Longrightarrow> 0 \<le> active_weight db res"
  unfolding active_weight_def by (rule sql_sum_nonneg) (rule quota_inv_weight)

lemma background_le_active:
  assumes "quota_inv db"
  shows "background_weight db res \<le> active_weight db res"
proof -
  have "sql_sum (\<lambda>p. if \<not> p_interactive p then p_weight p else 0) P ps \<le> sql_sum p_weight P ps"
    if "\<And>p. p \<in> set ps \<Longrightarrow> 0 \<le> p_weight p" for P ps
    using that by (induction ps) (auto simp: add_mono)
  then show ?thesis
    unfolding background_weight_def active_weight_def using quota_inv_weight [OF assms] by blast
qed

lemma lookup_permit_iff:
  "quota_inv db \<Longrightarrow> lookup_permit db pid = Some p \<longleftrightarrow> p \<in> set (permits db) \<and> p_id p = pid"
  unfolding lookup_permit_def quota_inv_def by (rule fetchone_key_iff) simp

lemma row_advances_refl [simp]: "row_advances p p"
  by (simp add: row_advances_def)

lemma row_advances_trans: "row_advances p q \<Longrightarrow> row_advances q r \<Longrightarrow> row_advances p r"
  by (auto simp: row_advances_def)

lemma table_advances_refl [simp]: "table_advances ps ps"
  unfolding table_advances_def by (rule exI [of _ ps]) (simp add: list_all2_refl)

lemma list_all2_row_advances_trans:
  "list_all2 row_advances ps qs \<Longrightarrow> list_all2 row_advances qs rs \<Longrightarrow> list_all2 row_advances ps rs"
  by (rule list_all2_trans [where ?P1.0 = row_advances and ?P2.0 = row_advances])
     (auto intro: row_advances_trans)

lemma table_advances_trans:
  assumes "table_advances ps qs" "table_advances qs rs"
  shows "table_advances ps rs"
proof -
  obtain a n where a: "qs = a @ n" "list_all2 row_advances ps a"
    using assms(1) by (auto simp: table_advances_def)
  obtain b m where b: "rs = b @ m" "list_all2 row_advances (a @ n) b"
    using assms(2) a by (auto simp: table_advances_def)
  then obtain b1 b2 where "b = b1 @ b2" "list_all2 row_advances a b1"
    by (auto simp: list_all2_append1)
  then show ?thesis
    using a b unfolding table_advances_def
    by (metis append.assoc list_all2_row_advances_trans)
qed

lemma table_advances_update_where:
  assumes "\<And>p. P p \<Longrightarrow> row_advances p (f p)"
  shows "table_advances ps (update_where P f ps)"
proof -
  have "list_all2 row_advances ps (update_where P f ps)"
    using assms by (induction ps) auto
  then show ?thesis unfolding table_advances_def by (metis append_Nil2)
qed

lemma table_advances_append [simp]: "table_advances ps (ps @ qs)"
  unfolding table_advances_def by (rule exI [of _ ps]) (simp add: list_all2_refl)

lemma table_advances_member:
  assumes "table_advances ps ps'" "p \<in> set ps"
  obtains p' where "p' \<in> set ps'" "row_advances p p'"
  using assms by (auto simp: table_advances_def list_all2_conv_all_nth in_set_conv_nth nth_append)
    (metis nth_append trans_less_add1)

text \<open>An update that keeps rows well formed and only moves them forward keeps the invariant and
  never increases the load.\<close>

lemma quota_inv_update_where:
  assumes "quota_inv db" "\<And>p. P p \<Longrightarrow> p_id (f p) = p_id p"
    and "\<And>p. p \<in> set (permits db) \<Longrightarrow> permit_ok p \<Longrightarrow> P p \<Longrightarrow> permit_ok (f p)"
  shows "quota_inv (db\<lparr>permits := update_where P f (permits db)\<rparr>)"
proof -
  have "map p_id (update_where P f (permits db)) = map p_id (permits db)"
    using assms(2) by (simp add: update_where_def)
  then show ?thesis
    using assms by (auto simp: quota_inv_def set_update_where)
qed

lemma active_weight_update_where_le:
  assumes "quota_inv db" "\<And>p. P p \<Longrightarrow> row_advances p (f p)"
  shows "active_weight (db\<lparr>permits := update_where P f (permits db)\<rparr>) res \<le> active_weight db res"
proof -
  have "sql_sum p_weight (\<lambda>p. p_resource p = res \<and> p_state p = Active) (update_where P f (permits db))
    \<le> sql_sum p_weight (\<lambda>p. p_resource p = res \<and> p_state p = Active) (permits db)"
  proof (rule sql_sum_update_where_le)
    fix p assume "p \<in> set (permits db)"
    then show "0 \<le> p_weight p" using assms(1) quota_inv_weight by blast
  next
    fix p assume P: "P p"
    show "p_weight (f p) = p_weight p" using assms(2) [OF P] by (simp add: row_advances_def)
  next
    fix p assume P: "P p" and Q: "p_resource (f p) = res \<and> p_state (f p) = Active"
    show "p_resource p = res \<and> p_state p = Active"
      using assms(2) [OF P] Q by (cases "p_state p") (auto simp: row_advances_def)
  qed
  then show ?thesis by (simp add: active_weight_def)
qed

lemma background_weight_update_where_le:
  assumes "quota_inv db" "\<And>p. P p \<Longrightarrow> row_advances p (f p)"
  shows "background_weight (db\<lparr>permits := update_where P f (permits db)\<rparr>) res \<le> background_weight db res"
proof -
  let ?w = "\<lambda>p. if \<not> p_interactive p then p_weight p else 0"
  have "sql_sum ?w (\<lambda>p. p_resource p = res \<and> p_state p = Active) (update_where P f (permits db))
    \<le> sql_sum ?w (\<lambda>p. p_resource p = res \<and> p_state p = Active) (permits db)"
  proof (rule sql_sum_update_where_le)
    fix p assume "p \<in> set (permits db)"
    then show "0 \<le> ?w p" using assms(1) quota_inv_weight by auto
  next
    fix p assume P: "P p"
    show "?w (f p) = ?w p" using assms(2) [OF P] by (simp add: row_advances_def)
  next
    fix p assume P: "P p" and Q: "p_resource (f p) = res \<and> p_state (f p) = Active"
    show "p_resource p = res \<and> p_state p = Active"
      using assms(2) [OF P] Q by (cases "p_state p") (auto simp: row_advances_def)
  qed
  then show ?thesis by (simp add: background_weight_def)
qed

lemma quota_inv_cong_permits: "permits a = permits b \<Longrightarrow> quota_inv a = quota_inv b"
  by (simp add: quota_inv_def)

lemma weight_cong_permits:
  "permits a = permits b \<Longrightarrow> active_weight a res = active_weight b res"
  "permits a = permits b \<Longrightarrow> background_weight a res = background_weight b res"
  by (simp_all add: active_weight_def background_weight_def)

end
