(* ===== verification/Quota_Interface.thy ===== *)
theory Quota_Interface
  imports Quota_Types "HOL-Library.Sublist"
begin

text \<open>
  The contract between the resource governor and a deployment quota store: the operations the
  governor calls, as events, and the locale \<open>quota_store\<close> that says what an implementation
  keeps.  \<open>Quota_Sqlite\<close> and \<open>Quota_Postgres\<close> interpret it.
\<close>

section \<open>Operations as events\<close>

datatype quota_op =
    Try_acquire lock_outcome time time string acquire_request
  | Release string
  | Renew time string
  | Finish time string string string string
  | Release_uncertain time string string string string
  | Maintain time int
  | Snapshot time
  | Active_counts time

text \<open>All requests of a run use the quota that \<open>limits\<close> assigns to their resource: the
  governors of a deployment read one quota table.\<close>

fun uses_quota :: "(string \<Rightarrow> int \<times> int) \<Rightarrow> quota_op \<Rightarrow> bool" where
  "uses_quota limits (Try_acquire lock now now_reap pid rq) =
    ((r_capacity rq, r_reserved rq) = limits (r_resource rq))"
| "uses_quota limits _ = True"

definition capacity_of :: "(string \<Rightarrow> int \<times> int) \<Rightarrow> string \<Rightarrow> int" where
  "capacity_of limits res = max 0 (fst (limits res))"

definition background_capacity_of :: "(string \<Rightarrow> int \<times> int) \<Rightarrow> string \<Rightarrow> int" where
  "background_capacity_of limits res = max 0 (fst (limits res) - snd (limits res))"

text \<open>What every operation except a granted admission does to the tables: rows only move forward,
  no row is added, the audit log only grows, and no load increases.\<close>

definition keeps_load :: "quota_db \<Rightarrow> quota_db \<Rightarrow> bool" where
  "keeps_load db db' \<longleftrightarrow>
    map p_id (permits db') = map p_id (permits db) \<and>
    table_advances (permits db) (permits db') \<and> prefix (audit_log db) (audit_log db') \<and>
    (quota_inv db \<longrightarrow> quota_inv db' \<and>
      (\<forall>res. active_weight db' res \<le> active_weight db res
           \<and> background_weight db' res \<le> background_weight db res))"

lemma keeps_load_refl [simp]: "keeps_load db db"
  by (simp add: keeps_load_def)

lemma keeps_load_trans: "keeps_load a b \<Longrightarrow> keeps_load b c \<Longrightarrow> keeps_load a c"
  unfolding keeps_load_def by (metis order_trans prefix_order.order_trans table_advances_trans)

lemma keeps_load_update:
  assumes "\<And>p. P p \<Longrightarrow> row_advances p (f p)"
    and "\<And>p. permit_ok p \<Longrightarrow> P p \<Longrightarrow> permit_ok (f p)"
    and "permits db' = update_where P f (permits db)"
    and "prefix (audit_log db) (audit_log db')"
  shows "keeps_load db db'"
proof -
  let ?db1 = "db\<lparr>permits := update_where P f (permits db)\<rparr>"
  have same: "permits db' = permits ?db1" using assms(3) by simp
  have "map p_id (permits db') = map p_id (permits db)"
    using assms(1,3) by (auto simp: update_where_def row_advances_def)
  moreover have "table_advances (permits db) (permits db')"
    using assms(1,3) by (simp add: table_advances_update_where)
  moreover have "quota_inv db'" if "quota_inv db"
  proof -
    have "quota_inv ?db1"
      using that assms(1,2) by (intro quota_inv_update_where) (auto simp: row_advances_def)
    then show ?thesis using quota_inv_cong_permits [OF same] by simp
  qed
  moreover have "active_weight db' res \<le> active_weight db res" if "quota_inv db" for res
    using active_weight_update_where_le [OF that assms(1), of P res] weight_cong_permits(1) [OF same]
    by simp
  moreover have "background_weight db' res \<le> background_weight db res" if "quota_inv db" for res
    using background_weight_update_where_le [OF that assms(1), of P res]
      weight_cong_permits(2) [OF same] by simp
  ultimately show ?thesis using assms(4) by (auto simp: keeps_load_def)
qed

text \<open>A granted admission appends one active row of weight one.\<close>

definition admits :: "acquire_request \<Rightarrow> string \<Rightarrow> quota_db \<Rightarrow> quota_db \<Rightarrow> bool" where
  "admits rq new_id db db' \<longleftrightarrow>
    (\<exists>row. permits db' = permits db @ [row] \<and> audit_log db' = audit_log db
      \<and> p_id row = new_id \<and> p_resource row = r_resource rq \<and> p_interactive row = r_interactive rq
      \<and> p_weight row = 1 \<and> p_state row = Active \<and> p_uncertain_since row = None \<and> p_escalated_at row = None
      \<and> new_id \<notin> p_id ` set (permits db)
      \<and> active_weight db (r_resource rq) < r_capacity rq
      \<and> (r_interactive rq \<or> background_weight db (r_resource rq) < max 0 (r_capacity rq - r_reserved rq)))"

lemma admits_inv: "admits rq new_id db db' \<Longrightarrow> quota_inv db \<Longrightarrow> quota_inv db'"
  by (auto simp: admits_def quota_inv_def permit_ok_def)

lemma admits_advances: "admits rq new_id db db' \<Longrightarrow> table_advances (permits db) (permits db')"
  by (auto simp: admits_def)

lemma admits_active:
  assumes "admits rq new_id db db'"
  shows "active_weight db' res = active_weight db res + (if res = r_resource rq then 1 else 0)"
  using assms by (auto simp: admits_def active_weight_def sql_sum_append)

lemma admits_background:
  assumes "admits rq new_id db db'"
  shows "background_weight db' res =
    background_weight db res + (if res = r_resource rq \<and> \<not> r_interactive rq then 1 else 0)"
  using assms by (auto simp: admits_def background_weight_def sql_sum_append)

text \<open>The obligations of \<open>quota_store\<close> for a step that is quiet, or a quiet part followed by an
  admission.\<close>

lemma admission_load:
  assumes "keeps_load db db1" "admits rq new_id db1 db'" "quota_inv db"
    and "(r_capacity rq, r_reserved rq) = limits (r_resource rq)"
  shows "active_weight db' res \<le> active_weight db res \<or> active_weight db' res \<le> capacity_of limits res"
    and "background_weight db' res \<le> background_weight db res
      \<or> background_weight db' res \<le> background_capacity_of limits res"
proof -
  have lim: "limits (r_resource rq) = (r_capacity rq, r_reserved rq)" using assms(4) by simp
  have le: "active_weight db1 res \<le> active_weight db res"
      "background_weight db1 res \<le> background_weight db res"
    using assms(1,3) by (auto simp: keeps_load_def)
  show "active_weight db' res \<le> active_weight db res \<or> active_weight db' res \<le> capacity_of limits res"
    using le assms(2) lim by (auto simp: admits_active [OF assms(2)] admits_def capacity_of_def)
  show "background_weight db' res \<le> background_weight db res
      \<or> background_weight db' res \<le> background_capacity_of limits res"
    using le assms(2) lim
    by (auto simp: admits_background [OF assms(2)] admits_def background_capacity_of_def)
qed

definition step_ok :: "quota_op \<Rightarrow> quota_db \<Rightarrow> quota_db \<Rightarrow> bool" where
  "step_ok e db db' \<longleftrightarrow> keeps_load db db' \<or>
    (\<exists>lock now now_reap new_id rq db1. e = Try_acquire lock now now_reap new_id rq
      \<and> keeps_load db db1 \<and> admits rq new_id db1 db')"

lemma step_ok_inv: "step_ok e db db' \<Longrightarrow> quota_inv db \<Longrightarrow> quota_inv db'"
  by (auto simp: step_ok_def keeps_load_def intro: admits_inv)

lemma step_ok_advances: "step_ok e db db' \<Longrightarrow> table_advances (permits db) (permits db')"
  by (auto simp: step_ok_def keeps_load_def dest: admits_advances intro: table_advances_trans)

lemma step_ok_audit: "step_ok e db db' \<Longrightarrow> prefix (audit_log db) (audit_log db')"
  by (auto simp: step_ok_def keeps_load_def admits_def)

lemma step_ok_load:
  assumes "step_ok e db db'" "quota_inv db" "uses_quota limits e"
  shows "active_weight db' res \<le> active_weight db res \<or> active_weight db' res \<le> capacity_of limits res"
    and "background_weight db' res \<le> background_weight db res
      \<or> background_weight db' res \<le> background_capacity_of limits res"
proof -
  consider "keeps_load db db'"
    | lock now now_reap new_id rq db1 where "e = Try_acquire lock now now_reap new_id rq"
        "keeps_load db db1" "admits rq new_id db1 db'"
    using assms(1) by (auto simp: step_ok_def)
  then have "(active_weight db' res \<le> active_weight db res \<or> active_weight db' res \<le> capacity_of limits res)
    \<and> (background_weight db' res \<le> background_weight db res
      \<or> background_weight db' res \<le> background_capacity_of limits res)"
  proof cases
    case 1
    then show ?thesis using assms(2) by (auto simp: keeps_load_def)
  next
    case 2
    then show ?thesis
      using admission_load [OF 2(2,3) assms(2)] assms(3) by simp
  qed
  then show "active_weight db' res \<le> active_weight db res \<or> active_weight db' res \<le> capacity_of limits res"
    and "background_weight db' res \<le> background_weight db res
      \<or> background_weight db' res \<le> background_capacity_of limits res"
    by simp_all
qed

section \<open>The contract\<close>

locale quota_store =
  fixes step :: "'s \<Rightarrow> quota_op \<Rightarrow> 's"
    and inv :: "'s \<Rightarrow> bool"
    and load :: "'s \<Rightarrow> string \<Rightarrow> int"
    and bload :: "'s \<Rightarrow> string \<Rightarrow> int"
    and table :: "'s \<Rightarrow> permit_row list"
    and audit :: "'s \<Rightarrow> audit_row list"
  assumes step_inv: "inv s \<Longrightarrow> inv (step s e)"
    and step_advances: "table_advances (table s) (table (step s e))"
    and step_audit: "prefix (audit s) (audit (step s e))"
    and step_load: "inv s \<Longrightarrow> uses_quota limits e \<Longrightarrow>
          load (step s e) res \<le> load s res \<or> load (step s e) res \<le> capacity_of limits res"
    and step_bload: "inv s \<Longrightarrow> uses_quota limits e \<Longrightarrow>
          bload (step s e) res \<le> bload s res \<or> bload (step s e) res \<le> background_capacity_of limits res"
begin

text \<open>What a client may conclude about any run, whatever the interleaving of its processes.\<close>

lemma run_inv: "inv s \<Longrightarrow> inv (foldl step s es)"
  by (rule foldl_invariant) (auto intro: step_inv)

lemma run_load_bounded:
  assumes "inv s" "\<forall>e \<in> set es. uses_quota limits e" "load s res \<le> capacity_of limits res"
  shows "load (foldl step s es) res \<le> capacity_of limits res"
  using assms
proof (induction es arbitrary: s)
  case (Cons e es)
  then have "load (step s e) res \<le> capacity_of limits res"
    using step_load [of s limits e res] by auto
  with Cons show ?case by (simp add: step_inv)
qed simp

lemma run_bload_bounded:
  assumes "inv s" "\<forall>e \<in> set es. uses_quota limits e" "bload s res \<le> background_capacity_of limits res"
  shows "bload (foldl step s es) res \<le> background_capacity_of limits res"
  using assms
proof (induction es arbitrary: s)
  case (Cons e es)
  then have "bload (step s e) res \<le> background_capacity_of limits res"
    using step_bload [of s limits e res] by auto
  with Cons show ?case by (simp add: step_inv)
qed simp

lemma run_advances: "table_advances (table s) (table (foldl step s es))"
proof (induction es arbitrary: s)
  case (Cons e es)
  show ?case using table_advances_trans [OF step_advances [of s e] Cons.IH [of "step s e"]] by simp
qed simp

lemma run_audit_append_only: "prefix (audit s) (audit (foldl step s es))"
proof (induction es arbitrary: s)
  case (Cons e es)
  show ?case
    using prefix_order.order_trans [OF step_audit [of s e] Cons.IH [of "step s e"]] by simp
qed simp

text \<open>A released permit stays released.\<close>

lemma run_released_stays:
  assumes "p \<in> set (table s)" "p_state p = Released"
  obtains p' where "p' \<in> set (table (foldl step s es))" "p_id p' = p_id p" "p_state p' = Released"
proof -
  obtain p' where p': "p' \<in> set (table (foldl step s es))" "row_advances p p'"
    using run_advances assms(1) by (rule table_advances_member)
  then have "p_state p' = Released"
    using assms(2) by (cases "p_state p'") (auto simp: row_advances_def)
  with p' that show ?thesis by (auto simp: row_advances_def)
qed

end

text \<open>Tables whose every step is quiet or one admission under the quota satisfy the contract.\<close>

locale permit_tables =
  fixes step :: "quota_db \<Rightarrow> quota_op \<Rightarrow> quota_db"
  assumes each_step_ok: "step_ok e db (step db e)"

sublocale permit_tables \<subseteq> quota_store step quota_inv active_weight background_weight permits audit_log
proof (unfold_locales, goal_cases)
  case (1 db e)
  then show ?case by (rule step_ok_inv [OF each_step_ok])
next
  case (2 db e)
  show ?case by (rule step_ok_advances [OF each_step_ok])
next
  case (3 db e)
  show ?case by (rule step_ok_audit [OF each_step_ok])
next
  case (4 db limits e res)
  then show ?case by (rule step_ok_load(1) [OF each_step_ok])
next
  case (5 db limits e res)
  then show ?case by (rule step_ok_load(2) [OF each_step_ok])
qed

end
