(* ===== verification/Quota_Sqlite.thy ===== *)
theory Quota_Sqlite
  imports Quota_Interface "HOL-Library.List_Lexorder" "HOL-Library.Char_ord"
    "HOL-Library.Product_Lexorder" "HOL-Library.Option_ord"
begin

text \<open>
  The SQLite quota store: class \<open>SqliteQuotaStore\<close> of
  \<open>src/core/concurrency/resource_governor.py\<close>, one definition per method.

  \<^item> Every method is one short transaction, so it is a function of the tables; a raised
    exception rolls back, so it leaves the tables as they were.
  \<^item> Clock readings, the fresh UUID and the answer to \<open>BEGIN IMMEDIATE\<close> are arguments.  Within
    one statement Python's clock and SQLite's \<open>'now'\<close> are one instant.
  \<^item> \<open>datetime(x)\<close> compares whole seconds (\<open>sql_datetime\<close>).
\<close>

section \<open>Opening the store\<close>

definition sq_config :: "int \<Rightarrow> string option \<Rightarrow> string \<Rightarrow> bool \<Rightarrow> store_config" where
  "sq_config lease_seconds deployment_id config_revision require_preconfigured =
    \<lparr>c_lease_seconds = max 30 lease_seconds,
     c_deployment_id =
       (let d = py_strip (case deployment_id of None \<Rightarrow> '''' | Some s \<Rightarrow> s)
        in if d = '''' then ''local'' else d),
     c_config_revision = config_revision,
     c_require_preconfigured = require_preconfigured\<rparr>"

definition dict_get :: "(string \<times> string) list \<Rightarrow> string \<Rightarrow> string" where
  "dict_get kvs k = (case map_of kvs k of None \<Rightarrow> '''' | Some v \<Rightarrow> v)"

definition sq_check_identity ::
  "store_config \<Rightarrow> string \<Rightarrow> quota_db \<Rightarrow> gov_error + quota_db" where
  "sq_check_identity cfg now_text db =
    (if meta db = [] then
       if c_require_preconfigured cfg then Inl Not_provisioned
       else
         let inserted = meta db @
               [(''deployment_id'', c_deployment_id cfg),
                (''schema_version'', SCHEMA_VERSION),
                (''config_revision'', c_config_revision cfg)]
         in Inr (db\<lparr>meta := update_where (\<lambda>(k, v). k = ''updated_at'') (\<lambda>(k, v). (k, now_text)) inserted\<rparr>)
     else
       let stored_deployment = dict_get (meta db) ''deployment_id'';
           stored_version = dict_get (meta db) ''schema_version''
       in if stored_deployment \<noteq> c_deployment_id cfg
          then Inl (Deployment_mismatch stored_deployment (c_deployment_id cfg))
          else if stored_version \<noteq> SCHEMA_VERSION
          then Inl (Schema_mismatch stored_version SCHEMA_VERSION)
          else Inr db)"

text \<open>\<open>__init__\<close>: a required but missing file is refused before any table is created;
  otherwise \<open>_init_once\<close> creates the tables (a new file has empty ones) and checks the
  identity in one transaction.\<close>

definition sq_open ::
  "store_config \<Rightarrow> string \<Rightarrow> quota_db option \<Rightarrow> gov_error + quota_db" where
  "sq_open cfg now_text file =
    (case file of
       None \<Rightarrow> if c_require_preconfigured cfg then Inl Not_provisioned
               else sq_check_identity cfg now_text empty_quota_db
     | Some db \<Rightarrow> sq_check_identity cfg now_text db)"

section \<open>Quotas\<close>

definition quota_limits :: "quota_row list \<Rightarrow> (string \<times> int \<times> int) list" where
  "quota_limits rows = map (\<lambda>q. (q_resource q, q_capacity q, q_reserved_interactive q)) rows"

definition stored_quotas :: "quota_db \<Rightarrow> (string \<times> int \<times> int) list" where
  "stored_quotas db = quota_limits (quotas db)"

fun sq_ensure_loop ::
  "store_config \<Rightarrow> time \<Rightarrow> (string \<times> int \<times> int) list \<Rightarrow> (string \<times> int \<times> int) list
    \<Rightarrow> quota_row list \<Rightarrow> (string \<times> int \<times> int) list \<times> quota_row list" where
  "sq_ensure_loop cfg now [] existing rows = (existing, rows)"
| "sq_ensure_loop cfg now ((res, cap, reserved) # defaults) existing rows =
    (if map_of existing res = None then
       sq_ensure_loop cfg now defaults
         (existing @ [(res, max 1 cap, max 0 reserved)])
         (rows @ [\<lparr>q_resource = res, q_capacity = max 1 cap,
                   q_reserved_interactive = max 0 reserved,
                   q_config_revision = c_config_revision cfg, q_updated_at = now\<rparr>])
     else sq_ensure_loop cfg now defaults existing rows)"

definition sq_ensure_quotas ::
  "store_config \<Rightarrow> time \<Rightarrow> (string \<times> int \<times> int) list \<Rightarrow> quota_db
    \<Rightarrow> (string \<times> int \<times> int) list \<times> quota_db" where
  "sq_ensure_quotas cfg now defaults db =
    (let (existing, rows) = sq_ensure_loop cfg now defaults (stored_quotas db) (quotas db)
     in (existing, db\<lparr>quotas := rows\<rparr>))"

definition sq_update_quota ::
  "store_config \<Rightarrow> time \<Rightarrow> string \<Rightarrow> int \<Rightarrow> int \<Rightarrow> string \<Rightarrow> quota_db \<Rightarrow> quota_db" where
  "sq_update_quota cfg now res cap reserved operator db =
    (let row = \<lparr>q_resource = res, q_capacity = max 1 cap, q_reserved_interactive = max 0 reserved,
                q_config_revision = c_config_revision cfg, q_updated_at = now\<rparr>;
         rows = (if \<exists>q \<in> set (quotas db). q_resource q = res
                 then update_where (\<lambda>q. q_resource q = res) (\<lambda>_. row) (quotas db)
                 else quotas db @ [row])
     in db\<lparr>quotas := rows,
           audit_log := audit_log db @
             [\<lparr>a_permit_id = '''', a_resource = res, a_action = ''quota_update'',
               a_evidence = ''config_revision'', 
               a_reason = ''capacity='' @ py_str cap @ '' reserved='' @ py_str reserved,
               a_operator = operator,
               a_previous_state = None, a_recorded_at = now\<rparr>]\<rparr>)"

section \<open>Expiry, escalation and evidence-backed release\<close>

definition sq_expired :: "time \<Rightarrow> permit_row \<Rightarrow> bool" where
  "sq_expired now p \<longleftrightarrow> p_state p = Active \<and> sql_datetime (p_expires_at p) < sql_datetime now"

definition isolate :: "time \<Rightarrow> permit_row \<Rightarrow> permit_row" where
  "isolate now p = p\<lparr>p_state := Uncertain,
     p_uncertain_since := (case p_uncertain_since p of None \<Rightarrow> Some now | Some t \<Rightarrow> Some t)\<rparr>"

definition sq_reap_expired :: "time \<Rightarrow> quota_db \<Rightarrow> nat \<times> quota_db" where
  "sq_reap_expired now db =
    (rowcount (sq_expired now) (permits db),
     db\<lparr>permits := update_where (sq_expired now) (isolate now) (permits db)\<rparr>)"

definition sq_escalates :: "time \<Rightarrow> int \<Rightarrow> permit_row \<Rightarrow> bool" where
  "sq_escalates now threshold p \<longleftrightarrow> p_state p = Uncertain \<and> p_escalated_at p = None
    \<and> (case p_uncertain_since p of None \<Rightarrow> False
       | Some t \<Rightarrow> sql_datetime t < sql_datetime (now - seconds threshold))"

text \<open>The counters and warnings \<open>maintain\<close> emits after its transaction are not part of the
  tables.\<close>

definition sq_maintain :: "time \<Rightarrow> int \<Rightarrow> quota_db \<Rightarrow> (nat \<times> nat) \<times> quota_db" where
  "sq_maintain now escalate_seconds db =
    (let threshold = max 60 escalate_seconds;
         (reaped, db1) = sq_reap_expired now db;
         escalated_rows = rowcount (sq_escalates now threshold) (permits db1);
         db2 = db1\<lparr>permits := update_where (sq_escalates now threshold)
                 (\<lambda>p. p\<lparr>p_escalated_at := Some now\<rparr>) (permits db1)\<rparr>
     in ((reaped, escalated_rows), db2))"

definition sq_escalated_resources :: "quota_db \<Rightarrow> string set" where
  "sq_escalated_resources db =
    p_resource ` {p \<in> set (permits db). p_state p = Uncertain \<and> p_escalated_at p \<noteq> None}"

definition sq_uncertain_permits :: "string option \<Rightarrow> quota_db \<Rightarrow> permit_row list" where
  "sq_uncertain_permits res db =
    sort_key (\<lambda>p. (p_uncertain_since p, p_id p))
      (filter (\<lambda>p. p_state p = Uncertain \<and>
         (case res of None \<Rightarrow> True | Some r \<Rightarrow> r = '''' \<or> p_resource p = r)) (permits db))"

definition sq_release_uncertain ::
  "time \<Rightarrow> string \<Rightarrow> string \<Rightarrow> string \<Rightarrow> string \<Rightarrow> quota_db \<Rightarrow> (gov_error + bool) \<times> quota_db" where
  "sq_release_uncertain now pid evidence0 reason operator db =
    (let evidence = py_strip evidence0 in
     if evidence \<notin> set VALID_RELEASE_EVIDENCE then (Inl (Unrecognized_evidence evidence), db)
     else case fetchone (\<lambda>p. p_id p = pid) (permits db) of
       None \<Rightarrow> (Inr False, db)
     | Some row \<Rightarrow>
         (if p_state row = Released then (Inr False, db)
          else if p_state row \<noteq> Uncertain then (Inr False, db)
          else
            (Inr True,
             db\<lparr>permits := update_where (\<lambda>p. p_id p = pid \<and> p_state p = Uncertain)
                  (\<lambda>p. p\<lparr>p_state := Released, p_recovery_reason := clip 500 reason\<rparr>) (permits db),
                audit_log := audit_log db @
                  [\<lparr>a_permit_id = pid, a_resource = p_resource row,
                    a_action = ''release_uncertain'', a_evidence = evidence,
                    a_reason = clip 500 reason, a_operator = operator,
                    a_previous_state = Some (p_state row), a_recorded_at = now\<rparr>]\<rparr>)))"

definition sq_audit_entries :: "string option \<Rightarrow> quota_db \<Rightarrow> audit_row list" where
  "sq_audit_entries pid db =
    filter (\<lambda>a. case pid of None \<Rightarrow> True | Some x \<Rightarrow> x = '''' \<or> a_permit_id a = x) (audit_log db)"

section \<open>Bounded retry\<close>

text \<open>
  \<open>_run_with_busy_retry\<close>: the environment supplies, for each attempt, the result of the
  operation and the monotonic clock read when a busy error is handled.  \<open>None\<close> means the
  supplied environment ended before the loop did.
\<close>

fun sq_run_with_busy_retry ::
  "time \<Rightarrow> ((gov_error + 'a) \<times> time) list \<Rightarrow> (gov_error + 'a) option" where
  "sq_run_with_busy_retry deadline [] = None"
| "sq_run_with_busy_retry deadline ((result, clock) # attempts) =
    (case result of
       Inr v \<Rightarrow> Some (Inr v)
     | Inl e \<Rightarrow> (if e \<noteq> Db_busy \<or> deadline \<le> clock then Some (Inl e)
                else sq_run_with_busy_retry deadline attempts))"

section \<open>Admission, renewal and the end of a permit\<close>

definition sq_try_acquire ::
  "store_config \<Rightarrow> lock_outcome \<Rightarrow> time \<Rightarrow> time \<Rightarrow> string \<Rightarrow> acquire_request \<Rightarrow> quota_db
    \<Rightarrow> (gov_error + string option) \<times> quota_db" where
  "sq_try_acquire cfg lock now now_reap new_id rq db =
    (case lock of
       Lock_busy \<Rightarrow> (Inr None, db)
     | Lock_failed \<Rightarrow> (Inl Db_error, db)
     | Lock_granted \<Rightarrow>
         (let db1 = snd (sq_reap_expired now_reap db) in
          if \<exists>p \<in> set (permits db1). p_resource p = r_resource rq \<and> p_state p = Uncertain
               \<and> p_escalated_at p \<noteq> None
          then (Inr None, db1)
          else
            let active = sql_sum p_weight
                  (\<lambda>p. p_resource p = r_resource rq \<and> p_state p = Active) (permits db1);
                background = sql_sum (\<lambda>p. if \<not> p_interactive p then p_weight p else 0)
                  (\<lambda>p. p_resource p = r_resource rq \<and> p_state p = Active) (permits db1);
                background_capacity = max 0 (r_capacity rq - r_reserved rq)
            in if active \<ge> r_capacity rq \<or> (\<not> r_interactive rq \<and> background \<ge> background_capacity)
               then (Inr None, db1)
               else if \<exists>p \<in> set (permits db1). p_id p = new_id then (Inl Db_error, db)
               else
                 (Inr (Some new_id),
                  db1\<lparr>permits := permits db1 @
                    [\<lparr>p_id = new_id, p_resource = r_resource rq, p_interactive = r_interactive rq,
                      p_owner_id = r_owner_id rq, p_attempt_id = r_attempt_id rq, p_weight = 1,
                      p_state = Active, p_expires_at = now + seconds (c_lease_seconds cfg),
                      p_created_at = now, p_started_at = Some now, p_hard_deadline_at = None,
                      p_provider_request_id = '''', p_uncertain_since = None,
                      p_escalated_at = None, p_recovery_reason = ''''\<rparr>]\<rparr>)))"

definition sq_release :: "string \<Rightarrow> quota_db \<Rightarrow> quota_db" where
  "sq_release pid db =
    db\<lparr>permits := update_where (\<lambda>p. p_id p = pid \<and> p_state p \<in> {Active, Uncertain})
         (\<lambda>p. p\<lparr>p_state := Released\<rparr>) (permits db)\<rparr>"

definition sq_renew :: "store_config \<Rightarrow> time \<Rightarrow> string \<Rightarrow> quota_db \<Rightarrow> bool \<times> quota_db" where
  "sq_renew cfg now pid db =
    (let expires = now + seconds (c_lease_seconds cfg);
         hit = (\<lambda>p. p_id p = pid \<and> p_state p = Active)
     in (0 < rowcount hit (permits db),
         db\<lparr>permits := update_where hit (\<lambda>p. p\<lparr>p_expires_at := expires\<rparr>) (permits db)\<rparr>))"

definition sq_finish ::
  "time \<Rightarrow> string \<Rightarrow> string \<Rightarrow> string \<Rightarrow> string \<Rightarrow> quota_db \<Rightarrow> (gov_error + bool) \<times> quota_db" where
  "sq_finish now pid outcome0 evidence0 reason db =
    (let outcome = py_lower (py_strip outcome0);
         evidence = (if outcome \<noteq> ''uncertain'' then py_strip evidence0 else evidence0) in
     if outcome \<notin> set [''completed'', ''cancelled'', ''uncertain''] then
       (Inl (Unsupported_outcome outcome), db)
     else if outcome \<noteq> ''uncertain'' \<and> evidence \<notin> set VALID_RELEASE_EVIDENCE then
       (Inl (Unrecognized_evidence evidence), db)
     else case fetchone (\<lambda>p. p_id p = pid) (permits db) of
       None \<Rightarrow> (Inr False, db)
     | Some row \<Rightarrow>
         (if p_state row = Released then (Inr True, db)
          else
            let hit = (\<lambda>p. p_id p = pid \<and> p_state p \<in> {Active, Uncertain});
                (rows, action) =
                  (if outcome = ''uncertain'' then
                     (update_where hit
                        (\<lambda>p. (isolate now p)\<lparr>p_recovery_reason := clip 500 reason\<rparr>) (permits db),
                      ''finish_uncertain'')
                   else
                     (update_where hit
                        (\<lambda>p. p\<lparr>p_state := Released, p_recovery_reason := clip 500 reason\<rparr>) (permits db),
                      ''finish''))
            in (Inr True,
                db\<lparr>permits := rows,
                   audit_log := audit_log db @
                     [\<lparr>a_permit_id = pid, a_resource = p_resource row, a_action = action,
                       a_evidence = evidence, a_reason = clip 500 reason, a_operator = '''',
                       a_previous_state = Some (p_state row), a_recorded_at = now\<rparr>]\<rparr>)))"

section \<open>Observability\<close>

definition state_weight :: "permit_state \<Rightarrow> string \<Rightarrow> quota_db \<Rightarrow> int" where
  "state_weight st res db =
    sql_sum (\<lambda>p. if p_state p = st then p_weight p else 0) (\<lambda>p. p_resource p = res) (permits db)"

definition sq_snapshot :: "time \<Rightarrow> quota_db \<Rightarrow> (string \<times> int \<times> int) list \<times> quota_db" where
  "sq_snapshot now db =
    (let db1 = snd (sq_reap_expired now db)
     in (map (\<lambda>res. (res, state_weight Active res db1, state_weight Uncertain res db1))
           (remdups (map p_resource (permits db1))), db1))"

definition sq_active_counts :: "time \<Rightarrow> quota_db \<Rightarrow> (string \<times> int) list \<times> quota_db" where
  "sq_active_counts now db =
    (let db1 = snd (sq_reap_expired now db)
     in (map (\<lambda>res. (res, active_weight db1 res))
           (remdups (map p_resource (filter (\<lambda>p. p_state p = Active) (permits db1)))), db1))"

section \<open>Dispatch\<close>

text \<open>One transaction of some process on the shared database.\<close>

fun sq_step :: "store_config \<Rightarrow> quota_db \<Rightarrow> quota_op \<Rightarrow> quota_db" where
  "sq_step cfg db (Try_acquire lock now now_reap new_id rq) =
    snd (sq_try_acquire cfg lock now now_reap new_id rq db)"
| "sq_step cfg db (Release pid) = sq_release pid db"
| "sq_step cfg db (Renew now pid) = snd (sq_renew cfg now pid db)"
| "sq_step cfg db (Finish now pid outcome evidence reason) =
    snd (sq_finish now pid outcome evidence reason db)"
| "sq_step cfg db (Release_uncertain now pid evidence reason operator) =
    snd (sq_release_uncertain now pid evidence reason operator db)"
| "sq_step cfg db (Maintain now escalate_seconds) = snd (sq_maintain now escalate_seconds db)"
| "sq_step cfg db (Snapshot now) = snd (sq_snapshot now db)"
| "sq_step cfg db (Active_counts now) = snd (sq_active_counts now db)"

section \<open>Every operation keeps the contract\<close>

lemma isolate_simps [simp]:
  "p_id (isolate now p) = p_id p" "p_resource (isolate now p) = p_resource p"
  "p_weight (isolate now p) = p_weight p" "p_interactive (isolate now p) = p_interactive p"
  "p_state (isolate now p) = Uncertain" "p_escalated_at (isolate now p) = p_escalated_at p"
  "p_uncertain_since (isolate now p) \<noteq> None" "p_expires_at (isolate now p) = p_expires_at p"
  by (auto simp: isolate_def split: option.splits)

lemma isolate_advances: "p_state p \<noteq> Released \<Longrightarrow> row_advances p (isolate now p)"
  by (cases "p_state p") (auto simp: row_advances_def)

lemma isolate_ok: "permit_ok p \<Longrightarrow> permit_ok (isolate now p)"
  by (simp add: permit_ok_def)

lemma sq_reap_keeps: "keeps_load db (snd (sq_reap_expired now db))"
  unfolding sq_reap_expired_def
  by (rule keeps_load_update [where P = "sq_expired now" and f = "isolate now"])
     (auto simp: sq_expired_def isolate_advances isolate_ok)

lemma sq_maintain_keeps: "keeps_load db (snd (sq_maintain now esc db))"
proof -
  let ?db1 = "snd (sq_reap_expired now db)"
  let ?P = "sq_escalates now (max 60 esc)"
  have "keeps_load ?db1 (?db1\<lparr>permits := update_where ?P (\<lambda>p. p\<lparr>p_escalated_at := Some now\<rparr>) (permits ?db1)\<rparr>)"
    by (rule keeps_load_update) (auto simp: row_advances_def permit_ok_def sq_escalates_def)
  with sq_reap_keeps [of db now] show ?thesis
    by (auto simp: sq_maintain_def Let_def sq_reap_expired_def elim: keeps_load_trans)
qed

lemma sq_release_keeps: "keeps_load db (sq_release pid db)"
  unfolding sq_release_def
  by (rule keeps_load_update) (auto simp: row_advances_def permit_ok_def)

lemma sq_renew_keeps: "keeps_load db (snd (sq_renew cfg now pid db))"
  unfolding sq_renew_def Let_def
  by (simp, rule keeps_load_update) (auto simp: row_advances_def permit_ok_def)

lemma sq_finish_keeps: "keeps_load db (snd (sq_finish now pid outcome evidence reason db))"
proof -
  have iso: "keeps_load db (db\<lparr>permits := update_where (\<lambda>p. p_id p = pid \<and> p_state p \<in> {Active, Uncertain})
      (\<lambda>p. (isolate now p)\<lparr>p_recovery_reason := clip 500 reason\<rparr>) (permits db), audit_log := audit_log db @ xs\<rparr>)" for xs
    by (rule keeps_load_update) (auto simp: row_advances_def permit_ok_def)
  have rel: "keeps_load db (db\<lparr>permits := update_where (\<lambda>p. p_id p = pid \<and> p_state p \<in> {Active, Uncertain})
      (\<lambda>p. p\<lparr>p_state := Released, p_recovery_reason := clip 500 reason\<rparr>) (permits db), audit_log := audit_log db @ xs\<rparr>)" for xs
    by (rule keeps_load_update) (auto simp: row_advances_def permit_ok_def)
  show ?thesis
    using iso rel by (simp add: sq_finish_def Let_def split: option.splits)
qed

lemma sq_release_uncertain_keeps:
  "keeps_load db (snd (sq_release_uncertain now pid evidence reason operator db))"
proof -
  have "keeps_load db (db\<lparr>permits := update_where (\<lambda>p. p_id p = pid \<and> p_state p = Uncertain)
      (\<lambda>p. p\<lparr>p_state := Released, p_recovery_reason := clip 500 reason\<rparr>) (permits db), audit_log := audit_log db @ xs\<rparr>)" for xs
    by (rule keeps_load_update) (auto simp: row_advances_def permit_ok_def)
  then show ?thesis by (simp add: sq_release_uncertain_def Let_def split: option.splits)
qed

lemmas sq_keeps = sq_reap_keeps sq_maintain_keeps sq_release_keeps sq_renew_keeps sq_finish_keeps
  sq_release_uncertain_keeps

text \<open>Admission either is quiet or reaps and then admits under the quota.\<close>

lemma sq_try_acquire_cases:
  assumes "sq_try_acquire cfg lock now now_reap new_id rq db = (out, db')"
  obtains "\<forall>i. out \<noteq> Inr (Some i)" "keeps_load db db'"
  | "out = Inr (Some new_id)" "admits rq new_id (snd (sq_reap_expired now_reap db)) db'"
      "\<not> escalated (snd (sq_reap_expired now_reap db)) (r_resource rq)"
proof (cases lock)
  case Lock_granted
  let ?db1 = "snd (sq_reap_expired now_reap db)"
  show ?thesis
  proof (cases "out = Inr (Some new_id)")
    case True
    then have "admits rq new_id ?db1 db'" "\<not> escalated ?db1 (r_resource rq)"
      using assms Lock_granted
      by (auto simp: sq_try_acquire_def Let_def admits_def escalated_def active_weight_def
          background_weight_def split: if_splits)
    with True that(2) show ?thesis by blast
  next
    case False
    then have "\<forall>i. out \<noteq> Inr (Some i)" "db' = db \<or> db' = ?db1"
      using assms Lock_granted by (auto simp: sq_try_acquire_def Let_def split: if_splits)
    then show ?thesis using that(1) sq_reap_keeps keeps_load_refl by metis
  qed
qed (use assms that(1) in \<open>auto simp: sq_try_acquire_def\<close>)

lemma sq_step_ok: "step_ok e db (sq_step cfg db e)"
proof (cases e)
  case (Try_acquire lock now now_reap new_id rq)
  obtain out db' where res: "sq_try_acquire cfg lock now now_reap new_id rq db = (out, db')"
    by fastforce
  then show ?thesis
    using sq_reap_keeps [of db now_reap] res
    by (cases rule: sq_try_acquire_cases) (auto simp: Try_acquire step_ok_def)
qed (use sq_keeps in \<open>auto simp: step_ok_def sq_snapshot_def sq_active_counts_def Let_def\<close>)

interpretation sq: permit_tables "sq_step cfg" for cfg
  by unfold_locales (rule sq_step_ok)

end
