(* ===== verification/Quota_Postgres.thy ===== *)
theory Quota_Postgres
  imports Quota_Sqlite
begin

text \<open>
  The PostgreSQL quota store: class \<open>PostgresQuotaStore\<close> of
  \<open>src/core/concurrency/resource_governor.py\<close>, one definition per method, and its equivalence
  with the SQLite store.

  \<open>snow\<close> is the server's \<open>now()\<close> (fixed for a transaction), \<open>cnow\<close> the clock of the client
  process.  Times are compared at full resolution here, at whole seconds in SQLite: that is the
  only difference between the two stores, and \<open>whole_second_db\<close> is the condition under which it
  disappears.
\<close>

section \<open>Identity and quotas\<close>

definition pg_check_identity :: "store_config \<Rightarrow> quota_db \<Rightarrow> gov_error + quota_db" where
  "pg_check_identity cfg db =
    (if meta db = [] then
       if c_require_preconfigured cfg then Inl Not_provisioned
       else Inr (db\<lparr>meta := [(''deployment_id'', c_deployment_id cfg),
                (''schema_version'', SCHEMA_VERSION), (''config_revision'', c_config_revision cfg)]\<rparr>)
     else if dict_get (meta db) ''deployment_id'' \<noteq> c_deployment_id cfg
     then Inl (Deployment_mismatch (dict_get (meta db) ''deployment_id'') (c_deployment_id cfg))
     else if dict_get (meta db) ''schema_version'' \<noteq> SCHEMA_VERSION
     then Inl (Schema_mismatch (dict_get (meta db) ''schema_version'') SCHEMA_VERSION)
     else Inr db)"

fun pg_ensure_loop ::
  "store_config \<Rightarrow> time \<Rightarrow> (string \<times> int \<times> int) list \<Rightarrow> quota_row list \<Rightarrow> quota_row list" where
  "pg_ensure_loop cfg now [] rows = rows"
| "pg_ensure_loop cfg now ((res, cap, reserved) # defaults) rows =
    (let row = \<lparr>q_resource = res, q_capacity = max 1 cap, q_reserved_interactive = max 0 reserved,
                q_config_revision = c_config_revision cfg, q_updated_at = now\<rparr>
     in pg_ensure_loop cfg now defaults
          (if \<exists>q \<in> set rows. q_resource q = res then rows else rows @ [row]))"

definition pg_ensure_quotas ::
  "store_config \<Rightarrow> time \<Rightarrow> (string \<times> int \<times> int) list \<Rightarrow> quota_db
    \<Rightarrow> (string \<times> int \<times> int) list \<times> quota_db" where
  "pg_ensure_quotas cfg now defaults db =
    (let db' = db\<lparr>quotas := pg_ensure_loop cfg now defaults (quotas db)\<rparr>
     in (stored_quotas db', db'))"

definition pg_update_quota ::
  "store_config \<Rightarrow> time \<Rightarrow> string \<Rightarrow> int \<Rightarrow> int \<Rightarrow> string \<Rightarrow> quota_db \<Rightarrow> quota_db" where
  "pg_update_quota cfg cnow res cap reserved operator db =
    (let row = \<lparr>q_resource = res, q_capacity = max 1 cap, q_reserved_interactive = max 0 reserved,
                q_config_revision = c_config_revision cfg, q_updated_at = cnow\<rparr>;
         entry = \<lparr>a_permit_id = '''', a_resource = res, a_action = ''quota_update'',
               a_evidence = ''config_revision'',
               a_reason = ''capacity='' @ py_str cap @ '' reserved='' @ py_str reserved,
               a_operator = operator, a_previous_state = None, a_recorded_at = cnow\<rparr>
     in db\<lparr>quotas := (if \<exists>q \<in> set (quotas db). q_resource q = res
                       then update_where (\<lambda>q. q_resource q = res) (\<lambda>_. row) (quotas db)
                       else quotas db @ [row]),
           audit_log := audit_log db @ [entry]\<rparr>)"

section \<open>Permits\<close>

definition pg_expired :: "time \<Rightarrow> permit_row \<Rightarrow> bool" where
  "pg_expired snow p \<longleftrightarrow> p_state p = Active \<and> p_expires_at p < snow"

definition pg_reap_expired :: "time \<Rightarrow> quota_db \<Rightarrow> nat \<times> quota_db" where
  "pg_reap_expired snow db =
    (rowcount (pg_expired snow) (permits db),
     db\<lparr>permits := update_where (pg_expired snow)
          (\<lambda>p. p\<lparr>p_state := Uncertain,
             p_uncertain_since := (case p_uncertain_since p of None \<Rightarrow> Some snow | Some t \<Rightarrow> Some t)\<rparr>)
          (permits db)\<rparr>)"

definition pg_escalates :: "time \<Rightarrow> int \<Rightarrow> permit_row \<Rightarrow> bool" where
  "pg_escalates snow threshold p \<longleftrightarrow> p_state p = Uncertain \<and> p_escalated_at p = None
    \<and> (case p_uncertain_since p of None \<Rightarrow> False | Some t \<Rightarrow> t < snow - seconds threshold)"

definition pg_maintain :: "time \<Rightarrow> int \<Rightarrow> quota_db \<Rightarrow> (nat \<times> nat) \<times> quota_db" where
  "pg_maintain snow escalate_seconds db =
    (let threshold = max 60 escalate_seconds;
         (reaped, db1) = pg_reap_expired snow db
     in ((reaped, rowcount (pg_escalates snow threshold) (permits db1)),
         db1\<lparr>permits := update_where (pg_escalates snow threshold)
               (\<lambda>p. p\<lparr>p_escalated_at := Some snow\<rparr>) (permits db1)\<rparr>))"

definition pg_escalated_resources :: "quota_db \<Rightarrow> string set" where
  "pg_escalated_resources db =
    p_resource ` {p \<in> set (permits db). p_state p = Uncertain \<and> p_escalated_at p \<noteq> None}"

definition pg_release_uncertain ::
  "time \<Rightarrow> string \<Rightarrow> string \<Rightarrow> string \<Rightarrow> string \<Rightarrow> quota_db \<Rightarrow> (gov_error + bool) \<times> quota_db" where
  "pg_release_uncertain cnow pid evidence0 reason operator db =
    (let evidence = py_strip evidence0 in
     if evidence \<notin> set VALID_RELEASE_EVIDENCE then (Inl (Unrecognized_evidence evidence), db)
     else case fetchone (\<lambda>p. p_id p = pid) (permits db) of
       None \<Rightarrow> (Inr False, db)
     | Some row \<Rightarrow>
         (if p_state row \<noteq> Uncertain then (Inr False, db)
          else
            let hit = (\<lambda>p. p_id p = pid \<and> p_state p = Uncertain) in
            if rowcount hit (permits db) = 0 then (Inr False, db)
            else
              (Inr True,
               db\<lparr>permits := update_where hit
                    (\<lambda>p. p\<lparr>p_state := Released, p_recovery_reason := clip 500 reason\<rparr>) (permits db),
                  audit_log := audit_log db @
                    [\<lparr>a_permit_id = pid, a_resource = p_resource row,
                      a_action = ''release_uncertain'', a_evidence = evidence,
                      a_reason = clip 500 reason, a_operator = operator,
                      a_previous_state = Some Uncertain, a_recorded_at = cnow\<rparr>]\<rparr>)))"

definition pg_audit_entries :: "string option \<Rightarrow> quota_db \<Rightarrow> audit_row list" where
  "pg_audit_entries pid db =
    filter (\<lambda>a. case pid of None \<Rightarrow> True | Some x \<Rightarrow> x = '''' \<or> a_permit_id a = x) (audit_log db)"

text \<open>\<open>_run_with_retry\<close>: serialization failures, deadlocks and lock timeouts are \<open>Db_busy\<close>.\<close>

fun pg_run_with_retry ::
  "time \<Rightarrow> ((gov_error + 'a) \<times> time) list \<Rightarrow> (gov_error + 'a) option" where
  "pg_run_with_retry deadline [] = None"
| "pg_run_with_retry deadline ((result, clock) # attempts) =
    (case result of
       Inr v \<Rightarrow> Some (Inr v)
     | Inl e \<Rightarrow> (if e \<noteq> Db_busy \<or> deadline \<le> clock then Some (Inl e)
                else pg_run_with_retry deadline attempts))"

section \<open>Admission, renewal and the end of a permit\<close>

definition pg_try_acquire ::
  "store_config \<Rightarrow> lock_outcome \<Rightarrow> time \<Rightarrow> string \<Rightarrow> acquire_request \<Rightarrow> quota_db
    \<Rightarrow> (gov_error + string option) \<times> quota_db" where
  "pg_try_acquire cfg lock snow permit_id rq db =
    (case lock of
       Lock_busy \<Rightarrow> (Inr None, db)
     | Lock_failed \<Rightarrow> (Inl Db_error, db)
     | Lock_granted \<Rightarrow>
         (let db1 = snd (pg_reap_expired snow db);
              active = active_weight db1 (r_resource rq);
              background = background_weight db1 (r_resource rq);
              background_capacity = max 0 (r_capacity rq - r_reserved rq)
          in if \<exists>p \<in> set (permits db1). p_resource p = r_resource rq \<and> p_state p = Uncertain
                  \<and> p_escalated_at p \<noteq> None
             then (Inr None, db1)
             else if active \<ge> r_capacity rq \<or> (\<not> r_interactive rq \<and> background \<ge> background_capacity)
             then (Inr None, db1)
             else if \<exists>p \<in> set (permits db1). p_id p = permit_id then (Inl Db_error, db)
             else
               (Inr (Some permit_id),
                db1\<lparr>permits := permits db1 @
                  [\<lparr>p_id = permit_id, p_resource = r_resource rq, p_interactive = r_interactive rq,
                    p_owner_id = r_owner_id rq, p_attempt_id = r_attempt_id rq, p_weight = 1,
                    p_state = Active, p_expires_at = snow + seconds (c_lease_seconds cfg),
                    p_created_at = snow, p_started_at = Some snow, p_hard_deadline_at = None,
                    p_provider_request_id = '''', p_uncertain_since = None,
                    p_escalated_at = None, p_recovery_reason = ''''\<rparr>]\<rparr>)))"

definition pg_release :: "string \<Rightarrow> quota_db \<Rightarrow> quota_db" where
  "pg_release pid db =
    db\<lparr>permits := update_where (\<lambda>p. p_id p = pid \<and> p_state p \<in> {Active, Uncertain})
         (\<lambda>p. p\<lparr>p_state := Released\<rparr>) (permits db)\<rparr>"

definition pg_renew :: "store_config \<Rightarrow> time \<Rightarrow> string \<Rightarrow> quota_db \<Rightarrow> bool \<times> quota_db" where
  "pg_renew cfg snow pid db =
    (let hit = (\<lambda>p. p_id p = pid \<and> p_state p = Active)
     in (0 < rowcount hit (permits db),
         db\<lparr>permits := update_where hit
              (\<lambda>p. p\<lparr>p_expires_at := snow + seconds (c_lease_seconds cfg)\<rparr>) (permits db)\<rparr>))"

definition pg_finish ::
  "time \<Rightarrow> string \<Rightarrow> string \<Rightarrow> string \<Rightarrow> string \<Rightarrow> quota_db \<Rightarrow> (gov_error + bool) \<times> quota_db" where
  "pg_finish cnow pid outcome0 evidence0 reason db =
    (let outcome = py_lower (py_strip outcome0);
         evidence = (if outcome \<noteq> ''uncertain'' then py_strip evidence0 else evidence0);
         hit = (\<lambda>p. p_id p = pid \<and> p_state p \<in> {Active, Uncertain}) in
     if outcome \<notin> set [''completed'', ''cancelled'', ''uncertain''] then
       (Inl (Unsupported_outcome outcome), db)
     else if outcome \<noteq> ''uncertain'' \<and> evidence \<notin> set VALID_RELEASE_EVIDENCE then
       (Inl (Unrecognized_evidence evidence), db)
     else case fetchone (\<lambda>p. p_id p = pid) (permits db) of
       None \<Rightarrow> (Inr False, db)
     | Some row \<Rightarrow>
         (if p_state row = Released then (Inr True, db)
          else
            (Inr True,
             db\<lparr>permits :=
                  (if outcome = ''uncertain'' then
                     update_where hit
                       (\<lambda>p. p\<lparr>p_state := Uncertain,
                          p_uncertain_since :=
                            (case p_uncertain_since p of None \<Rightarrow> Some cnow | Some t \<Rightarrow> Some t),
                          p_recovery_reason := clip 500 reason\<rparr>) (permits db)
                   else
                     update_where hit
                       (\<lambda>p. p\<lparr>p_state := Released, p_recovery_reason := clip 500 reason\<rparr>) (permits db)),
                audit_log := audit_log db @
                  [\<lparr>a_permit_id = pid, a_resource = p_resource row,
                    a_action = (if outcome = ''uncertain'' then ''finish_uncertain'' else ''finish''),
                    a_evidence = evidence, a_reason = clip 500 reason, a_operator = '''',
                    a_previous_state = Some (p_state row), a_recorded_at = cnow\<rparr>]\<rparr>)))"

definition pg_snapshot :: "time \<Rightarrow> quota_db \<Rightarrow> (string \<times> int \<times> int) list \<times> quota_db" where
  "pg_snapshot snow db =
    (let db1 = snd (pg_reap_expired snow db)
     in (map (\<lambda>res. (res, state_weight Active res db1, state_weight Uncertain res db1))
           (remdups (map p_resource (permits db1))), db1))"

definition pg_active_counts :: "time \<Rightarrow> quota_db \<Rightarrow> (string \<times> int) list \<times> quota_db" where
  "pg_active_counts snow db =
    (let db1 = snd (pg_reap_expired snow db)
     in (map (\<lambda>res. (res, active_weight db1 res))
           (remdups (map p_resource (filter (\<lambda>p. p_state p = Active) (permits db1)))), db1))"

section \<open>Dispatch\<close>

text \<open>The server clock of a transaction is the clock that reaps.\<close>

fun pg_step :: "store_config \<Rightarrow> quota_db \<Rightarrow> quota_op \<Rightarrow> quota_db" where
  "pg_step cfg db (Try_acquire lock now snow new_id rq) = snd (pg_try_acquire cfg lock snow new_id rq db)"
| "pg_step cfg db (Release pid) = pg_release pid db"
| "pg_step cfg db (Renew now pid) = snd (pg_renew cfg now pid db)"
| "pg_step cfg db (Finish now pid outcome evidence reason) =
    snd (pg_finish now pid outcome evidence reason db)"
| "pg_step cfg db (Release_uncertain now pid evidence reason operator) =
    snd (pg_release_uncertain now pid evidence reason operator db)"
| "pg_step cfg db (Maintain now escalate_seconds) = snd (pg_maintain now escalate_seconds db)"
| "pg_step cfg db (Snapshot now) = snd (pg_snapshot now db)"
| "pg_step cfg db (Active_counts now) = snd (pg_active_counts now db)"

section \<open>Operations that agree with the SQLite store on every table\<close>

lemma pg_isolate: "(\<lambda>p. p\<lparr>p_state := Uncertain, p_uncertain_since :=
    (case p_uncertain_since p of None \<Rightarrow> Some t | Some u \<Rightarrow> Some u)\<rparr>) = isolate t"
  by (simp add: isolate_def fun_eq_iff)

lemma pg_release_eq: "pg_release pid db = sq_release pid db"
  by (simp add: pg_release_def sq_release_def)

lemma pg_renew_eq: "pg_renew cfg now pid db = sq_renew cfg now pid db"
  by (simp add: pg_renew_def sq_renew_def Let_def)

lemma pg_finish_eq:
  "pg_finish now pid outcome evidence reason db = sq_finish now pid outcome evidence reason db"
  by (simp add: pg_finish_def sq_finish_def isolate_def Let_def split: option.splits)

lemma pg_release_uncertain_eq:
  "pg_release_uncertain now pid evidence reason operator db =
    sq_release_uncertain now pid evidence reason operator db"
proof (cases "fetchone (\<lambda>p. p_id p = pid) (permits db)")
  case None
  then show ?thesis by (simp add: pg_release_uncertain_def sq_release_uncertain_def Let_def)
next
  case (Some row)
  have "0 < rowcount (\<lambda>p. p_id p = pid \<and> p_state p = Uncertain) (permits db)"
    if "p_state row = Uncertain"
    using fetchone_SomeD [OF Some] that by (auto simp: rowcount_pos_iff)
  with Some show ?thesis by (auto simp: pg_release_uncertain_def sq_release_uncertain_def Let_def)
qed

lemma pg_reap_keeps: "keeps_load db (snd (pg_reap_expired snow db))"
  unfolding pg_reap_expired_def pg_isolate
  by (rule keeps_load_update [where P = "pg_expired snow" and f = "isolate snow"])
     (auto simp: pg_expired_def isolate_advances isolate_ok)

lemma pg_maintain_keeps: "keeps_load db (snd (pg_maintain now esc db))"
proof -
  let ?db1 = "snd (pg_reap_expired now db)"
  let ?P = "pg_escalates now (max 60 esc)"
  have "keeps_load ?db1 (?db1\<lparr>permits := update_where ?P (\<lambda>p. p\<lparr>p_escalated_at := Some now\<rparr>) (permits ?db1)\<rparr>)"
    by (rule keeps_load_update) (auto simp: row_advances_def permit_ok_def pg_escalates_def)
  with pg_reap_keeps [of db now] show ?thesis
    by (auto simp: pg_maintain_def Let_def pg_reap_expired_def elim: keeps_load_trans)
qed

lemma pg_try_acquire_cases:
  assumes "pg_try_acquire cfg lock snow new_id rq db = (out, db')"
  obtains "\<forall>i. out \<noteq> Inr (Some i)" "keeps_load db db'"
  | "out = Inr (Some new_id)" "admits rq new_id (snd (pg_reap_expired snow db)) db'"
      "\<not> escalated (snd (pg_reap_expired snow db)) (r_resource rq)"
proof (cases lock)
  case Lock_granted
  let ?db1 = "snd (pg_reap_expired snow db)"
  show ?thesis
  proof (cases "out = Inr (Some new_id)")
    case True
    then have "admits rq new_id ?db1 db'" "\<not> escalated ?db1 (r_resource rq)"
      using assms Lock_granted
      by (auto simp: pg_try_acquire_def Let_def admits_def escalated_def split: if_splits)
    with True that(2) show ?thesis by blast
  next
    case False
    then have "\<forall>i. out \<noteq> Inr (Some i)" "db' = db \<or> db' = ?db1"
      using assms Lock_granted by (auto simp: pg_try_acquire_def Let_def split: if_splits)
    then show ?thesis using that(1) pg_reap_keeps keeps_load_refl by metis
  qed
qed (use assms that(1) in \<open>auto simp: pg_try_acquire_def\<close>)

lemma pg_step_ok: "step_ok e db (pg_step cfg db e)"
proof (cases e)
  case (Try_acquire lock now snow new_id rq)
  obtain out db' where res: "pg_try_acquire cfg lock snow new_id rq db = (out, db')"
    by fastforce
  then show ?thesis
    using pg_reap_keeps [of db snow] res
    by (cases rule: pg_try_acquire_cases) (auto simp: Try_acquire step_ok_def)
qed (use sq_keeps pg_reap_keeps pg_maintain_keeps in
      \<open>auto simp: step_ok_def pg_snapshot_def pg_active_counts_def Let_def pg_release_eq pg_renew_eq
        pg_finish_eq pg_release_uncertain_eq\<close>)

interpretation pg: permit_tables "pg_step cfg" for cfg
  by unfold_locales (rule pg_step_ok)

section \<open>The two stores on whole-second clocks\<close>

definition whole_second :: "time \<Rightarrow> bool" where
  "whole_second t \<longleftrightarrow> t mod 1000000 = 0"

definition whole_second_row :: "permit_row \<Rightarrow> bool" where
  "whole_second_row p \<longleftrightarrow> whole_second (p_expires_at p)
     \<and> (case p_uncertain_since p of None \<Rightarrow> True | Some t \<Rightarrow> whole_second t)"

definition whole_second_rows :: "permit_row list \<Rightarrow> bool" where
  "whole_second_rows ps \<longleftrightarrow> (\<forall>p \<in> set ps. whole_second_row p)"

abbreviation whole_second_db :: "quota_db \<Rightarrow> bool" where
  "whole_second_db db \<equiv> whole_second_rows (permits db)"

fun whole_second_op :: "quota_op \<Rightarrow> bool" where
  "whole_second_op (Try_acquire lock now now_reap pid rq) \<longleftrightarrow> whole_second now \<and> now_reap = now"
| "whole_second_op (Renew now pid) \<longleftrightarrow> whole_second now"
| "whole_second_op (Finish now pid outcome evidence reason) \<longleftrightarrow> whole_second now"
| "whole_second_op (Maintain now esc) \<longleftrightarrow> whole_second now"
| "whole_second_op (Snapshot now) \<longleftrightarrow> whole_second now"
| "whole_second_op (Active_counts now) \<longleftrightarrow> whole_second now"
| "whole_second_op _ \<longleftrightarrow> True"

lemma whole_second_seconds [simp]: "whole_second (seconds n)"
  by (simp add: whole_second_def seconds_def)

lemma whole_second_add [simp]: "whole_second a \<Longrightarrow> whole_second (a + seconds n)"
  by (simp add: whole_second_def seconds_def)

lemma whole_second_diff [simp]: "whole_second a \<Longrightarrow> whole_second (a - seconds n)"
  by (simp add: whole_second_def seconds_def mod_diff_eq [symmetric])

lemma sql_datetime_less_iff:
  "whole_second a \<Longrightarrow> whole_second b \<Longrightarrow> sql_datetime a < sql_datetime b \<longleftrightarrow> a < b"
  by (auto simp: sql_datetime_def whole_second_def mod_eq_0_iff_dvd elim!: dvdE)

lemma expired_eq_on_seconds:
  "whole_second_db db \<Longrightarrow> whole_second now \<Longrightarrow> p \<in> set (permits db) \<Longrightarrow> pg_expired now p = sq_expired now p"
  by (auto simp: whole_second_rows_def whole_second_row_def pg_expired_def sq_expired_def
      sql_datetime_less_iff)

lemma update_where_cong:
  "(\<And>r. r \<in> set rows \<Longrightarrow> P r = Q r) \<Longrightarrow> update_where P f rows = update_where Q f rows"
  by (induction rows) auto

lemma rowcount_cong: "(\<And>r. r \<in> set rows \<Longrightarrow> P r = Q r) \<Longrightarrow> rowcount P rows = rowcount Q rows"
  by (induction rows) auto

lemma reap_eq_on_seconds:
  assumes "whole_second_db db" "whole_second now"
  shows "pg_reap_expired now db = sq_reap_expired now db"
  unfolding pg_reap_expired_def sq_reap_expired_def pg_isolate
  using update_where_cong [of "permits db" "pg_expired now" "sq_expired now" "isolate now"]
    rowcount_cong [of "permits db" "pg_expired now" "sq_expired now"] expired_eq_on_seconds [OF assms]
  by simp

lemma whole_second_rows_update:
  assumes "whole_second_rows ps" "\<And>p. whole_second_row p \<Longrightarrow> whole_second_row (f p)"
  shows "whole_second_rows (update_where P f ps)"
  using assms by (auto simp: whole_second_rows_def set_update_where)

lemma whole_second_isolate:
  "whole_second now \<Longrightarrow> whole_second_row p \<Longrightarrow> whole_second_row (isolate now p)"
  by (auto simp: whole_second_row_def isolate_def split: option.splits)

lemma whole_second_reap:
  assumes "whole_second_db db" "whole_second now"
  shows "whole_second_db (snd (sq_reap_expired now db))"
  using assms by (auto simp: sq_reap_expired_def intro!: whole_second_rows_update whole_second_isolate)

lemma maintain_eq_on_seconds:
  assumes "whole_second_db db" "whole_second now"
  shows "pg_maintain now esc db = sq_maintain now esc db"
proof -
  let ?db1 = "snd (sq_reap_expired now db)"
  have eq: "pg_escalates now (max 60 esc) p = sq_escalates now (max 60 esc) p"
    if "p \<in> set (permits ?db1)" for p
    using whole_second_reap [OF assms] that assms(2)
    by (auto simp: whole_second_rows_def whole_second_row_def pg_escalates_def sq_escalates_def sql_datetime_less_iff
        split: option.splits)
  show ?thesis
    using update_where_cong [of "permits ?db1", OF eq] rowcount_cong [of "permits ?db1", OF eq]
    by (simp add: pg_maintain_def sq_maintain_def Let_def reap_eq_on_seconds [OF assms] split_beta)
qed

lemma try_acquire_eq_on_seconds:
  assumes "whole_second_db db" "whole_second now"
  shows "pg_try_acquire cfg lock now new_id rq db = sq_try_acquire cfg lock now now new_id rq db"
  unfolding pg_try_acquire_def sq_try_acquire_def reap_eq_on_seconds [OF assms] Let_def
    active_weight_def background_weight_def
  by (simp cong: if_cong split: lock_outcome.split)

lemma step_eq_on_seconds:
  assumes "whole_second_db db" "whole_second_op e"
  shows "pg_step cfg db e = sq_step cfg db e"
  using assms
  by (cases e)
     (auto simp: pg_release_eq pg_renew_eq pg_finish_eq pg_release_uncertain_eq
        maintain_eq_on_seconds try_acquire_eq_on_seconds pg_snapshot_def sq_snapshot_def
        pg_active_counts_def sq_active_counts_def Let_def reap_eq_on_seconds)

lemma whole_second_step:
  assumes "whole_second_db db" "whole_second_op e"
  shows "whole_second_db (sq_step cfg db e)"
proof (cases e)
  case (Try_acquire lock now now_reap new_id rq)
  then have "whole_second now" "now_reap = now" using assms(2) by auto
  with whole_second_reap [OF assms(1)] assms(1) show ?thesis
    by (auto simp: Try_acquire sq_try_acquire_def Let_def whole_second_rows_def
        split: lock_outcome.split) (simp_all add: whole_second_row_def)
next
  case (Release pid)
  then show ?thesis
    using assms(1) by (auto simp: sq_release_def whole_second_row_def intro!: whole_second_rows_update)
next
  case (Renew now pid)
  then show ?thesis
    using assms by (auto simp: sq_renew_def Let_def whole_second_row_def intro!: whole_second_rows_update)
next
  case (Finish now pid outcome evidence reason)
  have iso: "whole_second_rows (update_where P (\<lambda>p. isolate now p\<lparr>p_recovery_reason := r\<rparr>) (permits db))" for P r
    using assms Finish whole_second_isolate [of now]
    by (auto simp: whole_second_row_def intro!: whole_second_rows_update)
  have rel: "whole_second_rows (update_where P
      (\<lambda>p. p\<lparr>p_state := st, p_recovery_reason := r\<rparr>) (permits db))" for P st r
    using assms(1) by (auto simp: whole_second_row_def intro!: whole_second_rows_update)
  show ?thesis
    using assms(1) Finish by (simp add: sq_finish_def Let_def iso rel split: option.split)
next
  case (Release_uncertain now pid evidence reason operator)
  then show ?thesis
    using assms(1)
    by (auto simp: sq_release_uncertain_def Let_def whole_second_row_def split: option.split
        intro!: whole_second_rows_update)
next
  case (Maintain now esc)
  then have "whole_second_db (snd (sq_reap_expired now db))"
    using whole_second_reap assms by simp
  then show ?thesis
    by (auto simp: Maintain sq_maintain_def Let_def split_beta whole_second_row_def
        intro!: whole_second_rows_update)
qed (use whole_second_reap assms in \<open>auto simp: sq_snapshot_def sq_active_counts_def Let_def\<close>)

end
