(* ===== verification/Quota_Properties.thy ===== *)
theory Quota_Properties
  imports Quota_Postgres
begin

text \<open>
  What the two deployment quota stores guarantee, for any interleaving of the transactions of the
  processes that share them, and where they fall short of what their comments say.
\<close>

section \<open>Auxiliary definitions\<close>

text \<open>Weight held by permits that may still be running downstream: active or isolated.\<close>

definition live_weight :: "quota_db \<Rightarrow> string \<Rightarrow> int" where
  "live_weight db res = sql_sum p_weight (\<lambda>p. p_resource p = res \<and> permit_live p) (permits db)"

text \<open>The operations that may end a given permit.\<close>

fun ends :: "string \<Rightarrow> quota_op \<Rightarrow> bool" where
  "ends pid (Release q) \<longleftrightarrow> q = pid"
| "ends pid (Finish now q outcome evidence reason) \<longleftrightarrow> q = pid"
| "ends pid (Release_uncertain now q evidence reason operator) \<longleftrightarrow> q = pid"
| "ends pid _ \<longleftrightarrow> False"

definition demo_request :: "string \<Rightarrow> bool \<Rightarrow> int \<Rightarrow> int \<Rightarrow> acquire_request" where
  "demo_request res interact cap reserved = \<lparr>r_resource = res, r_capacity = cap, r_reserved = reserved,
     r_interactive = interact, r_owner_id = ''worker'', r_attempt_id = ''1''\<rparr>"

definition demo_config :: store_config where
  "demo_config = sq_config 300 None '''' False"

lemma empty_weights [simp]:
  "active_weight empty_quota_db res = 0" "background_weight empty_quota_db res = 0"
  by (simp_all add: active_weight_def background_weight_def empty_quota_db_def)

lemma capacity_nonneg [simp]: "0 \<le> capacity_of limits res" "0 \<le> background_capacity_of limits res"
  by (simp_all add: capacity_of_def background_capacity_of_def)

section \<open>Capacity\<close>

lemma sq_admission_exact_aux:
  assumes "new_id \<notin> p_id ` set (permits db)"
  shows "fst (sq_try_acquire cfg Lock_granted now now_reap new_id rq db) = Inr (Some new_id) \<longleftrightarrow>
    \<not> escalated (snd (sq_reap_expired now_reap db)) (r_resource rq)
    \<and> active_weight (snd (sq_reap_expired now_reap db)) (r_resource rq) < r_capacity rq
    \<and> (r_interactive rq \<or> background_weight (snd (sq_reap_expired now_reap db)) (r_resource rq)
          < max 0 (r_capacity rq - r_reserved rq))"
proof -
  have "map p_id (permits (snd (sq_reap_expired now_reap db))) = map p_id (permits db)"
    by (simp add: sq_reap_expired_def map_update_where_same)
  then have "p_id ` set (permits (snd (sq_reap_expired now_reap db))) = p_id ` set (permits db)"
    by (metis set_map)
  then have "\<not> (\<exists>p \<in> set (permits (snd (sq_reap_expired now_reap db))). p_id p = new_id)"
    using assms by (metis imageI)
  then show ?thesis
    by (auto simp: sq_try_acquire_def Let_def escalated_def active_weight_def background_weight_def)
qed

text \<open>C1. The deployment budget is never exceeded: whatever sequence of transactions the processes
  of a deployment run against a fresh SQLite quota database, the active weight of a resource stays
  within its capacity and the active background weight within capacity minus the interactive
  reserve.\<close>

theorem sq_run_within_capacity:
  assumes "\<forall>e \<in> set es. uses_quota limits e"
  shows "active_weight (foldl (sq_step cfg) empty_quota_db es) res \<le> capacity_of limits res
    \<and> background_weight (foldl (sq_step cfg) empty_quota_db es) res \<le> background_capacity_of limits res"
  using sq.run_load_bounded [OF quota_inv_empty assms] sq.run_bload_bounded [OF quota_inv_empty assms]
  by simp

theorem sq_run_within_capacity_witness:
  "let es = [Try_acquire Lock_granted 0 0 ''p1'' (demo_request ''llm'' False 2 1),
             Try_acquire Lock_granted 5 5 ''p2'' (demo_request ''llm'' False 2 1),
             Try_acquire Lock_granted 9 9 ''p3'' (demo_request ''llm'' True 2 1)]
   in active_weight (foldl (sq_step demo_config) empty_quota_db es) ''llm'' \<le> 2
      \<and> background_weight (foldl (sq_step demo_config) empty_quota_db es) ''llm'' \<le> 1"
  using sq_run_within_capacity [where limits = "\<lambda>_. (2, 1)" and res = "''llm''" and cfg = demo_config and
      es = "[Try_acquire Lock_granted 0 0 ''p1'' (demo_request ''llm'' False 2 1),
             Try_acquire Lock_granted 5 5 ''p2'' (demo_request ''llm'' False 2 1),
             Try_acquire Lock_granted 9 9 ''p3'' (demo_request ''llm'' True 2 1)]"]
  by (simp add: demo_request_def capacity_of_def background_capacity_of_def)

text \<open>The same bound for the PostgreSQL store.\<close>

theorem pg_run_within_capacity:
  assumes "\<forall>e \<in> set es. uses_quota limits e"
  shows "active_weight (foldl (pg_step cfg) empty_quota_db es) res \<le> capacity_of limits res
    \<and> background_weight (foldl (pg_step cfg) empty_quota_db es) res \<le> background_capacity_of limits res"
  using pg.run_load_bounded [OF quota_inv_empty assms] pg.run_bload_bounded [OF quota_inv_empty assms]
  by simp

theorem pg_run_within_capacity_witness:
  "let es = [Try_acquire Lock_granted 0 0 ''p1'' (demo_request ''ocr'' True 1 0),
             Try_acquire Lock_granted 5 5 ''p2'' (demo_request ''ocr'' True 1 0)]
   in active_weight (foldl (pg_step demo_config) empty_quota_db es) ''ocr'' \<le> 1"
  using pg_run_within_capacity [where limits = "\<lambda>_. (1, 0)" and res = "''ocr''" and cfg = demo_config and
      es = "[Try_acquire Lock_granted 0 0 ''p1'' (demo_request ''ocr'' True 1 0),
             Try_acquire Lock_granted 5 5 ''p2'' (demo_request ''ocr'' True 1 0)]"]
  by (simp add: demo_request_def capacity_of_def)

text \<open>Admission is exact: a request that obtains the write lock and carries a fresh identifier
  is admitted if and only if, after expired permits are isolated, the resource has no escalated
  permit, its active weight is below capacity, and a background request also finds the background
  weight below its share.\<close>

theorem sq_admission_exact:
  assumes "new_id \<notin> p_id ` set (permits db)"
  shows "fst (sq_try_acquire cfg Lock_granted now now_reap new_id rq db) = Inr (Some new_id) \<longleftrightarrow>
    (let db1 = snd (sq_reap_expired now_reap db) in
       \<not> escalated db1 (r_resource rq)
       \<and> active_weight db1 (r_resource rq) < r_capacity rq
       \<and> (r_interactive rq \<or> background_weight db1 (r_resource rq) < max 0 (r_capacity rq - r_reserved rq)))"
  using sq_admission_exact_aux [OF assms] by (simp add: Let_def)

theorem sq_admission_exact_witness:
  "fst (sq_try_acquire demo_config Lock_granted 0 0 ''p1'' (demo_request ''llm'' False 4 2) empty_quota_db)
     = Inr (Some ''p1'')"
  using sq_admission_exact [of "''p1''" empty_quota_db demo_config 0 0 "demo_request ''llm'' False 4 2"]
  by (simp add: empty_quota_db_def sq_reap_expired_def escalated_def active_weight_def
      background_weight_def demo_request_def)

section \<open>Isolation and escalation\<close>

lemma reap_preserves_uncertain:
  "p \<in> set (permits db) \<Longrightarrow> p_state p \<noteq> Active \<Longrightarrow> p \<in> set (permits (snd (sq_reap_expired now db)))"
  by (auto simp: sq_reap_expired_def sq_expired_def intro: update_where_untouched)

lemma sq_step_keeps_escalated:
  assumes "p \<in> set (permits db)" "p_state p = Uncertain" "p_escalated_at p \<noteq> None" "\<not> ends (p_id p) e"
  shows "p \<in> set (permits (sq_step cfg db e))"
proof (cases e)
  case (Try_acquire lock now now_reap new_id rq)
  then show ?thesis
    using assms reap_preserves_uncertain [of p db now_reap]
    by (auto simp: sq_try_acquire_def Let_def split: lock_outcome.split)
next
  case (Finish now pid outcome evidence reason)
  then show ?thesis
    using assms by (auto simp: sq_finish_def Let_def update_where_untouched split: option.split)
next
  case (Release_uncertain now pid evidence reason operator)
  then show ?thesis
    using assms by (auto simp: sq_release_uncertain_def Let_def update_where_untouched split: option.split)
next
  case (Maintain now esc)
  then show ?thesis
    using assms reap_preserves_uncertain [of p db now]
    by (auto simp: sq_maintain_def Let_def split_beta sq_escalates_def intro!: update_where_untouched)
qed (use assms reap_preserves_uncertain in
      \<open>auto simp: sq_release_def sq_renew_def sq_snapshot_def sq_active_counts_def Let_def
        intro: update_where_untouched\<close>)

lemma sq_run_keeps_escalated:
  assumes "p \<in> set (permits db)" "p_state p = Uncertain" "p_escalated_at p \<noteq> None"
    and "\<forall>e \<in> set es. \<not> ends (p_id p) e"
  shows "p \<in> set (permits (foldl (sq_step cfg) db es))"
  using assms(1,4)
proof (induction es arbitrary: db)
  case (Cons e es)
  then show ?case using sq_step_keeps_escalated [OF _ assms(2,3)] by simp
qed simp


definition demo_escalated :: permit_row where
  "demo_escalated = \<lparr>p_id = ''p1'', p_resource = ''ocr'', p_interactive = True, p_owner_id = ''w'',
     p_attempt_id = '''', p_weight = 1, p_state = Uncertain, p_expires_at = 0, p_created_at = 0,
     p_started_at = Some 0, p_hard_deadline_at = None, p_provider_request_id = '''',
     p_uncertain_since = Some 0, p_escalated_at = Some (seconds 1000), p_recovery_reason = ''''\<rparr>"


section \<open>Evidence-backed release\<close>



text \<open>Finishing a permit is refused without a recognized end evidence, and confirmations are
  idempotent: \<open>finish\<close> with outcome \<open>completed\<close> and unrecognized evidence raises and changes
  nothing; with recognized evidence it releases a live permit, and every repetition answers
  \<open>True\<close> without touching the tables.\<close>

theorem sq_finish_completed:
  assumes "quota_inv db" "lookup_permit db pid = Some p" "p_state p \<noteq> Released"
  shows "(py_strip evidence \<notin> set VALID_RELEASE_EVIDENCE \<longrightarrow>
      sq_finish now pid ''completed'' evidence reason db = (Inl (Unrecognized_evidence (py_strip evidence)), db))
    \<and> (py_strip evidence \<in> set VALID_RELEASE_EVIDENCE \<longrightarrow>
      (\<exists>db'. sq_finish now pid ''completed'' evidence reason db = (Inr True, db')
        \<and> (\<exists>p'. lookup_permit db' pid = Some p' \<and> p_state p' = Released)
        \<and> sq_finish now' pid ''completed'' evidence reason' db' = (Inr True, db')))"
proof -
  have completed: "py_lower (py_strip ''completed'') = ''completed''"
    by (simp add: py_strip_def py_lower_def py_lower_char_def py_isspace_def Let_def)
  have p: "fetchone (\<lambda>p. p_id p = pid) (permits db) = Some p"
    using assms(2) by (simp add: lookup_permit_def)
  have live: "p_state p \<in> {Active, Uncertain}" using assms(3) by (cases "p_state p") auto
  let ?f = "\<lambda>p. p\<lparr>p_state := Released, p_recovery_reason := clip 500 reason\<rparr>"
  let ?P = "\<lambda>p. p_id p = pid \<and> p_state p \<in> {Active, Uncertain}"
  have look: "fetchone (\<lambda>p. p_id p = pid) (update_where ?P ?f (permits db)) = Some (?f p)"
    using p fetchone_SomeD [OF p] live by (simp add: fetchone_update_where)
  show ?thesis
    using p look assms(3)
    by (auto simp: sq_finish_def Let_def completed lookup_permit_def)
qed

theorem sq_finish_completed_witness:
  "\<exists>db'. sq_finish 7 ''p1'' ''completed'' ''downstream_completed'' ''ok''
       (empty_quota_db\<lparr>permits := [demo_escalated]\<rparr>) = (Inr True, db')
     \<and> (\<exists>p'. lookup_permit db' ''p1'' = Some p' \<and> p_state p' = Released)
     \<and> sq_finish 8 ''p1'' ''completed'' ''downstream_completed'' ''again'' db' = (Inr True, db')"
proof -
  let ?db = "empty_quota_db\<lparr>permits := [demo_escalated]\<rparr>"
  have h: "quota_inv ?db" "lookup_permit ?db ''p1'' = Some demo_escalated" "p_state demo_escalated \<noteq> Released"
    by (simp_all add: quota_inv_def permit_ok_def demo_escalated_def lookup_permit_def)
  have "py_strip ''downstream_completed'' \<in> set VALID_RELEASE_EVIDENCE"
    by (simp add: py_strip_def py_isspace_def Let_def VALID_RELEASE_EVIDENCE_def)
  then show ?thesis using sq_finish_completed [OF h, of "''downstream_completed''" 7 "''ok''" 8 "''again''"]
    by blast
qed

text \<open>The plain \<open>release\<close> that every permit's context manager runs frees an isolated permit
  without evidence: it moves an uncertain permit to released, leaves no audit row, and no later
  operation can isolate the permit again.\<close>

theorem sq_release_bypasses_evidence:
  assumes "quota_inv db" "lookup_permit db pid = Some p" "p_state p = Uncertain"
  shows "lookup_permit (sq_release pid db) pid = Some (p\<lparr>p_state := Released\<rparr>)
    \<and> audit_log (sq_release pid db) = audit_log db
    \<and> (\<exists>p' \<in> set (permits (foldl (sq_step cfg) (sq_release pid db) es)). p_id p' = pid \<and> p_state p' = Released)"
proof -
  have p: "fetchone (\<lambda>p. p_id p = pid) (permits db) = Some p"
    using assms(2) by (simp add: lookup_permit_def)
  have look: "lookup_permit (sq_release pid db) pid = Some (p\<lparr>p_state := Released\<rparr>)"
    using p fetchone_SomeD [OF p] assms(3)
    by (simp add: lookup_permit_def sq_release_def fetchone_update_where)
  then have mem: "p\<lparr>p_state := Released\<rparr> \<in> set (permits (sq_release pid db))"
    using fetchone_SomeD by (fastforce simp: lookup_permit_def)
  obtain p' where "p' \<in> set (permits (foldl (sq_step cfg) (sq_release pid db) es))"
      "p_id p' = p_id (p\<lparr>p_state := Released\<rparr>)" "p_state p' = Released"
    by (rule sq.run_released_stays [OF mem]) simp_all
  with look fetchone_SomeD [OF p] show ?thesis by (auto simp: sq_release_def)
qed

theorem sq_release_bypasses_evidence_witness:
  "lookup_permit (sq_release ''p1'' (empty_quota_db\<lparr>permits := [demo_escalated]\<rparr>)) ''p1''
     = Some (demo_escalated\<lparr>p_state := Released\<rparr>)"
proof -
  let ?db = "empty_quota_db\<lparr>permits := [demo_escalated]\<rparr>"
  have h: "quota_inv ?db" "lookup_permit ?db ''p1'' = Some demo_escalated" "p_state demo_escalated = Uncertain"
    by (simp_all add: quota_inv_def permit_ok_def demo_escalated_def lookup_permit_def)
  show ?thesis using sq_release_bypasses_evidence [OF h, of demo_config "[]"] by blast
qed

section \<open>Expired permits and the capacity they held\<close>

lemma live_weight_reap: "live_weight (snd (sq_reap_expired now db)) res = live_weight db res"
  unfolding live_weight_def sq_reap_expired_def
  by simp (rule sql_sum_update_where_eq, auto simp: sq_expired_def permit_live_def)

lemma escalated_reap:
  assumes "quota_inv db"
  shows "escalated (snd (sq_reap_expired now db)) res = escalated db res"
proof -
  have fresh: "p_escalated_at p = None" if "p \<in> set (permits db)" "p_state p = Active" for p
    using assms that by (auto simp: quota_inv_def permit_ok_def)
  show ?thesis
  proof
    assume "escalated (snd (sq_reap_expired now db)) res"
    then show "escalated db res"
      using fresh by (auto simp: escalated_def sq_reap_expired_def set_update_where sq_expired_def
          split: if_splits)
  next
    assume "escalated db res"
    then show "escalated (snd (sq_reap_expired now db)) res"
      using reap_preserves_uncertain [of _ db now] by (force simp: escalated_def)
  qed
qed

text \<open>Isolation does not hold capacity: when every active permit of a full resource has expired,
  the next admission succeeds although all of them may still be running downstream, so the weight
  held by live permits exceeds the capacity.\<close>

theorem sq_isolated_permits_free_capacity:
  assumes "quota_inv db" "\<not> escalated db (r_resource rq)" "new_id \<notin> p_id ` set (permits db)"
    and "\<forall>p \<in> set (permits db). p_resource p = r_resource rq \<and> p_state p = Active \<longrightarrow> sq_expired now p"
    and "live_weight db (r_resource rq) = r_capacity rq" "0 < r_capacity rq" "r_interactive rq"
  shows "\<exists>db'. sq_try_acquire cfg Lock_granted now now new_id rq db = (Inr (Some new_id), db')
    \<and> live_weight db' (r_resource rq) = r_capacity rq + 1"
proof -
  let ?db1 = "snd (sq_reap_expired now db)"
  have "active_weight ?db1 (r_resource rq) = 0"
  proof -
    have "\<not> (p_resource p = r_resource rq \<and> p_state p = Active)" if "p \<in> set (permits ?db1)" for p
      using that assms(4) by (auto simp: sq_reap_expired_def set_update_where split: if_splits)
    then show ?thesis unfolding active_weight_def by (rule sql_sum_none)
  qed
  then have fst: "fst (sq_try_acquire cfg Lock_granted now now new_id rq db) = Inr (Some new_id)"
    using sq_admission_exact_aux [OF assms(3), of cfg now now rq] assms(2,6,7)
      escalated_reap [OF assms(1), of now "r_resource rq"] by simp
  obtain out db' where run: "sq_try_acquire cfg Lock_granted now now new_id rq db = (out, db')"
    by fastforce
  with fst have "admits rq new_id ?db1 db'"
    by (cases rule: sq_try_acquire_cases [OF run]) auto
  then have "live_weight db' (r_resource rq) = live_weight ?db1 (r_resource rq) + 1"
    by (auto simp: admits_def live_weight_def sql_sum_append permit_live_def)
  with run fst show ?thesis by (auto simp: live_weight_reap assms(5))
qed

definition demo_expired :: permit_row where
  "demo_expired = demo_escalated\<lparr>p_state := Active, p_uncertain_since := None, p_escalated_at := None\<rparr>"

theorem sq_isolated_permits_free_capacity_witness:
  "\<exists>db'. sq_try_acquire demo_config Lock_granted (seconds 5) (seconds 5) ''p2'' (demo_request ''ocr'' True 1 0)
       (empty_quota_db\<lparr>permits := [demo_expired]\<rparr>) = (Inr (Some ''p2''), db')
     \<and> live_weight db' ''ocr'' = 2"
proof -
  let ?db = "empty_quota_db\<lparr>permits := [demo_expired]\<rparr>"
  let ?rq = "demo_request ''ocr'' True 1 0"
  have "\<exists>db'. sq_try_acquire demo_config Lock_granted (seconds 5) (seconds 5) ''p2'' ?rq ?db = (Inr (Some ''p2''), db')
     \<and> live_weight db' (r_resource ?rq) = r_capacity ?rq + 1"
    by (rule sq_isolated_permits_free_capacity)
       (simp_all add: quota_inv_def permit_ok_def demo_expired_def demo_escalated_def demo_request_def
         escalated_def live_weight_def permit_live_def sq_expired_def sql_datetime_def seconds_def)
  then show ?thesis by (simp add: demo_request_def)
qed

section \<open>The two stores\<close>

text \<open>C4. The two stores are interchangeable on whole-second clocks: any run of operations leaves the
  same tables in the SQLite and in the PostgreSQL store.\<close>

theorem sqlite_postgres_runs_agree:
  assumes "\<forall>e \<in> set es. whole_second_op e" "whole_second_db db"
  shows "foldl (pg_step cfg) db es = foldl (sq_step cfg) db es"
  using assms
proof (induction es arbitrary: db)
  case (Cons e es)
  then have "pg_step cfg db e = sq_step cfg db e" "whole_second_db (sq_step cfg db e)"
    using step_eq_on_seconds whole_second_step by auto
  with Cons show ?case by simp
qed simp

theorem sqlite_postgres_runs_agree_witness:
  "let es = [Try_acquire Lock_granted (seconds 3) (seconds 3) ''p1'' (demo_request ''llm'' True 4 2),
             Maintain (seconds 900) 60, Release ''p1'']
   in foldl (pg_step demo_config) empty_quota_db es = foldl (sq_step demo_config) empty_quota_db es"
  using sqlite_postgres_runs_agree [of "[Try_acquire Lock_granted (seconds 3) (seconds 3) ''p1'' (demo_request ''llm'' True 4 2),
             Maintain (seconds 900) 60, Release ''p1'']" empty_quota_db demo_config]
  by (simp add: empty_quota_db_def whole_second_rows_def)

text \<open>On other clocks SQLite reaps a subset of what PostgreSQL reaps and lags by less than one
  second: a permit SQLite isolates has expired, and one that expired at least a second ago is
  isolated by SQLite too.\<close>

theorem sqlite_reap_lag:
  "(sq_expired now p \<longrightarrow> pg_expired now p)
   \<and> (pg_expired (now - seconds 1) p \<longrightarrow> sq_expired now p)"
proof -
  have "sq_expired now p" if "pg_expired (now - seconds 1) p"
  proof -
    have "p_expires_at p + seconds 1 \<le> now" using that by (simp add: pg_expired_def)
    then show ?thesis
      using that sql_datetime_whole_second_gap by (simp add: pg_expired_def sq_expired_def)
  qed
  then show ?thesis by (auto simp: sq_expired_def pg_expired_def dest: sql_datetime_lessD)
qed

theorem sqlite_reap_lag_witness: "sq_expired (seconds 3) demo_expired \<and> pg_expired (seconds 3) demo_expired"
  using sqlite_reap_lag [of "seconds 3" demo_expired]
  by (simp add: sq_expired_def pg_expired_def demo_expired_def demo_escalated_def sql_datetime_def seconds_def)

section \<open>Bounded retry\<close>

text \<open>The busy retry always returns: if, within the attempts the environment allows, some attempt
  is not a busy error or is observed at or after the deadline, the loop returns; and what it returns
  is the result of one of the attempts.\<close>

theorem sq_busy_retry_returns:
  assumes "\<exists>(result, clock) \<in> set attempts. result \<noteq> Inl Db_busy \<or> deadline \<le> clock"
  shows "\<exists>result. sq_run_with_busy_retry deadline attempts = Some result \<and> result \<in> fst ` set attempts"
  using assms
proof (induction attempts)
  case (Cons a attempts)
  obtain result clock where a: "a = (result, clock)" by fastforce
  with Cons show ?case by (cases result) force+
qed simp

theorem sq_busy_retry_returns_witness:
  "\<exists>result. sq_run_with_busy_retry 10 [(Inl Db_busy, 3), (Inl Db_busy, 7), (Inl Db_busy, 12 :: int)] = Some result
     \<and> result \<in> fst ` set [(Inl Db_busy :: gov_error + nat, 3), (Inl Db_busy, 7), (Inl Db_busy, 12 :: int)]"
  by (rule sq_busy_retry_returns) simp

section \<open>Identity and stored quotas\<close>

text \<open>A provisioned database is bound to its deployment: after a process created it, another
  process can open it exactly when its deployment identifier is the same, with the tables untouched;
  a different quota configuration revision is not noticed, and the identity rows carry no
  \<open>updated_at\<close> entry.\<close>

theorem sq_reopen_identity:
  assumes "sq_open cfg now_text None = Inr db"
  shows "sq_open cfg' now_text' (Some db) =
      (if c_deployment_id cfg' = c_deployment_id cfg then Inr db
       else Inl (Deployment_mismatch (c_deployment_id cfg) (c_deployment_id cfg')))
    \<and> map_of (meta db) ''config_revision'' = Some (c_config_revision cfg)
    \<and> map_of (meta db) ''updated_at'' = None"
  using assms
  by (auto simp: sq_open_def sq_check_identity_def dict_get_def empty_quota_db_def SCHEMA_VERSION_def
      split: if_splits)

theorem sq_reopen_identity_witness:
  "\<exists>db. sq_open (sq_config 300 None ''rev1'' False) ''t0'' None = Inr db
     \<and> sq_open (sq_config 300 None ''rev2'' True) ''t1'' (Some db) = Inr db
     \<and> sq_open (sq_config 300 (Some ''other'') ''rev1'' False) ''t1'' (Some db)
         = Inl (Deployment_mismatch ''local'' ''other'')"
proof -
  let ?cfg = "sq_config 300 None ''rev1'' False"
  obtain db where db: "sq_open ?cfg ''t0'' None = Inr db"
    by (simp add: sq_open_def sq_check_identity_def sq_config_def empty_quota_db_def)
  have ids: "c_deployment_id ?cfg = ''local''" "c_deployment_id (sq_config 300 None ''rev2'' True) = ''local''"
    "c_deployment_id (sq_config 300 (Some ''other'') ''rev1'' False) = ''other''"
    by (simp_all add: sq_config_def py_strip_def py_isspace_def Let_def)
  show ?thesis
    using db sq_reopen_identity [OF db, of "sq_config 300 None ''rev2'' True" "''t1''"]
      sq_reopen_identity [OF db, of "sq_config 300 (Some ''other'') ''rev1'' False" "''t1''"]
    by (intro exI [of _ db]) (simp add: ids)
qed

lemma quota_limits_snoc [simp]:
  "quota_limits (rows @ [q]) = quota_limits rows @ [(q_resource q, q_capacity q, q_reserved_interactive q)]"
  by (simp add: quota_limits_def)

lemma quota_limits_None [simp]:
  "map_of (quota_limits rows) res = None \<longleftrightarrow> \<not> (\<exists>q \<in> set rows. q_resource q = res)"
  by (auto simp: quota_limits_def map_of_eq_None_iff image_iff)

lemma sq_ensure_loop_pg:
  "sq_ensure_loop cfg now defaults (quota_limits rows) rows =
    (quota_limits (pg_ensure_loop cfg now defaults rows), pg_ensure_loop cfg now defaults rows)"
proof (induction defaults arbitrary: rows)
  case (Cons d defaults)
  obtain res cap reserved where d: "d = (res, cap, reserved)" by (cases d) auto
  show ?case
    using Cons.IH [of rows]
      Cons.IH [of "rows @ [\<lparr>q_resource = res, q_capacity = max 1 cap, q_reserved_interactive = max 0 reserved,
                q_config_revision = c_config_revision cfg, q_updated_at = now\<rparr>]"]
    by (simp add: d Let_def)
qed simp

lemma ensure_quotas_eq: "sq_ensure_quotas cfg now defaults db = pg_ensure_quotas cfg now defaults db"
  by (simp add: sq_ensure_quotas_def pg_ensure_quotas_def stored_quotas_def Let_def sq_ensure_loop_pg)

lemma pg_ensure_loop_extends: "\<exists>news. pg_ensure_loop cfg now defaults rows = rows @ news"
proof (induction defaults arbitrary: rows)
  case (Cons d defaults)
  obtain res cap reserved where d: "d = (res, cap, reserved)" by (cases d) auto
  show ?case using Cons.IH by (auto simp: d Let_def) (metis append.assoc)
qed simp

text \<open>Stored quotas are authoritative: what \<open>ensure_quotas\<close> returns is exactly the quota table, in
  both stores, and a quota that one process obtained is what every later process obtains, whatever
  defaults it brings.\<close>

theorem quotas_first_writer_wins:
  assumes "sq_ensure_quotas cfg1 t1 defaults1 db = (limits1, db1)"
    and "sq_ensure_quotas cfg2 t2 defaults2 db1 = (limits2, db2)" "map_of limits1 res = Some v"
  shows "map_of limits2 res = Some v \<and> limits2 = stored_quotas db2
    \<and> pg_ensure_quotas cfg2 t2 defaults2 db1 = (limits2, db2)"
proof -
  have l1: "limits1 = stored_quotas db1" and l2: "limits2 = stored_quotas db2"
    and db2: "quotas db2 = pg_ensure_loop cfg2 t2 defaults2 (quotas db1)"
    using assms(1,2) by (auto simp: ensure_quotas_eq pg_ensure_quotas_def Let_def)
  obtain news where "quotas db2 = quotas db1 @ news"
    using pg_ensure_loop_extends [of cfg2 t2 defaults2 "quotas db1"] db2 by auto
  then have "map_of limits2 res = Some v"
    using assms(3) by (simp add: l1 l2 stored_quotas_def quota_limits_def map_add_dom_app_simps(1))
  with l2 assms(2) show ?thesis by (simp add: ensure_quotas_eq)
qed

theorem quotas_first_writer_wins_witness:
  "let db1 = snd (sq_ensure_quotas demo_config 0 [(''llm'', 4, 2)] empty_quota_db);
       limits2 = fst (sq_ensure_quotas demo_config 1 [(''llm'', 99, 0), (''ocr'', 0, 0)] db1)
   in map_of limits2 ''llm'' = Some (4, 2)"
proof -
  let ?r1 = "sq_ensure_quotas demo_config 0 [(''llm'', 4, 2)] empty_quota_db"
  let ?r2 = "sq_ensure_quotas demo_config 1 [(''llm'', 99, 0), (''ocr'', 0, 0)] (snd ?r1)"
  have "map_of (fst ?r1) ''llm'' = Some (4, 2)"
    by (simp add: sq_ensure_quotas_def stored_quotas_def quota_limits_def empty_quota_db_def)
  with prod.collapse [of ?r1, symmetric] prod.collapse [of ?r2, symmetric]
  have "map_of (fst ?r2) ''llm'' = Some (4, 2)"
    by (rule quotas_first_writer_wins [THEN conjunct1])
  then show ?thesis by (simp only: Let_def)
qed

end
