(* ===== verification/Lease_Election.thy ===== *)
theory Lease_Election
  imports Prelude Quota_Sqlite Quota_Postgres
begin

text \<open>
  Leader election by leases.  Three stores keep one row per scope with an owner, a fencing token
  and an expiry: the maintenance lease of \<open>SqliteQuotaStore\<close> and of \<open>PostgresQuotaStore\<close>
  (\<open>core/concurrency/resource_governor.py\<close>) and \<open>CoordinatorLeaseStore\<close>
  (\<open>attachments/coordinator_lease.py\<close>).  Two control loops compete for them: the governor's
  maintenance thread and \<open>AttachmentCoordinatorLoop\<close>.

  The interface \<open>lease_election\<close> states the contract of such a store over the read-out its
  \<open>snapshot\<close> gives; what candidates may conclude about a whole election (a token belongs to one
  owner, scans carry growing tokens, at most one candidate passes its renewal) is proved once there
  and interpreted for the three stores.
\<close>

section \<open>The lease table\<close>

record lease_row =
  l_scope :: string
  l_owner :: string
  l_token :: int
  l_expires :: "time option"
  l_updated :: time

type_synonym lease_table = "lease_row list"

text \<open>\<open>_lease_active\<close>: the expiry is \<open>NULL\<close> or the ISO text the stores write themselves.\<close>

definition lease_active :: "time option \<Rightarrow> time \<Rightarrow> bool" where
  "lease_active expires_at now = (case expires_at of None \<Rightarrow> False | Some expires \<Rightarrow> now < expires)"

definition lease_until :: "time \<Rightarrow> int \<Rightarrow> time" where
  "lease_until now lease_seconds = now + seconds (max 1 lease_seconds)"

section \<open>SQLite maintenance lease\<close>

definition MAINTENANCE_SCOPE :: string where
  "MAINTENANCE_SCOPE = ''governor-maintenance''"

text \<open>\<open>INSERT ... ON CONFLICT(scope) DO UPDATE\<close>, shared by the two SQLite stores.\<close>

definition upsert_lease :: "string \<Rightarrow> string \<Rightarrow> time \<Rightarrow> time \<Rightarrow> lease_table \<Rightarrow> lease_table" where
  "upsert_lease scope owner expires now tab =
     (if fetchone (\<lambda>r. l_scope r = scope) tab = None
      then tab @ [\<lparr>l_scope = scope, l_owner = owner, l_token = 0 + 1, l_expires = Some expires, l_updated = now\<rparr>]
      else update_where (\<lambda>r. l_scope r = scope)
             (\<lambda>r. r\<lparr>l_owner := owner, l_token := l_token r + 1, l_expires := Some expires, l_updated := now\<rparr>) tab)"

definition current_token :: "string \<Rightarrow> lease_table \<Rightarrow> int option" where
  "current_token scope tab = map_option l_token (fetchone (\<lambda>r. l_scope r = scope) tab)"

definition sq_try_acquire_maintenance ::
  "time \<Rightarrow> int \<Rightarrow> string \<Rightarrow> lease_table \<Rightarrow> int option \<times> lease_table" where
  "sq_try_acquire_maintenance now lease_seconds owner tab =
     (let expires = lease_until now lease_seconds;
          takeover = (let tab' = upsert_lease MAINTENANCE_SCOPE owner expires now tab
                      in (current_token MAINTENANCE_SCOPE tab', tab'))
      in case fetchone (\<lambda>r. l_scope r = MAINTENANCE_SCOPE) tab of
           Some row \<Rightarrow>
             if l_owner row = owner then
               (Some (l_token row),
                update_where (\<lambda>r. l_scope r = MAINTENANCE_SCOPE)
                  (\<lambda>r. r\<lparr>l_expires := Some expires, l_updated := now\<rparr>) tab)
             else if lease_active (l_expires row) now then (None, tab)
             else takeover
         | None \<Rightarrow> takeover)"

text \<open>The row a holder's own statement addresses.\<close>

definition held_by :: "string \<Rightarrow> string \<Rightarrow> int \<Rightarrow> lease_row \<Rightarrow> bool" where
  "held_by scope owner token r \<longleftrightarrow> l_scope r = scope \<and> l_owner r = owner \<and> l_token r = token"

definition sq_renew_maintenance ::
  "time \<Rightarrow> int \<Rightarrow> string \<Rightarrow> int \<Rightarrow> lease_table \<Rightarrow> bool \<times> lease_table" where
  "sq_renew_maintenance now lease_seconds owner token tab =
     (rowcount (held_by MAINTENANCE_SCOPE owner token) tab > 0,
      update_where (held_by MAINTENANCE_SCOPE owner token)
        (\<lambda>r. r\<lparr>l_expires := Some (lease_until now lease_seconds), l_updated := now\<rparr>) tab)"

definition sq_release_maintenance ::
  "time \<Rightarrow> string \<Rightarrow> int \<Rightarrow> lease_table \<Rightarrow> bool \<times> lease_table" where
  "sq_release_maintenance now owner token tab =
     (rowcount (held_by MAINTENANCE_SCOPE owner token) tab > 0,
      update_where (held_by MAINTENANCE_SCOPE owner token)
        (\<lambda>r. r\<lparr>l_owner := '''', l_expires := None, l_updated := now\<rparr>) tab)"

definition sq_maintenance_snapshot :: "lease_table \<Rightarrow> string \<times> int \<times> time option" where
  "sq_maintenance_snapshot tab =
     (case fetchone (\<lambda>r. l_scope r = MAINTENANCE_SCOPE) tab of
        None \<Rightarrow> ('''', 0, None)
      | Some row \<Rightarrow> (l_owner row, l_token row, l_expires row))"

section \<open>PostgreSQL maintenance lease\<close>

definition pg_try_acquire_maintenance ::
  "time \<Rightarrow> int \<Rightarrow> string \<Rightarrow> lease_table \<Rightarrow> int option \<times> lease_table" where
  "pg_try_acquire_maintenance now lease_seconds owner tab =
     (let lease = max 1 lease_seconds;
          at_scope = (\<lambda>r. l_scope r = MAINTENANCE_SCOPE);
          read = (\<lambda>tab'. (current_token MAINTENANCE_SCOPE tab', tab'))
      in case fetchone at_scope tab of
           None \<Rightarrow>
             read (tab @ [\<lparr>l_scope = MAINTENANCE_SCOPE, l_owner = owner, l_token = 1,
                           l_expires = Some (now + seconds lease), l_updated = now\<rparr>])
         | Some row \<Rightarrow>
             if l_owner row = owner then
               (Some (l_token row),
                update_where at_scope (\<lambda>r. r\<lparr>l_expires := Some (now + seconds lease), l_updated := now\<rparr>) tab)
             else if (case l_expires row of None \<Rightarrow> False | Some expires \<Rightarrow> now < expires) then (None, tab)
             else
               read (update_where at_scope
                 (\<lambda>r. r\<lparr>l_owner := owner, l_token := l_token r + 1,
                        l_expires := Some (now + seconds lease), l_updated := now\<rparr>) tab))"

definition pg_renew_maintenance ::
  "time \<Rightarrow> int \<Rightarrow> string \<Rightarrow> int \<Rightarrow> lease_table \<Rightarrow> bool \<times> lease_table" where
  "pg_renew_maintenance now lease_seconds owner token tab =
     (let lease = max 1 lease_seconds;
          mine = (\<lambda>r. l_scope r = MAINTENANCE_SCOPE \<and> l_owner r = owner \<and> l_token r = token)
      in (rowcount mine tab > 0,
          update_where mine (\<lambda>r. r\<lparr>l_expires := Some (now + seconds lease), l_updated := now\<rparr>) tab))"

definition pg_release_maintenance ::
  "time \<Rightarrow> string \<Rightarrow> int \<Rightarrow> lease_table \<Rightarrow> bool \<times> lease_table" where
  "pg_release_maintenance now owner token tab =
     (let mine = (\<lambda>r. l_scope r = MAINTENANCE_SCOPE \<and> l_owner r = owner \<and> l_token r = token)
      in (rowcount mine tab > 0,
          update_where mine (\<lambda>r. r\<lparr>l_owner := '''', l_expires := None, l_updated := now\<rparr>) tab))"

definition pg_maintenance_snapshot :: "lease_table \<Rightarrow> string \<times> int \<times> time option" where
  "pg_maintenance_snapshot tab =
     (case fetchone (\<lambda>r. l_scope r = MAINTENANCE_SCOPE) tab of
        None \<Rightarrow> ('''', 0, None)
      | Some row \<Rightarrow> (l_owner row, l_token row, l_expires row))"

section \<open>Coordinator lease\<close>

definition DEFAULT_SCOPE :: string where
  "DEFAULT_SCOPE = ''attachment-waiting-turns''"

text \<open>\<open>CoordinatorLeaseStore.__init__\<close>: an empty scope means the default one.\<close>

definition co_scope :: "string \<Rightarrow> string" where
  "co_scope scope = (if scope = '''' then DEFAULT_SCOPE else scope)"

definition co_try_acquire ::
  "string \<Rightarrow> time \<Rightarrow> int \<Rightarrow> string \<Rightarrow> lease_table \<Rightarrow> int option \<times> lease_table" where
  "co_try_acquire scope now lease_seconds owner tab =
     (let expires = lease_until now lease_seconds;
          takeover = (let tab' = upsert_lease scope owner expires now tab
                      in (current_token scope tab', tab'))
      in case fetchone (\<lambda>r. l_scope r = scope) tab of
           Some row \<Rightarrow>
             if l_owner row = owner then
               (Some (l_token row),
                update_where (\<lambda>r. l_scope r = scope)
                  (\<lambda>r. r\<lparr>l_expires := Some expires, l_updated := now\<rparr>) tab)
             else if lease_active (l_expires row) now then (None, tab)
             else takeover
         | None \<Rightarrow> takeover)"

definition co_renew ::
  "string \<Rightarrow> time \<Rightarrow> int \<Rightarrow> string \<Rightarrow> int \<Rightarrow> lease_table \<Rightarrow> bool \<times> lease_table" where
  "co_renew scope now lease_seconds owner token tab =
     (rowcount (held_by scope owner token) tab > 0,
      update_where (held_by scope owner token)
        (\<lambda>r. r\<lparr>l_expires := Some (lease_until now lease_seconds), l_updated := now\<rparr>) tab)"

definition co_release ::
  "string \<Rightarrow> time \<Rightarrow> string \<Rightarrow> int \<Rightarrow> lease_table \<Rightarrow> bool \<times> lease_table" where
  "co_release scope now owner token tab =
     (rowcount (held_by scope owner token) tab > 0,
      update_where (held_by scope owner token)
        (\<lambda>r. r\<lparr>l_owner := '''', l_expires := None, l_updated := now\<rparr>) tab)"

definition co_snapshot :: "string \<Rightarrow> lease_table \<Rightarrow> string \<times> int \<times> time option" where
  "co_snapshot scope tab =
     (case fetchone (\<lambda>r. l_scope r = scope) tab of
        None \<Rightarrow> ('''', 0, None)
      | Some row \<Rightarrow> (l_owner row, l_token row, l_expires row))"

section \<open>The candidates' control loops\<close>

type_synonym 'db acquire_fn = "time \<Rightarrow> int \<Rightarrow> string \<Rightarrow> 'db \<Rightarrow> int option \<times> 'db"
type_synonym 'db renew_fn = "time \<Rightarrow> int \<Rightarrow> string \<Rightarrow> int \<Rightarrow> 'db \<Rightarrow> bool \<times> 'db"
type_synonym 'db release_fn = "time \<Rightarrow> string \<Rightarrow> int \<Rightarrow> 'db \<Rightarrow> bool \<times> 'db"

text \<open>A database call may raise, before or after its effect was committed.\<close>

datatype call_fault = No_fault | Fails_before | Fails_after

text \<open>The part the two loops share: acquire when no token is held, otherwise renew, and drop the
  token when the renewal is refused.  The first component is the token under which the candidate
  goes on to scan.\<close>

definition candidate_cycle ::
  "'db acquire_fn \<Rightarrow> 'db renew_fn \<Rightarrow> call_fault \<Rightarrow> time \<Rightarrow> int \<Rightarrow> string
     \<Rightarrow> int option \<times> 'db \<Rightarrow> int option \<times> int option \<times> 'db" where
  "candidate_cycle acq ren fault now secs owner = (\<lambda>(token, db).
     if fault = Fails_before then (None, token, db)
     else case token of
       None \<Rightarrow> (case acq now secs owner db of (got, db') \<Rightarrow>
                 if fault = Fails_after then (None, None, db') else (got, got, db'))
     | Some k \<Rightarrow> (case ren now secs owner k db of (renewed, db') \<Rightarrow>
                 if fault = Fails_after then (None, Some k, db')
                 else if renewed then (Some k, Some k, db') else (None, None, db')))"

text \<open>Giving the lease back: exceptions are swallowed and the token is dropped in any case.\<close>

definition candidate_yield ::
  "'db release_fn \<Rightarrow> call_fault \<Rightarrow> time \<Rightarrow> string \<Rightarrow> int option \<times> 'db \<Rightarrow> int option \<times> 'db" where
  "candidate_yield rel fault now owner = (\<lambda>(token, db).
     case token of
       None \<Rightarrow> (None, db)
     | Some k \<Rightarrow> (None, if fault = Fails_before then db else snd (rel now owner k db)))"

text \<open>One round of the governor's maintenance thread: a scan is \<open>maintain\<close> on the quota tables.\<close>

definition maintenance_cycle ::
  "'db acquire_fn \<Rightarrow> 'db renew_fn \<Rightarrow> (time \<Rightarrow> int \<Rightarrow> quota_db \<Rightarrow> (nat \<times> nat) \<times> quota_db)
     \<Rightarrow> call_fault \<Rightarrow> bool \<Rightarrow> time \<Rightarrow> string \<Rightarrow> int \<Rightarrow> int option \<times> 'db \<times> quota_db \<Rightarrow> int option \<times> 'db \<times> quota_db" where
  "maintenance_cycle acq ren maintain fault maintain_fails now owner escalate = (\<lambda>(token, leases, db).
     case candidate_cycle acq ren fault now 15 owner (token, leases) of
       (None, token', leases') \<Rightarrow> (token', leases', db)
     | (Some k, token', leases') \<Rightarrow>
         (token', leases', if maintain_fails then db else snd (maintain now escalate db)))"

definition maintenance_exit ::
  "'db release_fn \<Rightarrow> call_fault \<Rightarrow> time \<Rightarrow> string \<Rightarrow> int option \<times> 'db \<times> quota_db \<Rightarrow> int option \<times> 'db \<times> quota_db" where
  "maintenance_exit rel fault now owner = (\<lambda>(token, leases, db).
     case candidate_yield rel fault now owner (token, leases) of (token', leases') \<Rightarrow> (token', leases', db))"

text \<open>\<open>f"governor-maint-{os.getpid()}"\<close>.\<close>

definition maintenance_owner :: "int \<Rightarrow> string" where
  "maintenance_owner pid = ''governor-maint-'' @ py_str pid"

record coord_loop =
  cl_worker_id :: string
  cl_lease_seconds :: int
  cl_renew_seconds :: int
  cl_token :: "int option"

text \<open>\<open>default_id\<close> is the \<open>f"coordinator-{id(self)}"\<close> of an unnamed worker.\<close>

definition co_loop_init :: "string \<Rightarrow> string \<Rightarrow> int \<Rightarrow> int \<Rightarrow> coord_loop" where
  "co_loop_init default_id worker_id lease_seconds renew_seconds =
     (let lease = max 5 lease_seconds
      in \<lparr>cl_worker_id = (if worker_id = '''' then default_id else worker_id),
          cl_lease_seconds = lease,
          cl_renew_seconds = max 1 (min renew_seconds (lease - 1)),
          cl_token = None\<rparr>)"

text \<open>\<open>run_once\<close>: the sweeps report the number of changed turns or raise (\<open>None\<close>); the result is
  \<open>None\<close> when the lease call itself raised, which \<open>run_forever\<close> ignores.\<close>

definition co_run_once ::
  "string \<Rightarrow> call_fault \<Rightarrow> time \<Rightarrow> int option \<Rightarrow> int option \<Rightarrow> coord_loop \<times> lease_table
     \<Rightarrow> bool option \<times> (coord_loop \<times> lease_table)" where
  "co_run_once scope fault now reconciled expired = (\<lambda>(loop, tab).
     case candidate_cycle (co_try_acquire scope) (co_renew scope) fault now (cl_lease_seconds loop)
            (cl_worker_id loop) (cl_token loop, tab) of
       (None, token', tab') \<Rightarrow>
         (if fault = No_fault then Some False else None, (loop\<lparr>cl_token := token'\<rparr>, tab'))
     | (Some k, token', tab') \<Rightarrow>
         (Some ((case reconciled of None \<Rightarrow> False | Some n \<Rightarrow> n > 0)
                \<or> (case expired of None \<Rightarrow> False | Some n \<Rightarrow> n > 0)),
          (loop\<lparr>cl_token := token'\<rparr>, tab')))"

definition co_yield_lease ::
  "string \<Rightarrow> call_fault \<Rightarrow> time \<Rightarrow> coord_loop \<times> lease_table \<Rightarrow> coord_loop \<times> lease_table" where
  "co_yield_lease scope fault now = (\<lambda>(loop, tab).
     case candidate_yield (co_release scope) fault now (cl_worker_id loop) (cl_token loop, tab) of
       (token', tab') \<Rightarrow> (loop\<lparr>cl_token := token'\<rparr>, tab'))"

section \<open>An election: many candidates, one table\<close>

record 'db election =
  el_db :: 'db
  el_token :: "string \<Rightarrow> int option"
  el_scans :: "(string \<times> int) list"

datatype election_event =
    Cycle string call_fault time int
  | Yield string call_fault time

fun candidate_of :: "election_event \<Rightarrow> string" where
  "candidate_of (Cycle owner fault now secs) = owner"
| "candidate_of (Yield owner fault now) = owner"

fun election_step ::
  "'db acquire_fn \<Rightarrow> 'db renew_fn \<Rightarrow> 'db release_fn \<Rightarrow> 'db election \<Rightarrow> election_event \<Rightarrow> 'db election" where
  "election_step acq ren rel s (Cycle owner fault now secs) =
     (case candidate_cycle acq ren fault now secs owner (el_token s owner, el_db s) of
        (scan, token', db') \<Rightarrow>
          \<lparr>el_db = db', el_token = (el_token s)(owner := token'),
           el_scans = el_scans s @ (case scan of None \<Rightarrow> [] | Some k \<Rightarrow> [(owner, k)])\<rparr>)"
| "election_step acq ren rel s (Yield owner fault now) =
     (case candidate_yield rel fault now owner (el_token s owner, el_db s) of
        (token', db') \<Rightarrow> s\<lparr>el_db := db', el_token := (el_token s)(owner := token')\<rparr>)"

definition election_start :: "'db \<Rightarrow> 'db election" where
  "election_start db = \<lparr>el_db = db, el_token = (\<lambda>_. None), el_scans = []\<rparr>"

section \<open>Fencing\<close>

text \<open>Tokens held are at most the current one, and the current one is held by the owner.\<close>

definition tokens_ok :: "string \<Rightarrow> int \<Rightarrow> (string \<Rightarrow> int option) \<Rightarrow> bool" where
  "tokens_ok owner cur held \<longleftrightarrow>
     (\<forall>c k. held c = Some k \<longrightarrow> c \<noteq> '''' \<and> k \<le> cur \<and> (k = cur \<longrightarrow> owner = c))"

text \<open>Scans carry growing tokens, each token of one owner.\<close>

definition scans_ok :: "string \<Rightarrow> int \<Rightarrow> (string \<times> int) list \<Rightarrow> bool" where
  "scans_ok owner cur scans \<longleftrightarrow> sorted (map snd scans)
     \<and> (\<forall>c k. (c, k) \<in> set scans \<longrightarrow> k \<le> cur \<and> (k = cur \<longrightarrow> owner \<noteq> '''' \<longrightarrow> c = owner))
     \<and> (\<forall>c c' k. (c, k) \<in> set scans \<longrightarrow> (c', k) \<in> set scans \<longrightarrow> c = c')"

lemma tokens_ok_intros:
  "tokens_ok owner cur held \<Longrightarrow> tokens_ok owner cur (held(me := None))"
  "tokens_ok me cur held \<Longrightarrow> me \<noteq> '''' \<Longrightarrow> tokens_ok me cur (held(me := Some cur))"
  "tokens_ok me cur held \<Longrightarrow> tokens_ok '''' cur (held(me := None))"
  by (auto simp: tokens_ok_def)

lemma tokens_ok_bump:
  assumes "tokens_ok owner cur held" "me \<noteq> ''''" "v = None \<or> v = Some (cur + 1)"
  shows "tokens_ok me (cur + 1) (held(me := v))"
  unfolding tokens_ok_def
proof (intro allI impI)
  fix c k assume "(held(me := v)) c = Some k"
  then show "c \<noteq> '''' \<and> k \<le> cur + 1 \<and> (k = cur + 1 \<longrightarrow> me = c)"
    using assms by (cases "c = me") (force simp: tokens_ok_def)+
qed

lemma scans_ok_add: "scans_ok me cur scans \<Longrightarrow> me \<noteq> '''' \<Longrightarrow> scans_ok me cur (scans @ [(me, cur)])"
  by (auto simp: scans_ok_def sorted_append)

lemma scans_ok_bump: "scans_ok owner cur scans \<Longrightarrow> scans_ok me (cur + 1) scans"
  unfolding scans_ok_def by force

lemma scans_ok_vacant: "scans_ok owner cur scans \<Longrightarrow> scans_ok '''' cur scans"
  by (auto simp: scans_ok_def)

section \<open>Contract of a lease store\<close>

locale lease_election =
  fixes acquire :: "'db acquire_fn"
    and renew :: "'db renew_fn"
    and release :: "'db release_fn"
    and view :: "'db \<Rightarrow> string \<times> int \<times> time option"
    and ok :: "'db \<Rightarrow> bool"
  assumes acquire_reenter: "ok db \<Longrightarrow> me \<noteq> '''' \<Longrightarrow> view db = (me, k, x) \<Longrightarrow>
      \<exists>db'. acquire now secs me db = (Some k, db') \<and> ok db' \<and> view db' = (me, k, Some (lease_until now secs))"
    and acquire_refused: "ok db \<Longrightarrow> me \<noteq> '''' \<Longrightarrow> view db = (other, k, x) \<Longrightarrow> other \<noteq> me \<Longrightarrow>
      lease_active x now \<Longrightarrow> acquire now secs me db = (None, db)"
    and acquire_takeover: "ok db \<Longrightarrow> me \<noteq> '''' \<Longrightarrow> view db = (other, k, x) \<Longrightarrow> other \<noteq> me \<Longrightarrow>
      \<not> lease_active x now \<Longrightarrow>
      \<exists>db'. acquire now secs me db = (Some (k + 1), db') \<and> ok db' \<and> view db' = (me, k + 1, Some (lease_until now secs))"
    and renew_held: "ok db \<Longrightarrow> me \<noteq> '''' \<Longrightarrow> view db = (me, k, x) \<Longrightarrow>
      \<exists>db'. renew now secs me k db = (True, db') \<and> ok db' \<and> view db' = (me, k, Some (lease_until now secs))"
    and renew_lost: "ok db \<Longrightarrow> me \<noteq> '''' \<Longrightarrow> view db = (other, j, x) \<Longrightarrow> (other, j) \<noteq> (me, k) \<Longrightarrow>
      renew now secs me k db = (False, db)"
    and release_held: "ok db \<Longrightarrow> me \<noteq> '''' \<Longrightarrow> view db = (me, k, x) \<Longrightarrow>
      \<exists>db'. release now me k db = (True, db') \<and> ok db' \<and> view db' = ('''', k, None)"
    and release_lost: "ok db \<Longrightarrow> me \<noteq> '''' \<Longrightarrow> view db = (other, j, x) \<Longrightarrow> (other, j) \<noteq> (me, k) \<Longrightarrow>
      release now me k db = (False, db)"
begin

definition election_inv :: "'db election \<Rightarrow> bool" where
  "election_inv s \<longleftrightarrow> ok (el_db s) \<and> (case view (el_db s) of (owner, cur, x) \<Rightarrow>
     tokens_ok owner cur (el_token s) \<and> scans_ok owner cur (el_scans s))"

lemma inv_start: "ok db \<Longrightarrow> election_inv (election_start db)"
  by (auto simp: election_inv_def election_start_def tokens_ok_def scans_ok_def split: prod.splits)

text \<open>The effect of one lease call, read off the contract.\<close>

lemma cycle_cases:
  assumes "ok db" "me \<noteq> ''''" "view db = (owner, cur, x)"
    and "candidate_cycle acquire renew fault now secs me (token, db) = (scan, token', db')"
  obtains (idle) "scan = None" "token' = token \<or> token' = None" "db' = db"
  | (kept) "owner = me" "scan = None \<or> scan = Some cur" "token' \<in> {token, None, Some cur}"
      "ok db'" "view db' = (me, cur, Some (lease_until now secs))"
  | (taken) "owner \<noteq> me" "\<not> lease_active x now" "scan = token'" "token' \<in> {None, Some (cur + 1)}"
      "ok db'" "view db' = (me, cur + 1, Some (lease_until now secs))"
proof (cases "fault = Fails_before")
  case True
  then show ?thesis using assms(4) that(1) by (auto simp: candidate_cycle_def)
next
  case False
  note step = assms(4)
  show ?thesis
  proof (cases token)
    case None
    consider "owner = me" | "owner \<noteq> me" "lease_active x now" | "owner \<noteq> me" "\<not> lease_active x now" by blast
    then show ?thesis
    proof cases
      case 1
      with acquire_reenter [of db me cur x now secs] assms(1-3) obtain d where
        "acquire now secs me db = (Some cur, d)" "ok d" "view d = (me, cur, Some (lease_until now secs))" by auto
      with step None False 1 that(2) show ?thesis
        by (cases "fault = Fails_after") (auto simp: candidate_cycle_def)
    next
      case 2
      with acquire_refused [of db me owner cur x now secs] assms(1-3)
      have "acquire now secs me db = (None, db)" by auto
      with step None False that(1) show ?thesis
        by (cases "fault = Fails_after") (auto simp: candidate_cycle_def)
    next
      case 3
      with acquire_takeover [of db me owner cur x now secs] assms(1-3) obtain d where
        "acquire now secs me db = (Some (cur + 1), d)" "ok d" "view d = (me, cur + 1, Some (lease_until now secs))"
        by auto
      with step None False 3 that(3) show ?thesis
        by (cases "fault = Fails_after") (auto simp: candidate_cycle_def)
    qed
  next
    case (Some k)
    show ?thesis
    proof (cases "(owner, cur) = (me, k)")
      case True
      with renew_held [of db me cur x now secs] assms(1-3) obtain d where
        "renew now secs me k db = (True, d)" "ok d" "view d = (me, cur, Some (lease_until now secs))" by auto
      with step Some False True that(2) show ?thesis
        by (cases "fault = Fails_after") (auto simp: candidate_cycle_def)
    next
      case lost: False
      then have "renew now secs me k db = (False, db)"
        using renew_lost [of db me owner cur x k now secs] assms(1-3) by auto
      with step Some False that(1) show ?thesis
        by (cases "fault = Fails_after") (auto simp: candidate_cycle_def)
    qed
  qed
qed

lemma inv_cycle:
  assumes inv: "election_inv s" and me: "me \<noteq> ''''"
  shows "election_inv (election_step acquire renew release s (Cycle me fault now secs))"
proof -
  obtain owner cur x where view: "view (el_db s) = (owner, cur, x)" by (metis prod_cases3)
  obtain scan token' db' where cycle:
    "candidate_cycle acquire renew fault now secs me (el_token s me, el_db s) = (scan, token', db')"
    by (metis prod_cases3)
  have facts: "ok (el_db s)" "tokens_ok owner cur (el_token s)" "scans_ok owner cur (el_scans s)"
    using inv view by (auto simp: election_inv_def)
  from facts(1) me view cycle show ?thesis
  proof (cases rule: cycle_cases)
    case idle
    then have "tokens_ok owner cur ((el_token s)(me := token'))"
      using facts(2) tokens_ok_intros(1) by auto
    with idle facts view cycle show ?thesis by (simp add: election_inv_def)
  next
    case kept
    then have "tokens_ok me cur ((el_token s)(me := token'))"
      using facts(2) me tokens_ok_intros(1,2) by auto
    with kept facts cycle me show ?thesis by (auto simp: election_inv_def scans_ok_add)
  next
    case taken
    then have "tokens_ok me (cur + 1) ((el_token s)(me := token'))"
      using facts(2) me by (intro tokens_ok_bump) auto
    with taken facts cycle me show ?thesis
      using scans_ok_bump [OF facts(3), of me]
      by (auto simp: election_inv_def intro: scans_ok_add)
  qed
qed

lemma inv_yield:
  assumes inv: "election_inv s" and me: "me \<noteq> ''''"
  shows "election_inv (election_step acquire renew release s (Yield me fault now))"
proof -
  obtain owner cur x where view: "view (el_db s) = (owner, cur, x)" by (metis prod_cases3)
  have facts: "ok (el_db s)" "tokens_ok owner cur (el_token s)" "scans_ok owner cur (el_scans s)"
    using inv view by (auto simp: election_inv_def)
  consider "el_token s me = None" | k where "el_token s me = Some k" "fault \<noteq> Fails_before" "(owner, cur) = (me, k)"
    | k where "el_token s me = Some k" "fault = Fails_before \<or> (owner, cur) \<noteq> (me, k)"
    by fastforce
  then show ?thesis
  proof cases
    case 1
    then show ?thesis using inv view by (simp add: election_inv_def candidate_yield_def tokens_ok_intros(1))
  next
    case (2 k)
    then obtain d where "release now me k (el_db s) = (True, d)" "ok d" "view d = ('''', k, None)"
      using release_held [of "el_db s" me k x now] facts(1) me view by auto
    with 2 facts show ?thesis
      by (auto simp: election_inv_def candidate_yield_def intro: tokens_ok_intros(3) scans_ok_vacant)
  next
    case (3 k)
    then have "candidate_yield release fault now me (el_token s me, el_db s) = (None, el_db s)"
      using release_lost [of "el_db s" me owner cur x k now] facts(1) me view
      by (auto simp: candidate_yield_def)
    with facts view show ?thesis by (simp add: election_inv_def tokens_ok_intros(1))
  qed
qed

lemma inv_run:
  assumes "election_inv s" "\<forall>e \<in> set es. candidate_of e \<noteq> ''''"
  shows "election_inv (foldl (election_step acquire renew release) s es)"
  using assms
proof (induction es arbitrary: s)
  case (Cons e es)
  then have "election_inv (election_step acquire renew release s e)"
    by (cases e) (auto intro: inv_cycle inv_yield simp del: election_step.simps)
  with Cons show ?case by simp
qed simp

text \<open>What the candidates of an election may rely on.\<close>

lemma scans_fenced:
  assumes "ok db" "\<forall>e \<in> set es. candidate_of e \<noteq> ''''"
    and "s = foldl (election_step acquire renew release) (election_start db) es"
  shows "sorted (map snd (el_scans s))
    \<and> (\<forall>c c' k. (c, k) \<in> set (el_scans s) \<longrightarrow> (c', k) \<in> set (el_scans s) \<longrightarrow> c = c')"
  using inv_run [OF inv_start [OF assms(1)] assms(2)] assms(3)
  by (simp add: election_inv_def scans_ok_def split: prod.splits)

text \<open>At most one candidate passes its renewal in any state of an election.\<close>

lemma renewal_exclusive:
  assumes "ok db" "\<forall>e \<in> set es. candidate_of e \<noteq> ''''"
    and s: "s = foldl (election_step acquire renew release) (election_start db) es"
    and held: "el_token s c1 = Some k1" "el_token s c2 = Some k2"
    and renewed: "fst (renew now1 secs1 c1 k1 (el_db s))" "fst (renew now2 secs2 c2 k2 (el_db s))"
  shows "c1 = c2 \<and> k1 = k2"
proof -
  have inv: "election_inv s" using inv_run [OF inv_start [OF assms(1)] assms(2)] s by simp
  obtain owner cur x where view: "view (el_db s) = (owner, cur, x)" by (metis prod_cases3)
  have "(owner, cur) = (c, k)" if "el_token s c = Some k" "fst (renew now secs c k (el_db s))" for c k now secs
  proof (rule ccontr)
    assume "(owner, cur) \<noteq> (c, k)"
    moreover have "ok (el_db s)" "c \<noteq> []" using inv view that(1) by (auto simp: election_inv_def tokens_ok_def)
    ultimately have "renew now secs c k (el_db s) = (False, el_db s)" using renew_lost view by blast
    with that(2) show False by simp
  qed
  from this [OF held(1) renewed(1)] this [OF held(2) renewed(2)] show ?thesis by simp
qed

text \<open>A candidate that cycles once the current lease has run out leads, under a larger token.\<close>

lemma takeover_after_expiry:
  assumes "ok db" "me \<noteq> ''''" "view db = (owner, cur, x)" "owner \<noteq> me" "\<not> lease_active x now"
  shows "\<exists>db'. candidate_cycle acquire renew No_fault now secs me (None, db) = (Some (cur + 1), Some (cur + 1), db')
    \<and> view db' = (me, cur + 1, Some (lease_until now secs))"
  using acquire_takeover [OF assms, of secs] by (auto simp: candidate_cycle_def)

end

section \<open>The three stores fulfil the contract\<close>

definition lease_ok :: "lease_table \<Rightarrow> bool" where
  "lease_ok tab \<longleftrightarrow> distinct (map l_scope tab)"

text \<open>The scope is the primary key, so the row of a scope decides everything.\<close>

lemma held_rows:
  assumes "lease_ok tab" "fetchone (\<lambda>r. l_scope r = scope) tab = Some row"
  shows "(\<exists>r \<in> set tab. held_by scope owner token r) \<longleftrightarrow> l_owner row = owner \<and> l_token row = token"
proof -
  have "r = row" if "r \<in> set tab" "l_scope r = scope" for r
    using assms that by (metis (mono_tags) lease_ok_def fetchone_SomeD distinct_key_unique)
  then show ?thesis using fetchone_SomeD [OF assms(2)] by (auto simp: held_by_def)
qed

lemma held_rows_none:
  "fetchone (\<lambda>r. l_scope r = scope) tab = None \<Longrightarrow> \<not> held_by scope owner token r \<or> r \<notin> set tab"
  by (auto simp: fetchone_None_iff held_by_def)

lemma held_rowcount:
  assumes "lease_ok tab"
  shows "rowcount (held_by scope owner token) tab > 0 \<longleftrightarrow>
    (\<exists>row. fetchone (\<lambda>r. l_scope r = scope) tab = Some row \<and> l_owner row = owner \<and> l_token row = token)"
  using held_rows [OF assms] held_rows_none [of scope tab owner token]
  by (cases "fetchone (\<lambda>r. l_scope r = scope) tab") (auto simp: rowcount_pos_iff)

lemma update_held_none:
  "\<not> rowcount (held_by scope owner token) tab > 0 \<Longrightarrow> update_where (held_by scope owner token) f tab = tab"
  by (rule update_where_none) (auto simp: rowcount_pos_iff)

lemma co_renew_eq:
  assumes "lease_ok tab"
  shows "co_renew scope now secs owner token tab =
    (if \<exists>row. fetchone (\<lambda>r. l_scope r = scope) tab = Some row \<and> l_owner row = owner \<and> l_token row = token
     then (True, update_where (held_by scope owner token)
             (\<lambda>r. r\<lparr>l_expires := Some (lease_until now secs), l_updated := now\<rparr>) tab)
     else (False, tab))"
  using update_held_none [of scope owner token tab] unfolding co_renew_def held_rowcount [OF assms] by simp

lemma co_release_eq:
  assumes "lease_ok tab"
  shows "co_release scope now owner token tab =
    (if \<exists>row. fetchone (\<lambda>r. l_scope r = scope) tab = Some row \<and> l_owner row = owner \<and> l_token row = token
     then (True, update_where (held_by scope owner token)
             (\<lambda>r. r\<lparr>l_owner := '''', l_expires := None, l_updated := now\<rparr>) tab)
     else (False, tab))"
  using update_held_none [of scope owner token tab] unfolding co_release_def held_rowcount [OF assms] by simp

lemma lease_ok_update:
  "(\<And>r. l_scope (f r) = l_scope r) \<Longrightarrow> lease_ok (update_where P f tab) = lease_ok tab"
  by (simp add: lease_ok_def table_simps)

lemma lease_ok_insert:
  "fetchone (\<lambda>r. l_scope r = l_scope row) tab = None \<Longrightarrow> lease_ok tab \<Longrightarrow> lease_ok (tab @ [row])"
  by (auto simp: lease_ok_def fetchone_None_iff)

lemmas lease_table_simps = fetchone_update_where fetchone_append lease_ok_update lease_ok_insert
  upsert_lease_def current_token_def lease_active_def

interpretation co: lease_election "co_try_acquire scope" "co_renew scope" "co_release scope"
  "co_snapshot scope" lease_ok for scope
proof (unfold_locales, goal_cases)
  case (1 db me k x now secs)
  then obtain row where "fetchone (\<lambda>r. l_scope r = scope) db = Some row" "l_owner row = me"
    "l_token row = k" "l_scope row = scope"
    by (auto simp: co_snapshot_def dest: fetchone_SomeD split: option.splits)
  with 1 show ?case by (simp add: co_try_acquire_def co_snapshot_def lease_table_simps)
next
  case (2 db me other k x now secs)
  then show ?case
    by (auto simp: co_try_acquire_def co_snapshot_def lease_table_simps split: option.splits)
next
  case (3 db me other k x now secs)
  show ?case
  proof (cases "fetchone (\<lambda>r. l_scope r = scope) db")
    case None
    with 3 have "other = ''''" "k = 0" "x = None" by (auto simp: co_snapshot_def)
    with 3 None show ?thesis
      by (simp add: co_try_acquire_def co_snapshot_def lease_table_simps)
  next
    case (Some row)
    with 3 have "other = l_owner row" "k = l_token row" "x = l_expires row" "l_scope row = scope"
      by (auto simp: co_snapshot_def dest: fetchone_SomeD)
    with 3 Some show ?thesis
      by (simp add: co_try_acquire_def co_snapshot_def lease_table_simps Let_def)
  qed
next
  case (4 db me k x now secs)
  then show ?case
    by (auto simp: co_renew_eq co_snapshot_def lease_table_simps held_by_def dest: fetchone_SomeD split: option.splits)
next
  case (5 db me other j x k now secs)
  then show ?case by (auto simp: co_renew_eq co_snapshot_def split: option.splits)
next
  case (6 db me k x now)
  then show ?case
    by (auto simp: co_release_eq co_snapshot_def lease_table_simps held_by_def dest: fetchone_SomeD split: option.splits)
next
  case (7 db me other j x k now)
  then show ?case by (auto simp: co_release_eq co_snapshot_def split: option.splits)
qed

text \<open>The maintenance lease is the same protocol at the fixed scope, in either database.\<close>

lemma sq_maintenance_eq:
  "sq_try_acquire_maintenance = co_try_acquire MAINTENANCE_SCOPE"
  "sq_renew_maintenance = co_renew MAINTENANCE_SCOPE"
  "sq_release_maintenance = co_release MAINTENANCE_SCOPE"
  "sq_maintenance_snapshot = co_snapshot MAINTENANCE_SCOPE"
  by (simp_all add: fun_eq_iff sq_try_acquire_maintenance_def co_try_acquire_def sq_renew_maintenance_def
      co_renew_def sq_release_maintenance_def co_release_def sq_maintenance_snapshot_def co_snapshot_def)

lemma pg_try_acquire_maintenance_eq: "pg_try_acquire_maintenance = co_try_acquire MAINTENANCE_SCOPE"
proof (intro ext)
  fix now secs owner tab
  show "pg_try_acquire_maintenance now secs owner tab = co_try_acquire MAINTENANCE_SCOPE now secs owner tab"
    by (cases "fetchone (\<lambda>r. l_scope r = MAINTENANCE_SCOPE) tab")
      (simp_all add: pg_try_acquire_maintenance_def co_try_acquire_def lease_until_def upsert_lease_def
        lease_active_def Let_def)
qed

lemma pg_maintenance_eq:
  "pg_renew_maintenance = co_renew MAINTENANCE_SCOPE"
  "pg_release_maintenance = co_release MAINTENANCE_SCOPE"
  "pg_maintenance_snapshot = co_snapshot MAINTENANCE_SCOPE"
  by (simp_all add: fun_eq_iff pg_renew_maintenance_def co_renew_def pg_release_maintenance_def
      co_release_def pg_maintenance_snapshot_def co_snapshot_def held_by_def [abs_def] lease_until_def Let_def)

interpretation sqm: lease_election sq_try_acquire_maintenance sq_renew_maintenance sq_release_maintenance
  sq_maintenance_snapshot lease_ok
  unfolding sq_maintenance_eq by (rule co.lease_election_axioms)

interpretation pgm: lease_election pg_try_acquire_maintenance pg_renew_maintenance pg_release_maintenance
  pg_maintenance_snapshot lease_ok
  unfolding pg_try_acquire_maintenance_eq pg_maintenance_eq by (rule co.lease_election_axioms)

section \<open>Properties\<close>

text \<open>C5. Fencing of the coordinator election: whatever candidates cycle, fail and yield in whatever
  order on whatever clocks, the sweeps they run carry non-decreasing fencing tokens and one token
  never belongs to two workers.\<close>

theorem coordinator_scans_fenced:
  assumes "lease_ok tab" "\<forall>e \<in> set es. candidate_of e \<noteq> ''''"
    and "s = foldl (election_step (co_try_acquire scope) (co_renew scope) (co_release scope))
           (election_start tab) es"
  shows "sorted (map snd (el_scans s))
    \<and> (\<forall>c c' k. (c, k) \<in> set (el_scans s) \<longrightarrow> (c', k) \<in> set (el_scans s) \<longrightarrow> c = c')"
  using assms by (rule co.scans_fenced)

definition demo_election :: "election_event list" where
  "demo_election =
     [Cycle ''a'' No_fault 0 15, Cycle ''b'' No_fault (seconds 5) 15, Cycle ''b'' No_fault (seconds 20) 15,
      Cycle ''a'' No_fault (seconds 21) 15, Yield ''b'' No_fault (seconds 22), Cycle ''a'' No_fault (seconds 23) 15]"

lemma demo_election_scans:
  "el_scans (foldl (election_step (co_try_acquire ''s'') (co_renew ''s'') (co_release ''s''))
     (election_start []) demo_election) = [(''a'', 1), (''b'', 2), (''a'', 3)]"
  by (simp add: demo_election_def election_start_def candidate_cycle_def candidate_yield_def co_try_acquire_def
      co_renew_def co_release_def upsert_lease_def current_token_def lease_active_def lease_until_def
      held_by_def seconds_def Let_def)

theorem coordinator_scans_fenced_witness:
  "lease_ok [] \<and> [] \<notin> candidate_of ` set demo_election
   \<and> (let s = foldl (election_step (co_try_acquire ''s'') (co_renew ''s'') (co_release ''s''))
               (election_start []) demo_election
      in el_scans s = [(''a'', 1), (''b'', 2), (''a'', 3)] \<and> sorted (map snd (el_scans s)))"
proof -
  have ok: "lease_ok []" "\<forall>e \<in> set demo_election. candidate_of e \<noteq> ''''"
    by (simp_all add: lease_ok_def demo_election_def)
  moreover have "[] \<notin> candidate_of ` set demo_election" using ok(2) by fastforce
  ultimately show ?thesis
    using coordinator_scans_fenced [OF ok refl, of "''s''"] demo_election_scans unfolding Let_def by blast
qed


definition demo_rivals :: "lease_table election" where
  "demo_rivals = foldl (election_step pg_try_acquire_maintenance pg_renew_maintenance pg_release_maintenance)
     (election_start []) [Cycle ''a'' No_fault 0 15, Cycle ''b'' No_fault (seconds 20) 15]"

lemma demo_rivals_tokens:
  "el_token demo_rivals ''a'' = Some 1" "el_token demo_rivals ''b'' = Some 2"
  "fst (pg_renew_maintenance (seconds 21) 15 ''b'' 2 (el_db demo_rivals))"
  by (simp_all add: demo_rivals_def election_start_def candidate_cycle_def pg_try_acquire_maintenance_def
      pg_renew_maintenance_def current_token_def seconds_def Let_def)


text \<open>The maintenance owner is derived from the process id alone, and a lease is re-entered by
  the owner's name: two processes with the same pid (as in two containers) hold the same live
  lease under the same token and both run the maintenance scan.\<close>

theorem same_pid_shares_leadership:
  assumes "lease_ok tab" "\<not> lease_active (snd (snd (pg_maintenance_snapshot tab))) t0"
    and "fst (pg_maintenance_snapshot tab) \<noteq> maintenance_owner pid"
    and "maintenance_cycle pg_try_acquire_maintenance pg_renew_maintenance pg_maintain No_fault False t0
           (maintenance_owner pid) escalate (None, tab, db) = (token1, tab1, db1)"
    and "maintenance_cycle pg_try_acquire_maintenance pg_renew_maintenance pg_maintain No_fault False t1
           (maintenance_owner pid) escalate (None, tab1, db1) = (token2, tab2, db2)"
  shows "token1 = token2 \<and> token1 = Some (fst (snd (pg_maintenance_snapshot tab)) + 1)
    \<and> db2 = snd (pg_maintain t1 escalate (snd (pg_maintain t0 escalate db)))"
proof -
  let ?me = "maintenance_owner pid" and ?k = "fst (snd (pg_maintenance_snapshot tab)) + 1"
  have me: "?me \<noteq> ''''" by (simp add: maintenance_owner_def)
  obtain d where d: "pg_try_acquire_maintenance t0 15 ?me tab = (Some ?k, d)" "lease_ok d"
    "pg_maintenance_snapshot d = (?me, ?k, Some (lease_until t0 15))"
    using pgm.acquire_takeover [OF assms(1) me, of "fst (pg_maintenance_snapshot tab)"
        "fst (snd (pg_maintenance_snapshot tab))" "snd (snd (pg_maintenance_snapshot tab))" t0 15] assms(2,3)
    by auto
  obtain e where e: "pg_try_acquire_maintenance t1 15 ?me d = (Some ?k, e)"
    using pgm.acquire_reenter [OF d(2) me d(3), of t1 15] by auto
  from d(1) assms(4) have "token1 = Some ?k" "tab1 = d" "db1 = snd (pg_maintain t0 escalate db)"
    by (auto simp: maintenance_cycle_def candidate_cycle_def)
  with e assms(5) show ?thesis by (auto simp: maintenance_cycle_def candidate_cycle_def)
qed

theorem same_pid_shares_leadership_witness:
  "\<exists>tab1 db1 tab2 db2.
     maintenance_cycle pg_try_acquire_maintenance pg_renew_maintenance pg_maintain No_fault False 0
       (maintenance_owner 1) 900 (None, [], empty_quota_db) = (Some 1, tab1, db1)
   \<and> maintenance_cycle pg_try_acquire_maintenance pg_renew_maintenance pg_maintain No_fault False (seconds 1)
       (maintenance_owner 1) 900 (None, tab1, db1) = (Some 1, tab2, db2)"
proof -
  let ?c1 = "maintenance_cycle pg_try_acquire_maintenance pg_renew_maintenance pg_maintain No_fault False 0
       (maintenance_owner 1) 900 (None, [], empty_quota_db)"
  obtain token1 tab1 db1 where one: "?c1 = (token1, tab1, db1)" by (metis prod_cases3)
  obtain token2 tab2 db2 where two: "maintenance_cycle pg_try_acquire_maintenance pg_renew_maintenance pg_maintain
       No_fault False (seconds 1) (maintenance_owner 1) 900 (None, tab1, db1) = (token2, tab2, db2)"
    by (metis prod_cases3)
  have "token1 = token2 \<and> token1 = Some (fst (snd (pg_maintenance_snapshot [])) + 1)"
    using same_pid_shares_leadership [OF _ _ _ one two]
    by (auto simp: lease_ok_def pg_maintenance_snapshot_def lease_active_def maintenance_owner_def)
  with one two show ?thesis by (auto simp: pg_maintenance_snapshot_def)
qed

end
