(* ===== verification/Governor_Process.thy ===== *)
theory Governor_Process
  imports Prelude Quota_Types
begin

text \<open>
  The process scope of \<open>ResourceGovernor\<close> (\<open>core/concurrency/resource_governor.py\<close>): two bounded
  semaphores per resource, a queue of bounded depth and the counters of waiting and active callers.

  Threads run \<open>_acquire_process\<close>, hold a permit and run \<open>GovernorPermit.release\<close>; a thread is a
  program counter over the atomic sections of that code (a section under \<open>self._lock\<close>, or one
  semaphore call), and a schedule names the thread that moves next together with what the clock
  and the cancellation event say to it.  \<open>_ensure_process_locks\<close> is one atomic section.
\<close>

section \<open>Bounded semaphores\<close>

record semaphore =
  sem_value :: int
  sem_bound :: int

definition bounded_semaphore :: "int \<Rightarrow> semaphore" where
  "bounded_semaphore n = \<lparr>sem_value = n, sem_bound = n\<rparr>"

text \<open>\<open>None\<close> means that the timed wait ended without a slot, or the \<open>ValueError\<close> of a release too many.\<close>

definition sem_acquire :: "semaphore \<Rightarrow> semaphore option" where
  "sem_acquire s = (if sem_value s > 0 then Some (s\<lparr>sem_value := sem_value s - 1\<rparr>) else None)"

definition sem_release :: "semaphore \<Rightarrow> semaphore option" where
  "sem_release s = (if sem_value s \<ge> sem_bound s then None else Some (s\<lparr>sem_value := sem_value s + 1\<rparr>))"

section \<open>The governor's state in process scope\<close>

record slot =
  s_total :: semaphore
  s_background :: semaphore
  s_waiters :: int
  s_active :: int

type_synonym limits = "(string \<times> int \<times> int) list"

record process_governor =
  g_limits :: limits
  g_queue_max_depth :: int
  g_slots :: "string \<Rightarrow> slot option"

definition dict_limits :: "limits \<Rightarrow> string \<Rightarrow> int \<times> int" where
  "dict_limits limits resource = (case map_of limits resource of None \<Rightarrow> (1, 0) | Some lim \<Rightarrow> lim)"

definition new_slot :: "limits \<Rightarrow> string \<Rightarrow> slot" where
  "new_slot limits resource =
     (case dict_limits limits resource of (capacity, reserved) \<Rightarrow>
        \<lparr>s_total = bounded_semaphore (max 1 capacity),
         s_background = bounded_semaphore (max 0 (capacity - reserved)),
         s_waiters = 0, s_active = 0\<rparr>)"

definition ensure_process_locks :: "process_governor \<Rightarrow> string \<Rightarrow> process_governor" where
  "ensure_process_locks g resource =
     (if g_slots g resource \<noteq> None then g
      else g\<lparr>g_slots := (g_slots g)(resource \<mapsto> new_slot (g_limits g) resource)\<rparr>)"

definition governor_init :: "limits \<Rightarrow> int \<Rightarrow> process_governor" where
  "governor_init limits queue_max_depth =
     (let lims = (if limits = [] then DEFAULT_LIMITS else limits)
      in foldl ensure_process_locks
           \<lparr>g_limits = lims, g_queue_max_depth = max 1 queue_max_depth, g_slots = (\<lambda>_. None)\<rparr>
           (map fst lims))"

definition limits_for :: "limits \<Rightarrow> string \<Rightarrow> int \<times> int" where
  "limits_for limits resource =
     (case map_of limits resource of Some lim \<Rightarrow> lim | None \<Rightarrow> dict_limits DEFAULT_LIMITS resource)"

text \<open>\<open>_limits_from_settings\<close>: one resource's pair from the configured capacity and reserve.\<close>

definition settings_pair :: "int \<Rightarrow> int \<Rightarrow> int \<times> int" where
  "settings_pair capacity reserved = (max 1 capacity, max 0 (min reserved capacity))"

section \<open>A caller\<close>

datatype wait_choice = Proceed | Deadline_passed | Wait_cancelled

datatype acquire_pc =
    PC_enter | PC_wait_background | PC_wait_total | PC_count | PC_granted | PC_held
  | PC_undo string | PC_leave string | PC_rejected string
  | PC_release_total | PC_release_background | PC_done | PC_error

text \<open>The rejection of a caller that waits: \<open>acquired_background\<close> decides whether a slot is given back.\<close>

definition reject :: "bool \<Rightarrow> string \<Rightarrow> acquire_pc" where
  "reject acquired_background reason = (if acquired_background then PC_undo reason else PC_leave reason)"

fun process_step :: "int \<Rightarrow> bool \<Rightarrow> wait_choice \<Rightarrow> acquire_pc \<Rightarrow> slot \<Rightarrow> slot \<times> acquire_pc" where
  "process_step depth interactive choice PC_enter s =
     (if s_waiters s \<ge> depth then (s, PC_rejected ''queue_full'')
      else (s\<lparr>s_waiters := s_waiters s + 1\<rparr>, if interactive then PC_wait_total else PC_wait_background))"
| "process_step depth interactive choice PC_wait_background s =
     (case choice of
        Wait_cancelled \<Rightarrow> (s, reject False ''cancelled'')
      | Deadline_passed \<Rightarrow> (s, reject False ''deadline'')
      | Proceed \<Rightarrow> (case sem_acquire (s_background s) of
                     None \<Rightarrow> (s, PC_wait_background)
                   | Some b \<Rightarrow> (s\<lparr>s_background := b\<rparr>, PC_wait_total)))"
| "process_step depth interactive choice PC_wait_total s =
     (case choice of
        Wait_cancelled \<Rightarrow> (s, reject (\<not> interactive) ''cancelled'')
      | Deadline_passed \<Rightarrow> (s, reject (\<not> interactive) ''deadline'')
      | Proceed \<Rightarrow> (case sem_acquire (s_total s) of
                     None \<Rightarrow> (s, PC_wait_total)
                   | Some t \<Rightarrow> (s\<lparr>s_total := t\<rparr>, PC_count)))"
| "process_step depth interactive choice PC_count s = (s\<lparr>s_active := s_active s + 1\<rparr>, PC_granted)"
| "process_step depth interactive choice PC_granted s =
     (s\<lparr>s_waiters := max 0 (s_waiters s - 1)\<rparr>, PC_held)"
| "process_step depth interactive choice (PC_undo reason) s =
     (case sem_release (s_background s) of
        None \<Rightarrow> (s, PC_error)
      | Some b \<Rightarrow> (s\<lparr>s_background := b\<rparr>, PC_leave reason))"
| "process_step depth interactive choice (PC_leave reason) s =
     (s\<lparr>s_waiters := max 0 (s_waiters s - 1)\<rparr>, PC_rejected reason)"
| "process_step depth interactive choice PC_held s =
     (s\<lparr>s_active := max 0 (s_active s - 1)\<rparr>, PC_release_total)"
| "process_step depth interactive choice PC_release_total s =
     (case sem_release (s_total s) of
        None \<Rightarrow> (s, PC_error)
      | Some t \<Rightarrow> (s\<lparr>s_total := t\<rparr>, if interactive then PC_done else PC_release_background))"
| "process_step depth interactive choice PC_release_background s =
     (case sem_release (s_background s) of
        None \<Rightarrow> (s, PC_done)
      | Some b \<Rightarrow> (s\<lparr>s_background := b\<rparr>, PC_done))"
| "process_step depth interactive choice pc s = (s, pc)"

record process_thread =
  th_resource :: string
  th_interactive :: bool
  th_pc :: acquire_pc

type_synonym process_system = "process_governor \<times> process_thread list"

definition system_step :: "process_system \<Rightarrow> nat \<times> wait_choice \<Rightarrow> process_system" where
  "system_step = (\<lambda>(g, threads) (i, choice).
     if i < length threads then
       let t = threads ! i; g' = ensure_process_locks g (th_resource t)
       in case g_slots g' (th_resource t) of
            None \<Rightarrow> (g', threads)
          | Some s \<Rightarrow>
              (case process_step (g_queue_max_depth g) (th_interactive t) choice (th_pc t) s of
                 (s', pc') \<Rightarrow> (g'\<lparr>g_slots := (g_slots g')(th_resource t \<mapsto> s')\<rparr>, threads[i := t\<lparr>th_pc := pc'\<rparr>]))
     else (g, threads))"

section \<open>Who holds what\<close>

definition holds_total :: "acquire_pc \<Rightarrow> bool" where
  "holds_total pc \<longleftrightarrow> pc \<in> {PC_count, PC_granted, PC_held, PC_release_total}"

definition holds_background :: "acquire_pc \<Rightarrow> bool" where
  "holds_background pc \<longleftrightarrow> holds_total pc \<or> pc \<in> {PC_wait_total, PC_release_background} \<or> (\<exists>reason. pc = PC_undo reason)"

definition counted_active :: "acquire_pc \<Rightarrow> bool" where
  "counted_active pc \<longleftrightarrow> pc \<in> {PC_granted, PC_held}"

definition counted_waiting :: "acquire_pc \<Rightarrow> bool" where
  "counted_waiting pc \<longleftrightarrow> pc \<in> {PC_wait_background, PC_wait_total, PC_count, PC_granted}
     \<or> (\<exists>reason. pc = PC_undo reason \<or> pc = PC_leave reason)"

definition callers :: "(acquire_pc \<Rightarrow> bool) \<Rightarrow> string \<Rightarrow> process_thread list \<Rightarrow> int" where
  "callers P res threads = int (rowcount (\<lambda>t. th_resource t = res \<and> P (th_pc t)) threads)"

definition background_callers :: "(acquire_pc \<Rightarrow> bool) \<Rightarrow> string \<Rightarrow> process_thread list \<Rightarrow> int" where
  "background_callers P res threads =
     int (rowcount (\<lambda>t. th_resource t = res \<and> \<not> th_interactive t \<and> P (th_pc t)) threads)"

text \<open>The counters and semaphores of a resource agree with the callers' program counters.\<close>

definition slot_inv :: "limits \<Rightarrow> int \<Rightarrow> string \<Rightarrow> process_thread list \<Rightarrow> slot \<Rightarrow> bool" where
  "slot_inv limits depth res threads s \<longleftrightarrow>
     sem_bound (s_total s) = max 1 (fst (dict_limits limits res))
     \<and> sem_bound (s_background s) = max 0 (fst (dict_limits limits res) - snd (dict_limits limits res))
     \<and> sem_value (s_total s) + callers holds_total res threads = sem_bound (s_total s)
     \<and> sem_value (s_background s) + background_callers holds_background res threads = sem_bound (s_background s)
     \<and> s_active s = callers counted_active res threads
     \<and> s_waiters s = callers counted_waiting res threads
     \<and> 0 \<le> sem_value (s_total s) \<and> 0 \<le> sem_value (s_background s) \<and> s_waiters s \<le> depth"

definition thread_ok :: "process_thread \<Rightarrow> bool" where
  "thread_ok t \<longleftrightarrow> th_pc t \<noteq> PC_error
     \<and> (th_interactive t \<longrightarrow> th_pc t \<noteq> PC_wait_background \<and> th_pc t \<noteq> PC_release_background
          \<and> (\<forall>reason. th_pc t \<noteq> PC_undo reason))"

definition system_inv :: "limits \<Rightarrow> int \<Rightarrow> process_system \<Rightarrow> bool" where
  "system_inv limits depth = (\<lambda>(g, threads).
     g_limits g = limits \<and> g_queue_max_depth g = depth \<and> 0 < depth \<and> (\<forall>t \<in> set threads. thread_ok t)
     \<and> (\<forall>res. case g_slots g res of
          None \<Rightarrow> (\<forall>t \<in> set threads. th_resource t = res \<longrightarrow> th_pc t = PC_enter)
        | Some s \<Rightarrow> slot_inv limits depth res threads s))"

section \<open>The invariant is kept\<close>

lemmas pc_sets = holds_total_def holds_background_def counted_active_def counted_waiting_def

lemma callers_update:
  assumes "i < length threads"
  shows "callers P res (threads[i := t]) = callers P res threads
      - of_bool (th_resource (threads ! i) = res \<and> P (th_pc (threads ! i))) + of_bool (th_resource t = res \<and> P (th_pc t))"
    and "background_callers P res (threads[i := t]) = background_callers P res threads
      - of_bool (th_resource (threads ! i) = res \<and> \<not> th_interactive (threads ! i) \<and> P (th_pc (threads ! i)))
      + of_bool (th_resource t = res \<and> \<not> th_interactive t \<and> P (th_pc t))"
  unfolding callers_def background_callers_def by (rule rowcount_list_update [OF assms])+

lemma callers_ge:
  assumes "i < length threads"
  shows "of_bool (th_resource (threads ! i) = res \<and> P (th_pc (threads ! i))) \<le> callers P res threads"
    and "of_bool (th_resource (threads ! i) = res \<and> \<not> th_interactive (threads ! i) \<and> P (th_pc (threads ! i)))
      \<le> background_callers P res threads"
  unfolding callers_def background_callers_def
  by (rule rowcount_nth_le [OF assms, where P = "\<lambda>t. th_resource t = res \<and> P (th_pc t)"],
      rule rowcount_nth_le [OF assms, where P = "\<lambda>t. th_resource t = res \<and> \<not> th_interactive t \<and> P (th_pc t)"])

lemma callers_nonneg: "0 \<le> callers P res threads" "0 \<le> background_callers P res threads"
  by (simp_all add: callers_def background_callers_def)

text \<open>One atomic section of one caller against the numbers of callers that hold or wait.\<close>

definition slot_counts :: "int \<Rightarrow> int \<Rightarrow> int \<Rightarrow> int \<Rightarrow> int \<Rightarrow> int \<Rightarrow> int \<Rightarrow> slot \<Rightarrow> bool" where
  "slot_counts cap bgcap depth holding bg_holding active waiting s \<longleftrightarrow>
     sem_bound (s_total s) = cap \<and> sem_bound (s_background s) = bgcap
     \<and> sem_value (s_total s) + holding = cap \<and> sem_value (s_background s) + bg_holding = bgcap
     \<and> s_active s = active \<and> s_waiters s = waiting
     \<and> 0 \<le> sem_value (s_total s) \<and> 0 \<le> sem_value (s_background s) \<and> s_waiters s \<le> depth"

lemma process_step_counts:
  fixes s :: slot and depth :: int and ia :: bool and choice :: wait_choice and pc :: acquire_pc
  defines "pc' \<equiv> snd (process_step depth ia choice pc s)"
  assumes "slot_counts cap bgcap depth holding bg_holding active waiting s"
    and "of_bool (holds_total pc) \<le> holding" "of_bool (\<not> ia \<and> holds_background pc) \<le> bg_holding"
    and "of_bool (counted_active pc) \<le> active" "of_bool (counted_waiting pc) \<le> waiting"
    and "thread_ok t" "th_pc t = pc" "th_interactive t = ia"
  shows "slot_counts cap bgcap depth (holding - of_bool (holds_total pc) + of_bool (holds_total pc'))
      (bg_holding - of_bool (\<not> ia \<and> holds_background pc) + of_bool (\<not> ia \<and> holds_background pc'))
      (active - of_bool (counted_active pc) + of_bool (counted_active pc'))
      (waiting - of_bool (counted_waiting pc) + of_bool (counted_waiting pc'))
      (fst (process_step depth ia choice pc s))"
    and "thread_ok (t\<lparr>th_pc := pc'\<rparr>)"
  using assms(2-) unfolding pc'_def
  by (cases pc; cases choice; cases ia;
      simp add: pc_sets sem_acquire_def sem_release_def reject_def slot_counts_def thread_ok_def)+

lemma slot_inv_counts:
  "slot_inv limits depth res threads s \<longleftrightarrow>
     slot_counts (max 1 (fst (dict_limits limits res)))
       (max 0 (fst (dict_limits limits res) - snd (dict_limits limits res))) depth
       (callers holds_total res threads) (background_callers holds_background res threads)
       (callers counted_active res threads) (callers counted_waiting res threads) s"
  by (auto simp: slot_inv_def slot_counts_def)

lemma process_step_inv:
  assumes inv: "slot_inv limits depth res threads s" and i: "i < length threads"
    and t: "threads ! i = t" "th_resource t = res" "thread_ok t"
    and step: "process_step depth (th_interactive t) choice (th_pc t) s = (s', pc')"
  shows "slot_inv limits depth res (threads[i := t\<lparr>th_pc := pc'\<rparr>]) s'" "thread_ok (t\<lparr>th_pc := pc'\<rparr>)"
proof -
  have upd: "callers P res (threads[i := t\<lparr>th_pc := pc'\<rparr>]) =
        callers P res threads - of_bool (P (th_pc t)) + of_bool (P pc')"
      "background_callers P res (threads[i := t\<lparr>th_pc := pc'\<rparr>]) = background_callers P res threads
        - of_bool (\<not> th_interactive t \<and> P (th_pc t)) + of_bool (\<not> th_interactive t \<and> P pc')" for P
    using callers_update [OF i, of P res "t\<lparr>th_pc := pc'\<rparr>"] t by simp_all
  have ge: "of_bool (P (th_pc t)) \<le> callers P res threads"
      "of_bool (\<not> th_interactive t \<and> P (th_pc t)) \<le> background_callers P res threads" for P
    using callers_ge [OF i, of res P] t by simp_all
  note counts = process_step_counts [OF inv [unfolded slot_inv_counts] ge(1) ge(2) ge(1) ge(1) t(3) refl refl,
      of choice, unfolded step fst_conv snd_conv]
  show "slot_inv limits depth res (threads[i := t\<lparr>th_pc := pc'\<rparr>]) s'"
    unfolding slot_inv_counts upd by (rule counts(1))
  show "thread_ok (t\<lparr>th_pc := pc'\<rparr>)" by (rule counts(2))
qed

text \<open>Other resources do not notice.\<close>

lemma slot_inv_other:
  assumes "i < length threads" "th_resource (threads ! i) \<noteq> res" "th_resource t = th_resource (threads ! i)"
  shows "slot_inv limits depth res (threads[i := t]) s = slot_inv limits depth res threads s"
  using assms by (simp add: slot_inv_def callers_update)

lemma new_slot_inv:
  assumes "0 < depth" "\<forall>t \<in> set threads. th_resource t = res \<longrightarrow> th_pc t = PC_enter"
  shows "slot_inv limits depth res threads (new_slot limits res)"
proof -
  have "callers P res threads = 0" "background_callers P res threads = 0" if "\<not> P PC_enter" for P
    using assms(2) that unfolding callers_def background_callers_def
    by (auto simp: rowcount_def filter_empty_conv)
  then show ?thesis
    using assms(1)
    by (auto simp: slot_inv_def new_slot_def bounded_semaphore_def pc_sets split: prod.splits)
qed

lemma system_invD:
  assumes "system_inv limits depth (g, threads)"
  shows "g_slots g res = Some s \<Longrightarrow> slot_inv limits depth res threads s"
    and "g_slots g res = None \<Longrightarrow> \<forall>t \<in> set threads. th_resource t = res \<longrightarrow> th_pc t = PC_enter"
    and "t \<in> set threads \<Longrightarrow> thread_ok t" "0 < depth" "g_queue_max_depth g = depth"
proof -
  have slots: "case g_slots g res of
      None \<Rightarrow> (\<forall>t \<in> set threads. th_resource t = res \<longrightarrow> th_pc t = PC_enter)
    | Some s \<Rightarrow> slot_inv limits depth res threads s"
    using assms unfolding system_inv_def by simp
  show "g_slots g res = Some s \<Longrightarrow> slot_inv limits depth res threads s"
    and "g_slots g res = None \<Longrightarrow> \<forall>t \<in> set threads. th_resource t = res \<longrightarrow> th_pc t = PC_enter"
    using slots by simp_all
  show "t \<in> set threads \<Longrightarrow> thread_ok t" "0 < depth" "g_queue_max_depth g = depth"
    using assms unfolding system_inv_def by simp_all
qed

lemma ensure_inv:
  assumes "system_inv limits depth (g, threads)"
  shows "system_inv limits depth (ensure_process_locks g res, threads)"
proof (cases "g_slots g res")
  case None
  then have "slot_inv limits depth res threads (new_slot limits res)"
    using system_invD(2,4) [OF assms] by (intro new_slot_inv) auto
  with assms None show ?thesis by (auto simp: system_inv_def ensure_process_locks_def)
qed (use assms in \<open>simp add: ensure_process_locks_def\<close>)

lemma system_step_inv:
  assumes "system_inv limits depth s"
  shows "system_inv limits depth (system_step s e)"
proof -
  obtain g threads i choice where s: "s = (g, threads)" and e: "e = (i, choice)" by (metis surj_pair)
  show ?thesis
  proof (cases "i < length threads")
    case True
    define t where "t = threads ! i"
    define g' where "g' = ensure_process_locks g (th_resource t)"
    have inv: "system_inv limits depth (g', threads)" using assms s ensure_inv g'_def by simp
    have depth: "g_queue_max_depth g = depth" using assms s by (simp add: system_inv_def)
    obtain slot where slot: "g_slots g' (th_resource t) = Some slot"
      by (cases "g_slots g (th_resource t)") (auto simp: g'_def ensure_process_locks_def)
    obtain slot' pc' where step: "process_step depth (th_interactive t) choice (th_pc t) slot = (slot', pc')"
      by (metis surj_pair)
    have "t \<in> set threads" using True t_def by simp
    then have kept: "slot_inv limits depth (th_resource t) (threads[i := t\<lparr>th_pc := pc'\<rparr>]) slot'"
        "thread_ok (t\<lparr>th_pc := pc'\<rparr>)"
      using process_step_inv [OF system_invD(1) [OF inv slot] True t_def [symmetric] refl
          system_invD(3) [OF inv] step] by blast+
    have others: "u = t\<lparr>th_pc := pc'\<rparr> \<or> u \<in> set threads" if "u \<in> set (threads[i := t\<lparr>th_pc := pc'\<rparr>])" for u
      using that set_update_subset_insert [of threads i "t\<lparr>th_pc := pc'\<rparr>"] by auto
    have rest: "case g_slots g' res of
        None \<Rightarrow> \<forall>u \<in> set (threads[i := t\<lparr>th_pc := pc'\<rparr>]). th_resource u = res \<longrightarrow> th_pc u = PC_enter
      | Some sl \<Rightarrow> slot_inv limits depth res (threads[i := t\<lparr>th_pc := pc'\<rparr>]) sl" if "res \<noteq> th_resource t" for res
    proof (cases "g_slots g' res")
      case None
      with system_invD(2) [OF inv None] that show ?thesis by (auto dest!: others)
    next
      case (Some sl)
      with system_invD(1) [OF inv Some] that True t_def show ?thesis by (simp add: slot_inv_other)
    qed
    have "system_step s e = (g'\<lparr>g_slots := (g_slots g')(th_resource t \<mapsto> slot')\<rparr>, threads[i := t\<lparr>th_pc := pc'\<rparr>])"
      using True slot step depth by (simp add: system_step_def s e t_def g'_def Let_def)
    then show ?thesis
      using inv kept rest others by (simp add: system_inv_def) metis
  qed (use assms s e in \<open>simp add: system_step_def\<close>)
qed

text \<open>Callers that have not started yet, on a governor just built.\<close>

definition fresh_callers :: "process_thread list \<Rightarrow> bool" where
  "fresh_callers threads \<longleftrightarrow> (\<forall>t \<in> set threads. th_pc t = PC_enter)"

definition effective_limits :: "limits \<Rightarrow> limits" where
  "effective_limits limits = (if limits = [] then DEFAULT_LIMITS else limits)"

lemma governor_init_inv:
  assumes "fresh_callers threads"
  shows "system_inv (effective_limits limits) (max 1 depth) (governor_init limits depth, threads)"
proof -
  let ?g = "\<lparr>g_limits = effective_limits limits, g_queue_max_depth = max 1 depth, g_slots = (\<lambda>_. None)\<rparr>"
  have "system_inv (effective_limits limits) (max 1 depth) (?g, threads)"
    using assms by (auto simp: system_inv_def fresh_callers_def thread_ok_def)
  then have "system_inv (effective_limits limits) (max 1 depth) (foldl ensure_process_locks ?g xs, threads)" for xs
    by (rule foldl_invariant) (rule ensure_inv)
  then show ?thesis by (simp add: governor_init_def effective_limits_def Let_def)
qed

lemma process_run_inv:
  assumes "fresh_callers threads"
  shows "system_inv (effective_limits limits) (max 1 depth)
    (foldl system_step (governor_init limits depth, threads) schedule)"
  by (rule foldl_invariant [where P = "system_inv (effective_limits limits) (max 1 depth)"])
    (rule governor_init_inv [OF assms], rule system_step_inv)

lemma callers_mono:
  "(\<And>pc. P pc \<Longrightarrow> Q pc) \<Longrightarrow> callers P res threads \<le> callers Q res threads"
  "(\<And>pc. P pc \<Longrightarrow> Q pc) \<Longrightarrow> background_callers P res threads \<le> background_callers Q res threads"
  unfolding callers_def background_callers_def by (auto intro!: rowcount_mono)

text \<open>Every count is bounded, also for a resource nobody has touched yet.\<close>

lemma system_inv_bounds:
  assumes "system_inv limits depth (g, threads)"
  shows "callers holds_total res threads \<le> max 1 (fst (dict_limits limits res))"
    and "background_callers holds_background res threads
      \<le> max 0 (fst (dict_limits limits res) - snd (dict_limits limits res))"
    and "callers counted_waiting res threads \<le> depth"
proof -
  have "slot_inv limits depth res threads
      (case g_slots g res of None \<Rightarrow> new_slot limits res | Some s \<Rightarrow> s)"
    using new_slot_inv [OF system_invD(4,2) [OF assms]] system_invD(1) [OF assms, of res]
    by (cases "g_slots g res") auto
  then show "callers holds_total res threads \<le> max 1 (fst (dict_limits limits res))"
    and "background_callers holds_background res threads
      \<le> max 0 (fst (dict_limits limits res) - snd (dict_limits limits res))"
    and "callers counted_waiting res threads \<le> depth"
    by (auto simp: slot_inv_def)
qed

section \<open>Properties\<close>

definition is_held :: "acquire_pc \<Rightarrow> bool" where
  "is_held pc \<longleftrightarrow> pc = PC_held"

text \<open>Process scope: under every interleaving of callers that arrive, wait, time out, are
  cancelled and release, at most \<open>capacity\<close> permits of a resource are held at once, background
  callers hold at most \<open>capacity - reserved\<close> of them, at most \<open>queue_max_depth\<close> callers queue, and
  no semaphore is ever released too often.\<close>

theorem process_scope_bounded:
  assumes "fresh_callers threads0"
    and "foldl system_step (governor_init limits depth, threads0) schedule = (g, threads)"
  shows "callers is_held res threads \<le> max 1 (fst (dict_limits (effective_limits limits) res))
    \<and> background_callers is_held res threads
        \<le> max 0 (fst (dict_limits (effective_limits limits) res) - snd (dict_limits (effective_limits limits) res))
    \<and> callers counted_waiting res threads \<le> max 1 depth
    \<and> (\<forall>t \<in> set threads. th_pc t \<noteq> PC_error)"
proof -
  have inv: "system_inv (effective_limits limits) (max 1 depth) (g, threads)"
    using process_run_inv [OF assms(1), of limits depth schedule] assms(2) by simp
  have "callers is_held res threads \<le> callers holds_total res threads"
    "background_callers is_held res threads \<le> background_callers holds_background res threads"
    by (rule callers_mono; auto simp: is_held_def pc_sets)+
  with system_inv_bounds [OF inv, of res] inv show ?thesis
    by (auto simp: system_inv_def thread_ok_def)
qed

definition demo_callers :: "process_thread list" where
  "demo_callers = [\<lparr>th_resource = ''ocr'', th_interactive = False, th_pc = PC_enter\<rparr>,
                   \<lparr>th_resource = ''ocr'', th_interactive = True, th_pc = PC_enter\<rparr>]"

text \<open>The first caller takes the only slot, the second times out, the first releases.\<close>

definition demo_schedule :: "(nat \<times> wait_choice) list" where
  "demo_schedule = [(0, Proceed), (0, Proceed), (0, Proceed), (0, Proceed), (0, Proceed), (1, Proceed), (1, Proceed),
     (1, Deadline_passed), (1, Proceed)]"

definition demo_limits :: limits where
  "demo_limits = [(''ocr'', 1, 0)]"

lemmas demo_process_simps = demo_callers_def demo_schedule_def demo_limits_def system_step_def governor_init_def
  ensure_process_locks_def new_slot_def dict_limits_def bounded_semaphore_def sem_acquire_def sem_release_def
  reject_def fresh_callers_def effective_limits_def Let_def

lemma demo_process_run:
  "map th_pc (snd (foldl system_step (governor_init demo_limits 4, demo_callers) demo_schedule)) =
     [PC_held, PC_rejected ''deadline'']"
  "map th_pc (snd (foldl system_step (governor_init demo_limits 4, demo_callers)
       (demo_schedule @ replicate 3 (0, Proceed)))) = [PC_done, PC_rejected ''deadline'']"
  by (simp_all add: demo_process_simps numeral_3_eq_3)

theorem process_scope_bounded_witness:
  "\<exists>g threads. foldl system_step (governor_init demo_limits 4, demo_callers) demo_schedule = (g, threads)
     \<and> map th_pc threads = [PC_held, PC_rejected ''deadline''] \<and> callers is_held ''ocr'' threads \<le> 1"
proof -
  obtain g threads where run: "foldl system_step (governor_init demo_limits 4, demo_callers) demo_schedule = (g, threads)"
    by (metis surj_pair)
  have "fresh_callers demo_callers" by (simp add: demo_callers_def fresh_callers_def)
  from process_scope_bounded [OF this run, of "''ocr''"] run demo_process_run(1) show ?thesis
    by (auto simp: effective_limits_def demo_limits_def dict_limits_def)
qed

definition is_finished :: "acquire_pc \<Rightarrow> bool" where
  "is_finished pc \<longleftrightarrow> pc = PC_done \<or> (\<exists>reason. pc = PC_rejected reason)"

text \<open>C7. No capacity leaks: once every caller of a resource has been rejected or has released its
  permit, on whatever path, the semaphores are full again and the counters are zero.\<close>

theorem process_scope_no_leak:
  assumes "fresh_callers threads0"
    and "foldl system_step (governor_init limits depth, threads0) schedule = (g, threads)"
    and "\<forall>t \<in> set threads. th_resource t = res \<longrightarrow> is_finished (th_pc t)"
    and "g_slots g res = Some s"
  shows "s = new_slot (effective_limits limits) res"
proof -
  have inv: "slot_inv (effective_limits limits) (max 1 depth) res threads s"
    using process_run_inv [OF assms(1), of limits depth schedule] assms(2,4)
    by (auto intro: system_invD(1))
  have none: "callers P res threads = 0" "background_callers P res threads = 0" if "\<And>pc. P pc \<Longrightarrow> \<not> is_finished pc" for P
    using assms(3) that unfolding callers_def background_callers_def
    by (auto simp: rowcount_def filter_empty_conv)
  have "callers holds_total res threads = 0" "background_callers holds_background res threads = 0"
    "callers counted_active res threads = 0" "callers counted_waiting res threads = 0"
    by (rule none; auto simp: pc_sets is_finished_def)+
  with inv have
    "s_total s = bounded_semaphore (max 1 (fst (dict_limits (effective_limits limits) res)))"
    "s_background s = bounded_semaphore (max 0 (fst (dict_limits (effective_limits limits) res)
       - snd (dict_limits (effective_limits limits) res)))"
    "s_waiters s = 0" "s_active s = 0"
    by (auto simp: slot_inv_def bounded_semaphore_def intro!: semaphore.equality)
  then show ?thesis
    by (cases "dict_limits (effective_limits limits) res")
      (simp add: new_slot_def)
qed

theorem process_scope_no_leak_witness:
  "\<exists>g threads. foldl system_step (governor_init demo_limits 4, demo_callers)
       (demo_schedule @ replicate 3 (0, Proceed)) = (g, threads)
     \<and> g_slots g ''ocr'' = Some (new_slot demo_limits ''ocr'')"
proof -
  obtain g threads where run: "foldl system_step (governor_init demo_limits 4, demo_callers)
       (demo_schedule @ replicate 3 (0, Proceed)) = (g, threads)"
    by (metis surj_pair)
  have fresh: "fresh_callers demo_callers" by (simp add: demo_callers_def fresh_callers_def)
  obtain s where s: "g_slots g ''ocr'' = Some s"
    using run by (auto simp: demo_process_simps numeral_3_eq_3)
  have "map th_pc threads = [PC_done, PC_rejected ''deadline'']" using run demo_process_run(2) by simp
  then have "set (map th_pc threads) = {PC_done, PC_rejected ''deadline''}" by simp
  then have "\<forall>t \<in> set threads. th_resource t = ''ocr'' \<longrightarrow> is_finished (th_pc t)"
    unfolding is_finished_def by auto
  from process_scope_no_leak [OF fresh run this s] s run show ?thesis
    by (simp add: effective_limits_def demo_limits_def)
qed

definition interactive_holding :: "string \<Rightarrow> process_thread list \<Rightarrow> int" where
  "interactive_holding res threads =
     int (rowcount (\<lambda>t. th_resource t = res \<and> th_interactive t \<and> holds_total (th_pc t)) threads)"

lemma holding_split:
  "callers P res threads = background_callers P res threads
     + int (rowcount (\<lambda>t. th_resource t = res \<and> th_interactive t \<and> P (th_pc t)) threads)"
  unfolding callers_def background_callers_def by (induction threads) auto

text \<open>The interactive reserve: when fewer interactive callers hold a slot than the reserve, the
  total semaphore is free, so a waiting interactive caller is admitted at its next attempt no
  matter how many background callers compete.\<close>

theorem interactive_reserve_available:
  assumes "fresh_callers threads0"
    and "foldl system_step (governor_init limits depth, threads0) schedule = (g, threads)"
    and "dict_limits (effective_limits limits) res = (capacity, reserved)" "0 < reserved" "reserved \<le> capacity"
    and "interactive_holding res threads < reserved"
    and "g_slots g res = Some s"
  shows "\<exists>s'. process_step (g_queue_max_depth g) True Proceed PC_wait_total s = (s', PC_count)"
proof -
  have inv: "slot_inv (effective_limits limits) (max 1 depth) res threads s"
    using process_run_inv [OF assms(1), of limits depth schedule] assms(2,7)
    by (auto intro: system_invD(1))
  have "background_callers holds_total res threads \<le> background_callers holds_background res threads"
    by (rule callers_mono(2)) (auto simp: pc_sets)
  then have "0 < sem_value (s_total s)"
    using inv assms(3-6) holding_split [of holds_total res threads]
    by (auto simp: slot_inv_def interactive_holding_def)
  then show ?thesis by (simp add: sem_acquire_def)
qed

theorem interactive_reserve_available_witness:
  "\<exists>g threads s s'. foldl system_step (governor_init [(''llm'', 2, 1)] 4,
        [\<lparr>th_resource = ''llm'', th_interactive = False, th_pc = PC_enter\<rparr>]) (replicate 5 (0, Proceed)) = (g, threads)
     \<and> map th_pc threads = [PC_held] \<and> g_slots g ''llm'' = Some s
     \<and> process_step (g_queue_max_depth g) True Proceed PC_wait_total s = (s', PC_count)"
proof -
  let ?ts = "[\<lparr>th_resource = ''llm'', th_interactive = False, th_pc = PC_enter\<rparr>]"
  obtain g threads where run: "foldl system_step (governor_init [(''llm'', 2, 1)] 4, ?ts) (replicate 5 (0, Proceed)) = (g, threads)"
    by (metis surj_pair)
  then obtain s where s: "g_slots g ''llm'' = Some s" "map th_pc threads = [PC_held]" "map th_interactive threads = [False]"
    by (auto simp: demo_process_simps eval_nat_numeral)
  then have "interactive_holding ''llm'' threads < 1"
    by (auto simp: interactive_holding_def rowcount_def Cons_eq_map_conv)
  from interactive_reserve_available [OF _ run _ _ _ this s(1), of 2] run s show ?thesis
    by (auto simp: fresh_callers_def effective_limits_def dict_limits_def)
qed

end
