(* ===== verification/Governor_Deployment.thy ===== *)
theory Governor_Deployment
  imports Governor_Process Quota_Postgres
begin

text \<open>
  The deployment scope of \<open>ResourceGovernor\<close> and the permit object callers hold
  (\<open>core/concurrency/resource_governor.py\<close>): the polling loop of \<open>_acquire_deployment\<close>, the
  permit's \<open>release\<close> / \<open>renew\<close> / \<open>finish\<close> / \<open>reconcile\<close>, the cancellation handles and the
  \<open>governor_acquire\<close> context manager.

  The loop is a recursion over what the environment offers to each of its rounds: the transactions
  other processes committed in the meantime, whether the caller was cancelled, the answer of the
  database lock, the clocks, the fresh identifier, and whether the deadline has passed afterwards.
  \<open>None\<close> means that the offered rounds are used up and the caller still waits.
\<close>

section \<open>The store a governor is given\<close>

record store_api =
  st_escalated :: "quota_db \<Rightarrow> string set"
  st_try_acquire :: "lock_outcome \<Rightarrow> time \<Rightarrow> time \<Rightarrow> string \<Rightarrow> acquire_request \<Rightarrow> quota_db
     \<Rightarrow> (gov_error + string option) \<times> quota_db"
  st_step :: "quota_db \<Rightarrow> quota_op \<Rightarrow> quota_db"
  st_release :: "string \<Rightarrow> quota_db \<Rightarrow> quota_db"
  st_renew :: "time \<Rightarrow> string \<Rightarrow> quota_db \<Rightarrow> bool \<times> quota_db"
  st_finish :: "time \<Rightarrow> string \<Rightarrow> string \<Rightarrow> string \<Rightarrow> string \<Rightarrow> quota_db \<Rightarrow> (gov_error + bool) \<times> quota_db"
  st_release_uncertain :: "time \<Rightarrow> string \<Rightarrow> string \<Rightarrow> string \<Rightarrow> string \<Rightarrow> quota_db \<Rightarrow> (gov_error + bool) \<times> quota_db"

definition sqlite_store :: "store_config \<Rightarrow> store_api" where
  "sqlite_store cfg = \<lparr>st_escalated = sq_escalated_resources, st_try_acquire = sq_try_acquire cfg,
     st_step = sq_step cfg, st_release = sq_release, st_renew = sq_renew cfg, st_finish = sq_finish,
     st_release_uncertain = sq_release_uncertain\<rparr>"

definition postgres_store :: "store_config \<Rightarrow> store_api" where
  "postgres_store cfg = \<lparr>st_escalated = pg_escalated_resources, st_try_acquire = (\<lambda>lock now now_reap. pg_try_acquire cfg lock now_reap),
     st_step = pg_step cfg, st_release = pg_release, st_renew = pg_renew cfg, st_finish = pg_finish,
     st_release_uncertain = pg_release_uncertain\<rparr>"

section \<open>Acquisition\<close>

record round =
  rd_others :: "quota_op list"
  rd_cancelled :: bool
  rd_lock :: lock_outcome
  rd_now :: time
  rd_now_reap :: time
  rd_id :: string
  rd_deadline :: bool

fun acquire_loop :: "store_api \<Rightarrow> acquire_request \<Rightarrow> round list \<Rightarrow> quota_db
    \<Rightarrow> (gov_error + string) option \<times> quota_db" where
  "acquire_loop st rq [] db = (None, db)"
| "acquire_loop st rq (r # rounds) db =
     (let db0 = foldl (st_step st) db (rd_others r) in
      if rd_cancelled r then (Some (Inl (Governor_rejected (r_resource rq) ''cancelled'')), db0)
      else case st_try_acquire st (rd_lock r) (rd_now r) (rd_now_reap r) (rd_id r) rq db0 of
             (Inl e, db1) \<Rightarrow> (Some (Inl e), db1)
           | (Inr (Some pid), db1) \<Rightarrow> (Some (Inr pid), db1)
           | (Inr None, db1) \<Rightarrow>
               if rd_deadline r then (Some (Inl (Governor_rejected (r_resource rq) ''deadline'')), db1)
               else acquire_loop st rq rounds db1)"

definition deployment_request :: "limits \<Rightarrow> string \<Rightarrow> bool \<Rightarrow> string \<Rightarrow> string \<Rightarrow> acquire_request" where
  "deployment_request limits resource interactive owner_id attempt_id =
     (case limits_for limits resource of (capacity, reserved) \<Rightarrow>
        \<lparr>r_resource = resource, r_capacity = capacity, r_reserved = reserved, r_interactive = interactive,
         r_owner_id = owner_id, r_attempt_id = attempt_id\<rparr>)"

definition acquire_deployment :: "store_api \<Rightarrow> limits \<Rightarrow> string \<Rightarrow> bool \<Rightarrow> string \<Rightarrow> string
    \<Rightarrow> round list \<Rightarrow> quota_db \<Rightarrow> (gov_error + string) option \<times> quota_db" where
  "acquire_deployment st limits resource interactive owner_id attempt_id rounds db =
     (if resource \<in> st_escalated st db then
        (Some (Inl (Governor_rejected resource ''uncertain_escalated'')), db)
      else acquire_loop st (deployment_request limits resource interactive owner_id attempt_id) rounds db)"

text \<open>\<open>acquire\<close> normalizes the resource name before either scope is entered.\<close>

definition normalize_resource :: "string \<Rightarrow> string" where
  "normalize_resource resource = py_lower (py_strip resource)"

definition governor_acquire_deployment :: "store_api \<Rightarrow> limits \<Rightarrow> string \<Rightarrow> bool \<Rightarrow> string \<Rightarrow> string
    \<Rightarrow> round list \<Rightarrow> quota_db \<Rightarrow> (gov_error + string) option \<times> quota_db" where
  "governor_acquire_deployment st limits resource interactive owner_id attempt_id rounds db =
     acquire_deployment st limits (normalize_resource resource) interactive owner_id attempt_id rounds db"

text \<open>The handles of queued acquisitions: registered by \<open>acquire\<close>, set by \<open>cancel_wait\<close>, dropped in its
  \<open>finally\<close>.\<close>

type_synonym wait_cancels = "string \<rightharpoonup> bool"

definition register_wait :: "string \<Rightarrow> wait_cancels \<Rightarrow> wait_cancels" where
  "register_wait request_id cancels = (if request_id = '''' then cancels else cancels(request_id \<mapsto> False))"

definition cancel_wait :: "string \<Rightarrow> wait_cancels \<Rightarrow> bool \<times> wait_cancels" where
  "cancel_wait request_id cancels =
     (case cancels request_id of None \<Rightarrow> (False, cancels) | Some _ \<Rightarrow> (True, cancels(request_id \<mapsto> True)))"

definition unregister_wait :: "string \<Rightarrow> wait_cancels \<Rightarrow> wait_cancels" where
  "unregister_wait request_id cancels = (if request_id = '''' then cancels else cancels(request_id := None))"

section \<open>The permit\<close>

record governor_permit =
  gp_id :: string
  gp_resource :: string
  gp_interactive :: bool
  gp_released :: bool

definition permit_release :: "store_api \<Rightarrow> governor_permit \<times> quota_db \<Rightarrow> governor_permit \<times> quota_db" where
  "permit_release st = (\<lambda>(permit, db).
     if gp_released permit then (permit, db)
     else (permit\<lparr>gp_released := True\<rparr>, st_release st (gp_id permit) db))"

definition permit_renew :: "store_api \<Rightarrow> time \<Rightarrow> governor_permit \<Rightarrow> quota_db \<Rightarrow> bool \<times> quota_db" where
  "permit_renew st now permit db = st_renew st now (gp_id permit) db"

definition permit_finish :: "store_api \<Rightarrow> time \<Rightarrow> string \<Rightarrow> string \<Rightarrow> string \<Rightarrow> governor_permit \<Rightarrow> quota_db
    \<Rightarrow> (gov_error + bool) \<times> quota_db" where
  "permit_finish st now outcome evidence reason permit db = st_finish st now (gp_id permit) outcome evidence reason db"

definition permit_reconcile :: "store_api \<Rightarrow> time \<Rightarrow> string \<Rightarrow> string \<Rightarrow> string \<Rightarrow> governor_permit \<Rightarrow> quota_db
    \<Rightarrow> (gov_error + bool) \<times> quota_db" where
  "permit_reconcile st now evidence reason operator permit db =
     st_release_uncertain st now (gp_id permit) evidence reason operator db"

text \<open>\<open>governor_acquire\<close>: the block runs while other processes go on, and whether it returns or raises
  the permit is released on the way out.  \<open>released_inside\<close> says that the block already called
  \<open>release\<close> itself.\<close>

definition governor_acquire :: "store_api \<Rightarrow> bool \<Rightarrow> limits \<Rightarrow> string \<Rightarrow> bool \<Rightarrow> string \<Rightarrow> string
    \<Rightarrow> round list \<Rightarrow> quota_op list \<Rightarrow> quota_op list \<Rightarrow> bool \<Rightarrow> quota_db
    \<Rightarrow> (gov_error + string option) option \<times> quota_db" where
  "governor_acquire st enabled limits resource interactive owner_id attempt_id rounds block rest released_inside db =
     (if \<not> enabled then (Some (Inr None), foldl (st_step st) db (block @ rest))
      else case governor_acquire_deployment st limits resource interactive owner_id attempt_id rounds db of
             (None, db1) \<Rightarrow> (None, db1)
           | (Some (Inl e), db1) \<Rightarrow> (Some (Inl e), db1)
           | (Some (Inr pid), db1) \<Rightarrow>
               (let permit = \<lparr>gp_id = pid, gp_resource = normalize_resource resource, gp_interactive = interactive,
                              gp_released = False\<rparr>;
                    db2 = foldl (st_step st) db1 block;
                    (permit3, db3) = (if released_inside then permit_release st (permit, db2) else (permit, db2));
                    db4 = foldl (st_step st) db3 rest
                in (Some (Inr (Some pid)), snd (permit_release st (permit3, db4)))))"

section \<open>What the governor relies on\<close>

text \<open>Identifiers a transaction may add to the permit table.\<close>

fun new_ids :: "quota_op \<Rightarrow> string set" where
  "new_ids (Try_acquire lock now now_reap new_id rq) = {new_id}"
| "new_ids e = {}"

lemma step_ok_ids:
  assumes "step_ok e db db'"
  shows "p_id ` set (permits db') \<subseteq> p_id ` set (permits db) \<union> new_ids e"
proof -
  have same: "p_id ` set (permits b) = p_id ` set (permits a)" if "keeps_load a b" for a b
    using that by (metis keeps_load_def set_map)
  show ?thesis using assms same by (fastforce simp: step_ok_def admits_def)
qed

text \<open>A store for the governor is a set of permit tables whose admission and release are the
  transactions the other processes see.\<close>

locale governor_store = permit_tables "st_step st" for st :: store_api +
  assumes try_is_step: "snd (st_try_acquire st lock now now_reap new_id rq db)
          = st_step st db (Try_acquire lock now now_reap new_id rq)"
    and try_granted: "st_try_acquire st lock now now_reap new_id rq db = (Inr (Some i), db') \<Longrightarrow>
          i = new_id \<and> (\<exists>db1. keeps_load db db1 \<and> admits rq new_id db1 db')"
    and try_refused: "st_try_acquire st lock now now_reap new_id rq db = (out, db') \<Longrightarrow>
          \<forall>i. out \<noteq> Inr (Some i) \<Longrightarrow> keeps_load db db'"
    and release_is_step: "st_release st pid db = st_step st db (Release pid)"
    and release_frees: "p \<in> set (permits (st_release st pid db)) \<Longrightarrow> p_id p = pid \<Longrightarrow> p_state p = Released"
begin

lemma steps_inv: "quota_inv db \<Longrightarrow> quota_inv (foldl (st_step st) db es)"
  by (rule foldl_invariant) (auto intro: step_ok_inv each_step_ok)

text \<open>The loop is nothing but transactions on the store, all under the quota of the request.\<close>

lemma loop_is_run:
  assumes "\<forall>r \<in> set rounds. \<forall>e \<in> set (rd_others r). uses_quota limits e"
    and "limits (r_resource rq) = (r_capacity rq, r_reserved rq)"
  shows "\<exists>es. snd (acquire_loop st rq rounds db) = foldl (st_step st) db es \<and> (\<forall>e \<in> set es. uses_quota limits e)"
  using assms
proof (induction rounds arbitrary: db)
  case Nil
  then show ?case by (auto intro: exI [of _ "[]"])
next
  case (Cons r rounds)
  define db0 where "db0 = foldl (st_step st) db (rd_others r)"
  define e where "e = Try_acquire (rd_lock r) (rd_now r) (rd_now_reap r) (rd_id r) rq"
  obtain out db1 where tried: "st_try_acquire st (rd_lock r) (rd_now r) (rd_now_reap r) (rd_id r) rq db0 = (out, db1)"
    by fastforce
  then have db1: "db1 = foldl (st_step st) db (rd_others r @ [e])"
    using try_is_step [of "rd_lock r" "rd_now r" "rd_now_reap r" "rd_id r" rq db0] by (simp add: db0_def e_def)
  obtain es where es: "snd (acquire_loop st rq rounds db1) = foldl (st_step st) db1 es" "\<forall>e \<in> set es. uses_quota limits e"
    using Cons.IH [of db1] Cons.prems by auto
  have uses: "\<forall>e \<in> set (rd_others r @ [e]). uses_quota limits e" using Cons.prems by (auto simp: e_def)
  have "snd (acquire_loop st rq (r # rounds) db) \<in> {db0, db1, snd (acquire_loop st rq rounds db1)}"
    using tried by (auto simp: db0_def Let_def split: sum.splits option.splits)
  moreover have "snd (acquire_loop st rq rounds db1) = foldl (st_step st) db ((rd_others r @ [e]) @ es)"
    using es(1) unfolding db1 by (simp only: foldl_append)
  moreover have "\<forall>e \<in> set ((rd_others r @ [e]) @ es). uses_quota limits e" using uses es(2) by auto
  moreover have "\<forall>e \<in> set (rd_others r). uses_quota limits e" using uses by auto
  ultimately show ?case using uses db1 db0_def by (elim insertE emptyE) metis+
qed

text \<open>A granted caller owns an active row under the identifier of one of its rounds; any other
  outcome leaves no row under any of its identifiers.\<close>

lemma steps_ids: "p_id ` set (permits (foldl (st_step st) db es)) \<subseteq> p_id ` set (permits db) \<union> \<Union> (new_ids ` set es)"
proof (induction es arbitrary: db)
  case (Cons e es)
  have "p_id ` set (permits (st_step st db e)) \<subseteq> p_id ` set (permits db) \<union> new_ids e"
    by (rule step_ok_ids [OF each_step_ok])
  with Cons [of "st_step st db e"] show ?case by auto
qed simp

lemma loop_outcome:
  assumes "quota_inv db" "ids \<inter> p_id ` set (permits db) = {}" "rd_id ` set rounds \<subseteq> ids"
    and "\<forall>r \<in> set rounds. \<forall>e \<in> set (rd_others r). ids \<inter> new_ids e = {}"
    and "acquire_loop st rq rounds db = (out, db')"
  shows "quota_inv db' \<and>
    (case out of
       Some (Inr pid) \<Rightarrow> pid \<in> ids
         \<and> (\<exists>p \<in> set (permits db'). p_id p = pid \<and> p_resource p = r_resource rq \<and> p_state p = Active)
     | _ \<Rightarrow> ids \<inter> p_id ` set (permits db') = {})"
  using assms
proof (induction rounds arbitrary: db)
  case (Cons r rounds)
  define db0 where "db0 = foldl (st_step st) db (rd_others r)"
  obtain res db1 where tried: "st_try_acquire st (rd_lock r) (rd_now r) (rd_now_reap r) (rd_id r) rq db0 = (res, db1)"
    by fastforce
  have fresh0: "ids \<inter> p_id ` set (permits db0) = {}"
  proof -
    have "ids \<inter> (p_id ` set (permits db) \<union> \<Union> (new_ids ` set (rd_others r))) = {}" using Cons.prems(2,4) by auto
    with steps_ids [of db "rd_others r"] show ?thesis unfolding db0_def by blast
  qed
  have inv0: "quota_inv db0" unfolding db0_def using Cons.prems(1) by (rule steps_inv)
  consider (cancelled) "rd_cancelled r"
    | (granted) i where "\<not> rd_cancelled r" "res = Inr (Some i)"
    | (refused) "\<not> rd_cancelled r" "\<forall>i. res \<noteq> Inr (Some i)" by blast
  then show ?case
  proof cases
    case cancelled
    then show ?thesis using Cons.prems(5) inv0 fresh0 by (auto simp: db0_def Let_def)
  next
    case granted
    then obtain db2 where db2: "i = rd_id r" "keeps_load db0 db2" "admits rq (rd_id r) db2 db1"
      using try_granted tried by blast
    then have "quota_inv db1" using inv0 admits_inv by (auto simp: keeps_load_def)
    moreover have "out = Some (Inr (rd_id r))" "db' = db1"
      using Cons.prems(5) tried granted db2(1) by (auto simp: db0_def Let_def)
    ultimately show ?thesis using db2(3) Cons.prems(3) by (auto simp: admits_def)
  next
    case refused
    then have kept: "keeps_load db0 db1" using try_refused [OF tried] by blast
    then have "set (map p_id (permits db1)) = set (map p_id (permits db0))" by (metis keeps_load_def)
    then have fresh1: "ids \<inter> p_id ` set (permits db1) = {}" using fresh0 by simp
    have inv1: "quota_inv db1" using kept inv0 by (auto simp: keeps_load_def)
    show ?thesis
    proof (cases "res = Inr None \<and> \<not> rd_deadline r")
      case True
      then have "acquire_loop st rq rounds db1 = (out, db')"
        using Cons.prems(5) tried refused(1) by (auto simp: db0_def Let_def)
      with Cons.IH [OF inv1 fresh1] Cons.prems(3,4) show ?thesis by auto
    next
      case False
      then have "\<exists>e. out = Some (Inl e)" "db' = db1"
        using Cons.prems(5) tried refused by (auto simp: db0_def Let_def split: sum.splits option.splits if_splits)
      with inv1 fresh1 show ?thesis by auto
    qed
  qed
qed simp

text \<open>The loop ends as soon as a round is cancelled or past the deadline.\<close>

lemma loop_returns:
  assumes "\<exists>r \<in> set rounds. rd_cancelled r \<or> rd_deadline r"
  shows "\<exists>out db'. acquire_loop st rq rounds db = (Some out, db')"
  using assms by (induction rounds arbitrary: db) (auto simp: Let_def split: prod.splits sum.splits option.splits)

lemma released_stays:
  assumes "quota_inv db" "q \<in> set (permits db)" "p_id q = pid" "p_state q = Released"
    and "p \<in> set (permits (foldl (st_step st) db es))" "p_id p = pid"
  shows "p_state p = Released"
proof -
  obtain q' where "q' \<in> set (permits (foldl (st_step st) db es))" "p_id q' = p_id q" "p_state q' = Released"
    using run_released_stays [OF assms(2,4)] .
  moreover have "quota_inv (foldl (st_step st) db es)" by (rule steps_inv [OF assms(1)])
  ultimately show ?thesis
    using assms(3,5,6) distinct_key_unique [of p_id "permits (foldl (st_step st) db es)" q' p]
    by (simp add: quota_inv_def)
qed

text \<open>The row of a permit survives every transaction.\<close>

lemma row_survives:
  assumes "p \<in> set (permits db)"
  obtains p' where "p' \<in> set (permits (foldl (st_step st) db es))" "p_id p' = p_id p" "p_resource p' = p_resource p"
proof -
  obtain p' where "p' \<in> set (permits (foldl (st_step st) db es))" "row_advances p p'"
    using run_advances [of db es] assms by (rule table_advances_member)
  with that show ?thesis by (auto simp: row_advances_def)
qed

lemma release_inv: "quota_inv db \<Longrightarrow> quota_inv (st_release st pid db)"
  unfolding release_is_step using steps_inv [of db "[Release pid]"] by simp

lemma release_row:
  assumes "p \<in> set (permits db)" "p_id p = pid"
  shows "\<exists>p' \<in> set (permits (st_release st pid db)). p_id p' = pid \<and> p_resource p' = p_resource p \<and> p_state p' = Released"
  using row_survives [OF assms(1), of "[Release pid]"] release_frees assms(2)
  unfolding release_is_step by (metis foldl_Cons foldl_Nil)

end

section \<open>Both stores serve the governor\<close>

lemma release_frees_row:
  assumes "p \<in> set (permits (sq_release pid db))" "p_id p = pid"
  shows "p_state p = Released"
proof -
  let ?f = "\<lambda>r. if p_id r = pid \<and> p_state r \<in> {Active, Uncertain} then r\<lparr>p_state := Released\<rparr> else r"
  have "p \<in> ?f ` set (permits db)" using assms(1) by (simp add: sq_release_def set_update_where)
  then obtain r where "p = ?f r" by (rule imageE)
  with assms(2) show ?thesis by (cases "p_state r") (auto split: if_splits)
qed

interpretation sqg: governor_store "sqlite_store cfg" for cfg
proof (unfold_locales, goal_cases)
  case (1 e db)
  show ?case by (simp add: sqlite_store_def sq_step_ok)
next
  case (2 lock now now_reap new_id rq db)
  show ?case by (simp add: sqlite_store_def)
next
  case (3 lock now now_reap new_id rq db i db')
  then have "sq_try_acquire cfg lock now now_reap new_id rq db = (Inr (Some i), db')" by (simp add: sqlite_store_def)
  then show ?case by (cases rule: sq_try_acquire_cases) (auto intro: sq_reap_keeps)
next
  case (4 lock now now_reap new_id rq db out db')
  then have "sq_try_acquire cfg lock now now_reap new_id rq db = (out, db')" by (simp add: sqlite_store_def)
  then show ?case using 4(2) by (cases rule: sq_try_acquire_cases) auto
next
  case (5 pid db)
  show ?case by (simp add: sqlite_store_def)
next
  case (6 p pid db)
  then show ?case using release_frees_row by (simp add: sqlite_store_def)
qed

interpretation pgg: governor_store "postgres_store cfg" for cfg
proof (unfold_locales, goal_cases)
  case (1 e db)
  show ?case by (simp add: postgres_store_def pg_step_ok)
next
  case (2 lock now now_reap new_id rq db)
  show ?case by (simp add: postgres_store_def)
next
  case (3 lock now now_reap new_id rq db i db')
  then have "pg_try_acquire cfg lock now_reap new_id rq db = (Inr (Some i), db')" by (simp add: postgres_store_def)
  then show ?case by (cases rule: pg_try_acquire_cases) (auto intro: pg_reap_keeps)
next
  case (4 lock now now_reap new_id rq db out db')
  then have "pg_try_acquire cfg lock now_reap new_id rq db = (out, db')" by (simp add: postgres_store_def)
  then show ?case using 4(2) by (cases rule: pg_try_acquire_cases) auto
next
  case (5 pid db)
  show ?case by (simp add: postgres_store_def)
next
  case (6 p pid db)
  then show ?case using release_frees_row by (simp add: postgres_store_def pg_release_eq)
qed

section \<open>Properties\<close>

text \<open>C8. A deployment acquisition is sound on every path: a granted caller owns an active permit of
  its resource under one of the identifiers it generated, and a caller that is rejected (escalated,
  cancelled, past its deadline), that fails, or that still waits leaves no permit behind.\<close>

theorem deployment_acquire_sound:
  assumes "quota_inv db"
    and "\<forall>r \<in> set rounds. rd_id r \<notin> p_id ` set (permits db)"
    and "\<forall>r \<in> set rounds. \<forall>e \<in> set (rd_others r). rd_id ` set rounds \<inter> new_ids e = {}"
    and "acquire_deployment (sqlite_store cfg) limits resource interactive owner_id attempt_id rounds db = (out, db')"
  shows "(\<forall>pid. out = Some (Inr pid) \<longrightarrow> pid \<in> rd_id ` set rounds \<and>
            (\<exists>p \<in> set (permits db'). p_id p = pid \<and> p_resource p = resource \<and> p_state p = Active))
    \<and> ((\<forall>pid. out \<noteq> Some (Inr pid)) \<longrightarrow> rd_id ` set rounds \<inter> p_id ` set (permits db') = {})"
proof (cases "resource \<in> st_escalated (sqlite_store cfg) db")
  case True
  with assms(2,4) show ?thesis by (auto simp: acquire_deployment_def)
next
  case False
  let ?rq = "deployment_request limits resource interactive owner_id attempt_id"
  have "acquire_loop (sqlite_store cfg) ?rq rounds db = (out, db')"
    using assms(4) False by (simp add: acquire_deployment_def)
  moreover have "rd_id ` set rounds \<inter> p_id ` set (permits db) = {}" using assms(2) by auto
  moreover have "r_resource ?rq = resource" by (simp add: deployment_request_def split: prod.splits)
  ultimately show ?thesis
    using sqg.loop_outcome [OF assms(1) _ subset_refl assms(3), of cfg ?rq out db']
    by (auto split: option.splits sum.splits)
qed

definition demo_round :: "string \<Rightarrow> bool \<Rightarrow> round" where
  "demo_round pid deadline = \<lparr>rd_others = [], rd_cancelled = False, rd_lock = Lock_granted, rd_now = 0, rd_now_reap = 0,
     rd_id = pid, rd_deadline = deadline\<rparr>"

definition demo_store_config :: store_config where
  "demo_store_config = \<lparr>c_lease_seconds = 300, c_deployment_id = ''local'', c_config_revision = '''',
     c_require_preconfigured = False\<rparr>"

lemma demo_deployment_run:
  "\<exists>db1 db2. acquire_deployment (sqlite_store demo_store_config) [(''ocr'', 1, 0)] ''ocr'' True '''' ''''
       [demo_round ''p1'' True] empty_quota_db = (Some (Inr ''p1''), db1)
   \<and> acquire_deployment (sqlite_store demo_store_config) [(''ocr'', 1, 0)] ''ocr'' True '''' ''''
       [demo_round ''p2'' False, demo_round ''p3'' True] db1 = (Some (Inl (Governor_rejected ''ocr'' ''deadline'')), db2)"
  by (auto simp: acquire_deployment_def sqlite_store_def sq_escalated_resources_def empty_quota_db_def demo_round_def
      deployment_request_def limits_for_def sq_try_acquire_def sq_reap_expired_def sq_expired_def Let_def
      demo_store_config_def seconds_def sql_datetime_def)

theorem deployment_acquire_sound_witness:
  "\<exists>db'. acquire_deployment (sqlite_store demo_store_config) [(''ocr'', 1, 0)] ''ocr'' True '''' ''''
       [demo_round ''p1'' True] empty_quota_db = (Some (Inr ''p1''), db')
   \<and> (\<exists>p \<in> set (permits db'). p_id p = ''p1'' \<and> p_resource p = ''ocr'' \<and> p_state p = Active)"
proof -
  obtain db1 where run: "acquire_deployment (sqlite_store demo_store_config) [(''ocr'', 1, 0)] ''ocr'' True '''' ''''
       [demo_round ''p1'' True] empty_quota_db = (Some (Inr ''p1''), db1)"
    using demo_deployment_run by blast
  from deployment_acquire_sound [OF quota_inv_empty _ _ run] run show ?thesis
    by (auto simp: empty_quota_db_def demo_round_def)
qed

text \<open>The polling loop returns: as soon as a round sees the cancellation or the deadline, the
  acquisition has a result, whatever the other processes and the database do.\<close>

theorem deployment_acquire_returns:
  assumes "\<exists>r \<in> set rounds. rd_cancelled r \<or> rd_deadline r"
  shows "\<exists>out db'. acquire_deployment (postgres_store cfg) limits resource interactive owner_id attempt_id rounds db
    = (Some out, db')"
  using pgg.loop_returns [OF assms] by (auto simp: acquire_deployment_def)

theorem deployment_acquire_returns_witness:
  "(\<exists>r \<in> set [demo_round ''p1'' True]. rd_cancelled r \<or> rd_deadline r)
   \<and> (\<exists>out db'. acquire_deployment (postgres_store demo_store_config) [] ''ocr'' True '''' '''' [demo_round ''p1'' True]
        empty_quota_db = (Some out, db'))"
  using deployment_acquire_returns [of "[demo_round ''p1'' True]" demo_store_config "[]" "''ocr''"]
  by (simp add: demo_round_def)

text \<open>Leaving \<open>governor_acquire\<close> gives the capacity back: whatever transactions the block and the
  other processes run, whether or not the block released the permit itself, afterwards the
  permit's row is \<open>released\<close>.\<close>

theorem context_exit_releases:
  assumes "quota_inv db"
    and "\<forall>r \<in> set rounds. rd_id r \<notin> p_id ` set (permits db)"
    and "\<forall>r \<in> set rounds. \<forall>e \<in> set (rd_others r). rd_id ` set rounds \<inter> new_ids e = {}"
    and "governor_acquire (sqlite_store cfg) True limits resource interactive owner_id attempt_id rounds block rest
           released_inside db = (Some (Inr (Some pid)), db')"
  shows "quota_inv db' \<and> (\<exists>p. lookup_permit db' pid = Some p \<and> p_state p = Released)"
proof -
  let ?st = "sqlite_store cfg" and ?res = "normalize_resource resource"
  let ?rq = "deployment_request limits ?res interactive owner_id attempt_id"
  obtain db1 where acq: "governor_acquire_deployment ?st limits resource interactive owner_id attempt_id rounds db
      = (Some (Inr pid), db1)"
    using assms(4) by (auto simp: governor_acquire_def Let_def split: prod.splits option.splits sum.splits)
  then have loop: "acquire_loop ?st ?rq rounds db = (Some (Inr pid), db1)"
    by (auto simp: governor_acquire_deployment_def acquire_deployment_def split: if_splits)
  have "rd_id ` set rounds \<inter> p_id ` set (permits db) = {}" using assms(2) by auto
  from sqg.loop_outcome [OF assms(1) this subset_refl assms(3) loop]
  obtain p1 where p1: "quota_inv db1" "p1 \<in> set (permits db1)" "p_id p1 = pid" by auto
  define db2 where "db2 = foldl (st_step ?st) db1 block"
  have inv2: "quota_inv db2" unfolding db2_def by (rule sqg.steps_inv [OF p1(1)])
  obtain p2 where p2: "p2 \<in> set (permits db2)" "p_id p2 = pid"
    unfolding db2_def using sqg.row_survives [OF p1(2)] p1(3) by metis
  show ?thesis
  proof (cases released_inside)
    case True
    have inv3: "quota_inv (st_release ?st pid db2)" by (rule sqg.release_inv [OF inv2])
    obtain p3 where p3: "p3 \<in> set (permits (st_release ?st pid db2))" "p_id p3 = pid" "p_state p3 = Released"
      using sqg.release_row [OF p2] by blast
    have db': "db' = foldl (st_step ?st) (st_release ?st pid db2) rest"
      using assms(4) acq True by (simp add: governor_acquire_def permit_release_def db2_def Let_def)
    obtain p4 where p4: "p4 \<in> set (permits db')" "p_id p4 = pid"
      unfolding db' using sqg.row_survives [OF p3(1)] p3(2) by metis
    with sqg.released_stays [OF inv3 p3] sqg.steps_inv [OF inv3] show ?thesis
      unfolding db' by (auto simp: lookup_permit_iff)
  next
    case False
    have db': "db' = st_release ?st pid (foldl (st_step ?st) db2 rest)"
      using assms(4) acq False by (simp add: governor_acquire_def permit_release_def db2_def Let_def)
    obtain p4 where p4: "p4 \<in> set (permits (foldl (st_step ?st) db2 rest))" "p_id p4 = pid"
      using sqg.row_survives [OF p2(1)] p2(2) by metis
    from sqg.release_row [OF p4] sqg.release_inv [OF sqg.steps_inv [OF inv2]] show ?thesis
      unfolding db' by (auto simp: lookup_permit_iff)
  qed
qed

theorem context_exit_releases_witness:
  "\<exists>db' p. governor_acquire (sqlite_store demo_store_config) True [(''ocr'', 1, 0)] '' OCR '' True '''' ''''
       [demo_round ''p1'' True] [Finish 0 ''p1'' ''uncertain'' '''' ''lost''] [] False empty_quota_db
       = (Some (Inr (Some ''p1'')), db')
     \<and> lookup_permit db' ''p1'' = Some p \<and> p_state p = Released"
proof -
  let ?run = "governor_acquire (sqlite_store demo_store_config) True [(''ocr'', 1, 0)] '' OCR '' True '''' ''''
       [demo_round ''p1'' True] [Finish 0 ''p1'' ''uncertain'' '''' ''lost''] [] False empty_quota_db"
  have norm: "normalize_resource '' OCR '' = ''ocr''"
    by code_simp
  obtain db1 where "acquire_deployment (sqlite_store demo_store_config) [(''ocr'', 1, 0)] ''ocr'' True '''' ''''
       [demo_round ''p1'' True] empty_quota_db = (Some (Inr ''p1''), db1)"
    using demo_deployment_run by blast
  then have "fst ?run = Some (Inr (Some ''p1''))"
    by (simp add: governor_acquire_def governor_acquire_deployment_def norm Let_def)
  then obtain db' where run: "?run = (Some (Inr (Some ''p1'')), db')" by (metis prod.collapse)
  from context_exit_releases [OF quota_inv_empty _ _ run] run show ?thesis
    by (auto simp: empty_quota_db_def demo_round_def)
qed

end
