(* ===== verification/Rate_Limiter.thy ===== *)
theory Rate_Limiter
  imports Complex_Main Prelude
begin

text \<open>
  Token buckets: the local \<open>TokenBucket\<close> and its registry \<open>RateLimiter\<close>
  (\<open>core/concurrency/rate_limiter.py\<close>), the Redis bucket scripts with \<open>allow\<close> and
  \<open>allow_tokens\<close> (\<open>distributed_limiter.py\<close>) and the provider quotas built on them
  (\<open>provider_limiter.py\<close>).

  Floating-point numbers are reals here; the tolerance \<open>1e-9\<close> of the source is kept.  A Redis bucket
  is the hash the scripts write together with the expiry \<open>PEXPIRE\<close> sets; the server's clock is the
  \<open>now\<close> a call obtained from \<open>TIME\<close>.
\<close>

section \<open>The local bucket\<close>

record token_bucket =
  tb_rate :: real
  tb_capacity :: real
  tb_tokens :: real
  tb_updated :: real

definition new_bucket :: "real \<Rightarrow> real \<Rightarrow> real option \<Rightarrow> token_bucket" where
  "new_bucket now rate_per_second burst =
     (let rate = max (1 / 10000) rate_per_second;
          capacity = max rate (case burst of Some b \<Rightarrow> b | None \<Rightarrow> rate)
      in \<lparr>tb_rate = rate, tb_capacity = capacity, tb_tokens = capacity, tb_updated = now\<rparr>)"

definition refill :: "real \<Rightarrow> token_bucket \<Rightarrow> token_bucket" where
  "refill now b =
     (let elapsed = max 0 (now - tb_updated b)
      in if elapsed \<le> 0 then b
         else b\<lparr>tb_tokens := min (tb_capacity b) (tb_tokens b + elapsed * tb_rate b), tb_updated := now\<rparr>)"

definition tokens_available :: "real \<Rightarrow> token_bucket \<Rightarrow> real \<times> token_bucket" where
  "tokens_available now b = (tb_tokens (refill now b), refill now b)"

definition tolerance :: real where
  "tolerance = 1 / 10 ^ 9"

definition take_tokens :: "real \<Rightarrow> real \<Rightarrow> token_bucket \<Rightarrow> bool \<times> token_bucket" where
  "take_tokens now tokens0 b =
     (let tokens = max 0 tokens0; b1 = refill now b
      in if tb_tokens b1 + tolerance < tokens then (False, b1)
         else (True, b1\<lparr>tb_tokens := tb_tokens b1 - tokens\<rparr>))"

text \<open>\<open>wait\<close>: each turn reads the clock under the lock and once more afterwards; \<open>None\<close> means that the
  offered turns are used up.\<close>

fun wait_tokens :: "real \<Rightarrow> real \<Rightarrow> (real \<times> real) list \<Rightarrow> token_bucket \<Rightarrow> bool option \<times> token_bucket" where
  "wait_tokens deadline tokens [] b = (None, b)"
| "wait_tokens deadline tokens ((now, later) # turns) b =
     (case take_tokens now tokens b of
        (True, b1) \<Rightarrow> (Some True, b1)
      | (False, b1) \<Rightarrow> if deadline - later \<le> 0 then (Some False, b1) else wait_tokens deadline tokens turns b1)"

section \<open>The registry\<close>

type_synonym rate_limiter = "string \<rightharpoonup> token_bucket"

definition configure :: "real \<Rightarrow> string \<Rightarrow> real \<Rightarrow> real option \<Rightarrow> rate_limiter \<Rightarrow> rate_limiter" where
  "configure now key rate_per_second burst limiter = limiter(key \<mapsto> new_bucket now rate_per_second burst)"

definition rl_allow :: "real \<Rightarrow> string \<Rightarrow> real \<Rightarrow> rate_limiter \<Rightarrow> bool \<times> rate_limiter" where
  "rl_allow now key tokens limiter =
     (case limiter key of
        None \<Rightarrow> (True, limiter)
      | Some b \<Rightarrow> (case take_tokens now tokens b of (ok, b') \<Rightarrow> (ok, limiter(key \<mapsto> b'))))"

definition rl_wait :: "string \<Rightarrow> real \<Rightarrow> real \<Rightarrow> (real \<times> real) list \<Rightarrow> rate_limiter \<Rightarrow> bool option \<times> rate_limiter" where
  "rl_wait key tokens deadline turns limiter =
     (case limiter key of
        None \<Rightarrow> (Some True, limiter)
      | Some b \<Rightarrow> (case wait_tokens deadline tokens turns b of (ok, b') \<Rightarrow> (ok, limiter(key \<mapsto> b'))))"

section \<open>The Redis buckets\<close>

record redis_bucket =
  rb_tokens :: real
  rb_ts :: real
  rb_expires :: real

text \<open>What \<open>HMGET\<close> sees: a key past its expiry is gone.\<close>

definition hmget :: "real \<Rightarrow> redis_bucket option \<Rightarrow> redis_bucket option" where
  "hmget now st = (case st of Some b \<Rightarrow> if now < rb_expires b then Some b else None | None \<Rightarrow> None)"

text \<open>The common head of both scripts: the tokens at time \<open>now\<close>.\<close>

definition lua_tokens :: "real \<Rightarrow> real \<Rightarrow> real \<Rightarrow> redis_bucket option \<Rightarrow> real" where
  "lua_tokens rate burst now st =
     (case hmget now st of
        None \<Rightarrow> min burst (burst + 0 * rate)
      | Some b \<Rightarrow> (let delta = (if now - rb_ts b < 0 then 0 else now - rb_ts b)
                   in min burst (rb_tokens b + delta * rate)))"

definition rate_lua :: "real \<Rightarrow> real \<Rightarrow> real \<Rightarrow> real \<Rightarrow> redis_bucket option \<Rightarrow> bool \<times> redis_bucket option" where
  "rate_lua rate burst ttl now st =
     (let tokens = lua_tokens rate burst now st;
          allowed = (tokens \<ge> 1);
          left = (if allowed then tokens - 1 else tokens)
      in (allowed, Some \<lparr>rb_tokens = left, rb_ts = now, rb_expires = now + ttl\<rparr>))"

definition token_lua :: "real \<Rightarrow> real \<Rightarrow> real \<Rightarrow> real \<Rightarrow> real \<Rightarrow> redis_bucket option \<Rightarrow> bool \<times> redis_bucket option" where
  "token_lua rate burst cost ttl now st =
     (let tokens = lua_tokens rate burst now st;
          allowed = (cost \<le> burst \<and> tokens \<ge> cost);
          left = (if allowed then tokens - cost else tokens)
      in (allowed, Some \<lparr>rb_tokens = left, rb_ts = now, rb_expires = now + ttl\<rparr>))"

text \<open>The clock Redis answers, or \<open>None\<close> when there is no client or a command raises.\<close>

type_synonym redis_clock = "real option"

definition dl_allow :: "redis_clock \<Rightarrow> real \<Rightarrow> real \<Rightarrow> int \<Rightarrow> redis_bucket option \<Rightarrow> bool option \<times> redis_bucket option" where
  "dl_allow clock rate_per_minute burst ttl_seconds st =
     (case clock of
        None \<Rightarrow> (None, st)
      | Some now \<Rightarrow>
          (let rate = max (1 / 1000) (rate_per_minute / 60);
               tokens_burst = max 1 (min burst 1000);
               ttl = real_of_int (max 1000 (ttl_seconds * 1000)) / 1000
           in case rate_lua rate tokens_burst ttl now st of (ok, st') \<Rightarrow> (Some ok, st')))"

definition dl_allow_tokens :: "redis_clock \<Rightarrow> real \<Rightarrow> int \<Rightarrow> real option \<Rightarrow> int \<Rightarrow> redis_bucket option
    \<Rightarrow> bool option \<times> redis_bucket option" where
  "dl_allow_tokens clock rate_per_minute cost burst ttl_seconds st =
     (let requested = max 0 cost in
      if requested = 0 then (Some True, st)
      else case clock of
        None \<Rightarrow> (None, st)
      | Some now \<Rightarrow>
          (let rate = max (1 / 1000) (rate_per_minute / 60);
               capacity0 = max (real_of_int requested) (case burst of Some b \<Rightarrow> b | None \<Rightarrow> rate_per_minute);
               capacity = min capacity0 10000000;
               ttl = real_of_int (max 1000 (ttl_seconds * 1000)) / 1000
           in case token_lua rate capacity (real_of_int requested) ttl now st of (ok, st') \<Rightarrow> (Some ok, st')))"

section \<open>Provider quotas\<close>

text \<open>\<open>allow_provider_call\<close> and \<open>allow_provider_tokens\<close> on the bucket of their key; the limit is the
  configured \<open>PROVIDER_RPM_LIMIT\<close> or \<open>PROVIDER_TPM_LIMIT\<close>.\<close>

definition provider_key :: "string \<Rightarrow> string \<Rightarrow> string \<Rightarrow> string" where
  "provider_key kind provider model =
     ''hdb:quota:'' @ kind @ '':'' @ (if provider = '''' then ''default'' else provider)
       @ '':'' @ (if model = '''' then ''default'' else model)"

definition allow_provider_call :: "int \<Rightarrow> redis_clock \<Rightarrow> redis_bucket option \<Rightarrow> bool option \<times> redis_bucket option" where
  "allow_provider_call limit clock st =
     (if limit \<le> 0 then (Some True, st)
      else dl_allow clock (real_of_int limit) (max 1 (min (real_of_int limit) 10)) 120 st)"

definition allow_provider_tokens :: "int \<Rightarrow> redis_clock \<Rightarrow> int \<Rightarrow> redis_bucket option \<Rightarrow> bool option \<times> redis_bucket option" where
  "allow_provider_tokens limit clock tokens st =
     (let requested = max 0 tokens in
      if limit \<le> 0 \<or> requested = 0 then (Some True, st)
      else dl_allow_tokens clock (real_of_int limit) requested
             (Some (max (real_of_int requested) (min (real_of_int limit) 100000))) 120 st)"

section \<open>What a local bucket grants\<close>

definition bucket_ok :: "token_bucket \<Rightarrow> bool" where
  "bucket_ok b \<longleftrightarrow> 0 < tb_rate b \<and> - tolerance \<le> tb_tokens b \<and> tb_tokens b \<le> tb_capacity b \<and> tb_rate b \<le> tb_capacity b"

lemma tolerance_nonneg [simp]: "0 \<le> tolerance" by (simp add: tolerance_def)

lemma new_bucket_ok: "bucket_ok (new_bucket now rate burst)"
  by (cases burst) (simp_all add: bucket_ok_def new_bucket_def Let_def less_max_iff_disj le_max_iff_disj tolerance_def
      order.trans [of "- (1 / 10 ^ 9)" 0])

lemma refill_simps [simp]: "tb_rate (refill now b) = tb_rate b" "tb_capacity (refill now b) = tb_capacity b"
  by (simp_all add: refill_def Let_def)

lemma refill_ok: "bucket_ok b \<Longrightarrow> bucket_ok (refill now b)"
  by (auto simp: bucket_ok_def refill_def Let_def max_def intro: add_increasing2 order.trans [of "- tolerance" "tb_tokens b"])

text \<open>Refilling adds at most the rate ts the time that passed, and never moves the clock back.\<close>

lemma refill_gain:
  assumes "bucket_ok b"
  shows "tb_tokens (refill now b) - tb_rate b * tb_updated (refill now b) \<le> tb_tokens b - tb_rate b * tb_updated b"
    and "tb_updated (refill now b) = max (tb_updated b) now"
  using assms by (auto simp: refill_def Let_def bucket_ok_def max_def min_def algebra_simps)

lemma take_ok: "bucket_ok b \<Longrightarrow> bucket_ok (snd (take_tokens now tokens b))"
  using refill_ok [of b now] by (auto simp: take_tokens_def Let_def bucket_ok_def max_def)

text \<open>A history of \<open>take\<close> calls: clock readings and requested amounts, with the total granted.\<close>

fun run_takes :: "(real \<times> real) list \<Rightarrow> token_bucket \<Rightarrow> real \<times> token_bucket" where
  "run_takes [] b = (0, b)"
| "run_takes ((now, tokens) # calls) b =
     (case take_tokens now tokens b of (ok, b1) \<Rightarrow>
        case run_takes calls b1 of (granted, b2) \<Rightarrow> ((if ok then max 0 tokens else 0) + granted, b2))"

lemma run_takes_potential:
  assumes "bucket_ok b" "\<forall>(now, tokens) \<in> set calls. now \<le> t_end" "tb_updated b \<le> t_end"
    and "run_takes calls b = (granted, b')"
  shows "bucket_ok b' \<and> tb_updated b' \<le> t_end \<and> tb_rate b' = tb_rate b \<and> tb_capacity b' = tb_capacity b
    \<and> granted + tb_tokens b' - tb_rate b * tb_updated b' \<le> tb_tokens b - tb_rate b * tb_updated b"
  using assms
proof (induction calls arbitrary: b granted)
  case (Cons call calls)
  obtain now tokens where call: "call = (now, tokens)" by fastforce
  obtain ok b1 where take1: "take_tokens now tokens b = (ok, b1)" by fastforce
  obtain g where rest: "run_takes calls b1 = (g, b')" "granted = (if ok then max 0 tokens else 0) + g"
    using Cons.prems(4) call take1 by (auto split: prod.splits)
  have b1: "bucket_ok b1" using take_ok [OF Cons.prems(1), of now tokens] take1 by simp
  have keep: "tb_rate b1 = tb_rate b" "tb_capacity b1 = tb_capacity b" "tb_updated b1 = max (tb_updated b) now"
    using take1 refill_gain(2) [OF Cons.prems(1), of now] by (auto simp: take_tokens_def Let_def split: if_splits)
  have gain: "(if ok then max 0 tokens else 0) + tb_tokens b1 - tb_rate b * tb_updated b1
      \<le> tb_tokens b - tb_rate b * tb_updated b"
    using take1 refill_gain(1) [OF Cons.prems(1), of now] by (auto simp: take_tokens_def Let_def split: if_splits)
  have "tb_updated b1 \<le> t_end" using keep Cons.prems call by auto
  with Cons.IH [OF b1 _ _ rest(1)] Cons.prems(2) keep gain rest(2) show ?case by auto
qed simp

section \<open>What a Redis bucket grants\<close>

text \<open>As long as an idle bucket refills within its time to live, the expiry of the key is invisible:
  a key that was dropped would have been full.\<close>

definition redis_ok :: "real \<Rightarrow> real \<Rightarrow> redis_bucket option \<Rightarrow> bool" where
  "redis_ok ttl now st \<longleftrightarrow> (case st of None \<Rightarrow> True
     | Some b \<Rightarrow> 0 \<le> rb_tokens b \<and> rb_ts b \<le> now \<and> rb_expires b = rb_ts b + ttl)"

lemma lua_tokens_advance:
  assumes "0 \<le> rate" "burst \<le> rate * ttl" "redis_ok ttl now st" "now \<le> later"
  shows "lua_tokens rate burst later st \<le> lua_tokens rate burst now st + rate * (later - now)"
proof (cases st)
  case None
  with assms show ?thesis by (simp add: lua_tokens_def hmget_def)
next
  case (Some b)
  have full: "lua_tokens rate burst t st = min burst (rb_tokens b + (t - rb_ts b) * rate)" if "now \<le> t" for t
  proof (cases "t < rb_expires b")
    case True
    then show ?thesis using Some assms(3) that by (simp add: lua_tokens_def hmget_def redis_ok_def Let_def)
  next
    case False
    then have "ttl \<le> t - rb_ts b" "0 \<le> rb_tokens b" using assms(3) Some by (auto simp: redis_ok_def)
    then have "burst \<le> rb_tokens b + (t - rb_ts b) * rate"
      using assms(1,2) mult_left_mono [of ttl "t - rb_ts b" rate] by (simp add: mult.commute)
    with False Some show ?thesis by (simp add: lua_tokens_def hmget_def)
  qed
  have "(later - rb_ts b) * rate = (now - rb_ts b) * rate + rate * (later - now)" by (simp add: algebra_simps)
  moreover have "0 \<le> rate * (later - now)" using assms(1,4) by simp
  ultimately show ?thesis using full [of now] full [OF assms(4)] by (auto simp: min_def)
qed

lemma lua_tokens_bounds:
  assumes "0 \<le> rate" "0 \<le> burst" "redis_ok ttl now st"
  shows "0 \<le> lua_tokens rate burst now st" "lua_tokens rate burst now st \<le> burst"
  using assms by (auto simp: lua_tokens_def hmget_def redis_ok_def Let_def split: option.splits)

text \<open>A history of single-token calls at the times the server reports.\<close>

fun run_rate :: "real \<Rightarrow> real \<Rightarrow> real \<Rightarrow> real list \<Rightarrow> redis_bucket option \<Rightarrow> nat \<times> redis_bucket option" where
  "run_rate rate burst ttl [] st = (0, st)"
| "run_rate rate burst ttl (now # ts) st =
     (case rate_lua rate burst ttl now st of (ok, st1) \<Rightarrow>
        case run_rate rate burst ttl ts st1 of (n, st2) \<Rightarrow> ((if ok then 1 else 0) + n, st2))"

lemma run_rate_bound:
  assumes "0 \<le> rate" "0 \<le> burst" "burst \<le> rate * ttl" "0 < ttl" "redis_ok ttl t0 st"
    and "sorted (t0 # ts)" "\<forall>t \<in> set ts. t \<le> t_end" "t0 \<le> t_end"
    and "run_rate rate burst ttl ts st = (n, st')"
  shows "real n \<le> lua_tokens rate burst t0 st + rate * (t_end - t0)"
  using assms(5-)
proof (induction ts arbitrary: t0 st n)
  case Nil
  then show ?case using assms(1,2) lua_tokens_bounds(1) by fastforce
next
  case (Cons now ts)
  obtain ok st1 where one: "rate_lua rate burst ttl now st = (ok, st1)" by fastforce
  obtain m where rest: "run_rate rate burst ttl ts st1 = (m, st')" "n = (if ok then 1 else 0) + m"
    using Cons.prems(5) one by (auto split: prod.splits)
  have now: "redis_ok ttl now st" "t0 \<le> now" "now \<le> t_end" "sorted (now # ts)"
    using Cons.prems by (auto simp: redis_ok_def split: option.splits)
  let ?T = "lua_tokens rate burst now st"
  have tokens: "0 \<le> ?T" "?T \<le> burst" using lua_tokens_bounds [OF assms(1,2) now(1)] by auto
  have st1: "redis_ok ttl now st1" "lua_tokens rate burst now st1 + (if ok then 1 else 0) \<le> ?T"
    using one tokens assms(2,4)
    by (auto simp: rate_lua_def Let_def redis_ok_def lua_tokens_def [of rate burst now "Some _"] hmget_def split: if_splits)
  have "real m \<le> lua_tokens rate burst now st1 + rate * (t_end - now)"
    using Cons.IH [OF st1(1) now(4) _ now(3) rest(1)] Cons.prems(3) by simp
  moreover have "?T \<le> lua_tokens rate burst t0 st + rate * (now - t0)"
    by (rule lua_tokens_advance [OF assms(1,3) Cons.prems(1) now(2)])
  ultimately show ?case using rest(2) st1(2) by (auto simp: algebra_simps split: if_splits)
qed

section \<open>Properties\<close>

text \<open>A local token bucket enforces its quota: whatever clock readings and amounts its callers
  bring, also when the clock is read out of order, the total granted up to time \<open>t_end\<close> is at
  most the capacity plus the rate times the elapsed time (and the tolerance of the comparison).\<close>

theorem bucket_grants_bounded:
  assumes "\<forall>(now, tokens) \<in> set calls. now \<le> t_end" "t0 \<le> t_end"
    and "run_takes calls (new_bucket t0 rate burst) = (granted, b')"
  shows "granted \<le> tb_capacity (new_bucket t0 rate burst)
    + tb_rate (new_bucket t0 rate burst) * (t_end - t0) + tolerance"
proof -
  let ?b = "new_bucket t0 rate burst"
  have start: "tb_tokens ?b = tb_capacity ?b" "tb_updated ?b = t0" by (simp_all add: new_bucket_def Let_def)
  have end_state: "bucket_ok b'" "tb_updated b' \<le> t_end"
      "granted + tb_tokens b' - tb_rate ?b * tb_updated b' \<le> tb_capacity ?b - tb_rate ?b * t0"
    using run_takes_potential [OF new_bucket_ok assms(1) _ assms(3)] assms(2) start by auto
  have "0 < tb_rate ?b" using new_bucket_ok [of t0 rate burst] by (simp add: bucket_ok_def)
  then have "tb_rate ?b * tb_updated b' \<le> tb_rate ?b * t_end" using end_state(2) by simp
  with end_state(1,3) show ?thesis by (simp add: bucket_ok_def algebra_simps)
qed

theorem bucket_grants_bounded_witness:
  "run_takes [(0, 1), (0, 1), (1, 1)] (new_bucket 0 (1 / 2) (Some 1)) = (1, new_bucket 0 (1 / 2) (Some 1)\<lparr>tb_tokens := 1 / 2, tb_updated := 1\<rparr>)
   \<and> (1::real) \<le> 1 + 1 / 2 * (1 - 0) + tolerance"
proof -
  have run: "run_takes [(0, 1), (0, 1), (1, 1)] (new_bucket 0 (1 / 2) (Some 1))
      = (1, new_bucket 0 (1 / 2) (Some 1)\<lparr>tb_tokens := 1 / 2, tb_updated := 1\<rparr>)"
    by (simp add: take_tokens_def refill_def new_bucket_def tolerance_def Let_def)
  from bucket_grants_bounded [OF _ _ run, of 1] run show ?thesis by (simp add: new_bucket_def Let_def)
qed

text \<open>A history of provider calls: each finds Redis unavailable or learns the server's time.\<close>

fun run_provider :: "int \<Rightarrow> redis_clock list \<Rightarrow> redis_bucket option \<Rightarrow> nat \<times> redis_bucket option" where
  "run_provider limit [] st = (0, st)"
| "run_provider limit (clock # clocks) st =
     (case allow_provider_call limit clock st of (decision, st1) \<Rightarrow>
        case run_provider limit clocks st1 of (n, st2) \<Rightarrow> ((if decision = Some True then 1 else 0) + n, st2))"

lemma run_provider_rate:
  assumes "1 \<le> limit"
  shows "run_provider limit clocks st =
    run_rate (real_of_int limit / 60) (max 1 (min (real_of_int limit) 10)) 120 (List.map_filter id clocks) st"
proof -
  have one: "allow_provider_call limit clock st = (case clock of None \<Rightarrow> (None, st)
      | Some now \<Rightarrow> (case rate_lua (real_of_int limit / 60) (max 1 (min (real_of_int limit) 10)) 120 now st of
          (ok, st') \<Rightarrow> (Some ok, st')))" for clock st
    using assms by (cases clock) (auto simp: allow_provider_call_def dl_allow_def Let_def max_def min_def)
  show ?thesis
    by (induction clocks arbitrary: st) (auto simp: one map_filter_simps split: option.splits prod.splits)
qed



end
