(* ===== verification/Admission.thy ===== *)
theory Admission
  imports Rate_Limiter
begin

text \<open>
  Admission control before a request is accepted: \<open>AdmissionController\<close>
  (\<open>core/concurrency/admission.py\<close>) with its per-user, per-tenant and per-model buckets, the LRU
  cache of bucket keys, the distributed second stage and the queue-depth check.

  A check reads the clock once.  A request without a tenant or without a model has the empty string
  there.  What the environment answers to one check is the time Redis reports (\<open>None\<close> when it is
  unavailable) and the queue depth (\<open>None\<close> when reading it raises).
\<close>

definition MAX_BUCKET_KEYS :: nat where
  "MAX_BUCKET_KEYS = 10000"

record admission_controller =
  ac_enabled :: bool
  ac_queue_depth_limit :: int
  ac_has_queue_provider :: bool
  ac_distributed :: bool
  ac_distributed_ttl_seconds :: int
  ac_limits :: "(string \<times> real \<times> real) list"
  ac_model_limits :: "real \<times> real"
  ac_model_limited :: bool

definition floor_rate :: "real \<Rightarrow> real" where
  "floor_rate rate = max (1 / 1000) rate"

text \<open>The constructor; a later entry of \<open>kind_limits\<close> overrides an earlier one and the built-in kinds.\<close>

definition controller_init ::
  "bool \<Rightarrow> real \<times> real \<Rightarrow> real \<times> real \<Rightarrow> int \<Rightarrow> bool \<Rightarrow> (string \<times> real \<times> real) list \<Rightarrow> real \<times> real \<Rightarrow> bool \<Rightarrow> int
     \<Rightarrow> admission_controller" where
  "controller_init enabled chat heavy queue_depth_limit has_provider kind_limits model_rpm distributed ttl =
     \<lparr>ac_enabled = enabled, ac_queue_depth_limit = max 1 queue_depth_limit, ac_has_queue_provider = has_provider,
      ac_distributed = distributed, ac_distributed_ttl_seconds = max 1 ttl,
      ac_limits = rev (map (\<lambda>(kind, user, tenant). (kind, floor_rate user, floor_rate tenant))
        ([(''chat'', chat), (''heavy'', heavy)] @ kind_limits)),
      ac_model_limits = (floor_rate (fst model_rpm), floor_rate (snd model_rpm)),
      ac_model_limited = (fst model_rpm > 0 \<or> snd model_rpm > 0)\<rparr>"

definition ac_normalize_resource :: "string \<Rightarrow> string" where
  "ac_normalize_resource resource =
     (let kind = py_lower (py_strip (if resource = '''' then ''chat'' else resource))
      in if kind = ''all'' then ''chat'' else kind)"

definition rates_for :: "admission_controller \<Rightarrow> string \<Rightarrow> real \<times> real" where
  "rates_for ac kind =
     (case map_of (ac_limits ac) kind of
        Some rates \<Rightarrow> rates
      | None \<Rightarrow> (case map_of (ac_limits ac) ''chat'' of Some rates \<Rightarrow> rates | None \<Rightarrow> (30, 120)))"

section \<open>State\<close>

record admission_state =
  as_buckets :: rate_limiter
  as_seen :: "string list"
  as_redis :: "string \<Rightarrow> redis_bucket option"

definition admission_start :: admission_state where
  "admission_start = \<lparr>as_buckets = Map.empty, as_seen = [], as_redis = (\<lambda>_. None)\<rparr>"

text \<open>\<open>while len(self._seen) > _MAX_BUCKET_KEYS\<close>: drop the least recently seen keys and their buckets.\<close>

fun prune :: "string list \<Rightarrow> rate_limiter \<Rightarrow> string list \<times> rate_limiter" where
  "prune [] buckets = ([], buckets)"
| "prune (stale # seen) buckets =
     (if Suc (length seen) > MAX_BUCKET_KEYS then prune seen (buckets(stale := None)) else (stale # seen, buckets))"

definition bucket_burst :: "real \<Rightarrow> real" where
  "bucket_burst rate = max 1 (min rate 10)"

definition touch :: "real \<Rightarrow> string \<Rightarrow> real \<Rightarrow> admission_state \<Rightarrow> admission_state" where
  "touch now key rate s =
     (let buckets = (if as_buckets s key = None
                     then configure now key (max (1 / 1000) (rate / 60)) (Some (bucket_burst rate)) (as_buckets s)
                     else as_buckets s);
          seen = filter (\<lambda>k. k \<noteq> key) (as_seen s) @ [key]
      in case prune seen buckets of (seen', buckets') \<Rightarrow> s\<lparr>as_seen := seen', as_buckets := buckets'\<rparr>)"

text \<open>A rejection is \<open>Some\<close> reason.\<close>

definition consume_bucket :: "real \<Rightarrow> string \<times> real \<times> string \<Rightarrow> admission_state \<Rightarrow> string option \<times> admission_state" where
  "consume_bucket now = (\<lambda>(key, rate, reason) s0.
     (let s = touch now key rate s0 in
      case rl_wait key 1 now [(now, now)] (as_buckets s) of
        (ok, buckets') \<Rightarrow> (if ok = Some True then None else Some reason, s\<lparr>as_buckets := buckets'\<rparr>)))"

definition consume_distributed ::
  "admission_controller \<Rightarrow> redis_clock \<Rightarrow> string \<times> real \<times> string \<Rightarrow> admission_state \<Rightarrow> string option \<times> admission_state" where
  "consume_distributed ac clock = (\<lambda>(key, rate, reason) s.
     (case dl_allow clock rate (bucket_burst rate) (ac_distributed_ttl_seconds ac) (as_redis s key) of
        (decision, st') \<Rightarrow>
          ((case decision of
              None \<Rightarrow> Some ''admission_unavailable''
            | Some ok \<Rightarrow> if ok then None else Some reason),
           s\<lparr>as_redis := (as_redis s)(key := st')\<rparr>)))"

text \<open>Charges one after the other; the first rejection ends the check.\<close>

fun run_charges ::
  "('c \<Rightarrow> admission_state \<Rightarrow> string option \<times> admission_state) \<Rightarrow> 'c list \<Rightarrow> admission_state
     \<Rightarrow> string option \<times> admission_state" where
  "run_charges consume [] s = (None, s)"
| "run_charges consume (c # cs) s =
     (case consume c s of
        (Some reason, s') \<Rightarrow> (Some reason, s')
      | (None, s') \<Rightarrow> run_charges consume cs s')"

definition local_charges ::
  "admission_controller \<Rightarrow> string \<Rightarrow> string \<Rightarrow> string \<Rightarrow> string \<Rightarrow> (string \<times> real \<times> string) list" where
  "local_charges ac user_id tenant_id kind model =
     (let (user_rate, tenant_rate) = rates_for ac kind; model_key = py_strip model in
      [(''user:'' @ kind @ '':'' @ user_id, user_rate, ''rate_limit_user'')]
      @ (if tenant_id \<noteq> '''' then [(''tenant:'' @ kind @ '':'' @ tenant_id, tenant_rate, ''rate_limit_tenant'')] else [])
      @ (if model_key \<noteq> '''' \<and> ac_model_limited ac then
           [(''model-user:'' @ model_key @ '':'' @ user_id, fst (ac_model_limits ac), ''rate_limit_model'')]
           @ (if tenant_id \<noteq> ''''
              then [(''model-tenant:'' @ model_key @ '':'' @ tenant_id, snd (ac_model_limits ac), ''rate_limit_model'')]
              else [])
         else []))"

definition distributed_charges ::
  "admission_controller \<Rightarrow> string \<Rightarrow> string \<Rightarrow> string \<Rightarrow> (string \<times> real \<times> string) list" where
  "distributed_charges ac user_id tenant_id kind =
     (if \<not> ac_distributed ac then []
      else let (user_rate, tenant_rate) = rates_for ac kind;
               tenant_key = (if tenant_id \<noteq> '''' then tenant_id else ''default'')
           in [(''hdb:quota:user:'' @ tenant_key @ '':'' @ user_id @ '':'' @ kind, user_rate, ''rate_limit_user'')]
              @ (if tenant_id \<noteq> ''''
                 then [(''hdb:quota:tenant:'' @ tenant_key @ '':'' @ kind, tenant_rate, ''rate_limit_tenant'')]
                 else []))"

definition check_queue :: "admission_controller \<Rightarrow> string \<Rightarrow> int option \<Rightarrow> string option" where
  "check_queue ac kind depth =
     (if kind \<in> {''chat'', ''deep''} \<and> ac_has_queue_provider ac then
        (case depth of
           None \<Rightarrow> Some ''queue_state_unavailable''
         | Some d \<Rightarrow> if d \<ge> ac_queue_depth_limit ac then Some ''queue_full'' else None)
      else None)"

record admission_request =
  rq_user :: string
  rq_tenant :: string
  rq_resource :: string
  rq_model :: string

definition admission_check ::
  "admission_controller \<Rightarrow> real \<Rightarrow> redis_clock \<Rightarrow> int option \<Rightarrow> admission_request \<Rightarrow> admission_state
     \<Rightarrow> string option \<times> admission_state" where
  "admission_check ac now clock depth rq s =
     (if \<not> ac_enabled ac then (None, s)
      else
        let kind = ac_normalize_resource (rq_resource rq) in
        case run_charges (consume_bucket now) (local_charges ac (rq_user rq) (rq_tenant rq) kind (rq_model rq)) s of
          (Some reason, s1) \<Rightarrow> (Some reason, s1)
        | (None, s1) \<Rightarrow>
            (case run_charges (consume_distributed ac clock)
                    (distributed_charges ac (rq_user rq) (rq_tenant rq) kind) s1 of
               (Some reason, s2) \<Rightarrow> (Some reason, s2)
             | (None, s2) \<Rightarrow> (check_queue ac kind depth, s2)))"

text \<open>\<open>_optional_rate\<close>; \<open>parse\<close> stands for Python's \<open>float\<close> on a non-empty text.\<close>

definition optional_rate :: "(string \<Rightarrow> real option) \<Rightarrow> string \<Rightarrow> real \<Rightarrow> real" where
  "optional_rate parse value fallback =
     (let txt = py_strip value
      in if txt = '''' then fallback else case parse txt of Some rate \<Rightarrow> rate | None \<Rightarrow> fallback)"

section \<open>The key cache stays bounded\<close>

definition cache_ok :: "admission_state \<Rightarrow> bool" where
  "cache_ok s \<longleftrightarrow> distinct (as_seen s) \<and> length (as_seen s) \<le> MAX_BUCKET_KEYS \<and> dom (as_buckets s) = set (as_seen s)"

lemma prune_spec:
  assumes "prune seen buckets = (seen', buckets')" "distinct seen" "dom buckets = set seen"
  shows "length seen' \<le> MAX_BUCKET_KEYS \<and> distinct seen' \<and> dom buckets' = set seen'
    \<and> (\<exists>dropped. seen = dropped @ seen') \<and> (\<forall>k \<in> set seen'. buckets' k = buckets k)"
  using assms
proof (induction seen arbitrary: buckets)
  case (Cons stale seen)
  show ?case
  proof (cases "Suc (length seen) > MAX_BUCKET_KEYS")
    case True
    then have "prune seen (buckets(stale := None)) = (seen', buckets')" using Cons.prems(1) by simp
    moreover have "dom (buckets(stale := None)) = set seen" "distinct seen" using Cons.prems(2,3) by auto
    ultimately have IH: "length seen' \<le> MAX_BUCKET_KEYS \<and> distinct seen' \<and> dom buckets' = set seen'
      \<and> (\<exists>dropped. seen = dropped @ seen') \<and> (\<forall>k \<in> set seen'. buckets' k = (buckets(stale := None)) k)"
      by (intro Cons.IH)
    then obtain dropped where "seen = dropped @ seen'" by auto
    then have "stale # seen = (stale # dropped) @ seen'" "stale \<notin> set seen'" using Cons.prems(2) by auto
    with IH show ?thesis by (metis fun_upd_other)
  next
    case False
    with Cons.prems show ?thesis by (auto intro: exI [of _ "[]"])
  qed
qed simp

lemma prune_keeps_last:
  assumes "prune (seen @ [key]) buckets = (seen', buckets')" "0 < MAX_BUCKET_KEYS"
  shows "\<exists>xs. seen' = xs @ [key]"
  using assms
proof (induction seen arbitrary: buckets)
  case (Cons stale seen)
  then show ?case by (cases "Suc (length (seen @ [key])) > MAX_BUCKET_KEYS") auto
qed (auto split: if_splits)

lemma touch_ok:
  assumes "cache_ok s"
  shows "cache_ok (touch now key rate s)" "key \<in> set (as_seen (touch now key rate s))"
proof -
  define buckets where "buckets = (if as_buckets s key = None
      then configure now key (max (1 / 1000) (rate / 60)) (Some (bucket_burst rate)) (as_buckets s) else as_buckets s)"
  define seen where "seen = filter (\<lambda>k. k \<noteq> key) (as_seen s)"
  obtain seen' buckets' where pr: "prune (seen @ [key]) buckets = (seen', buckets')" by fastforce
  have t: "touch now key rate s = s\<lparr>as_seen := seen', as_buckets := buckets'\<rparr>"
    using pr by (simp add: touch_def Let_def buckets_def seen_def)
  have "distinct (seen @ [key])" using assms by (simp add: cache_ok_def seen_def)
  moreover have "dom buckets = set (seen @ [key])"
    using assms by (auto simp: cache_ok_def buckets_def seen_def configure_def split: if_splits)
  ultimately show "cache_ok (touch now key rate s)" using prune_spec [OF pr] t by (simp add: cache_ok_def)
  obtain xs where "seen' = xs @ [key]"
    using prune_keeps_last [OF pr] by (auto simp: MAX_BUCKET_KEYS_def)
  with t show "key \<in> set (as_seen (touch now key rate s))" by simp
qed

lemma consume_bucket_ok:
  assumes "cache_ok s"
  shows "cache_ok (snd (consume_bucket now c s))"
proof -
  obtain key rate reason where c: "c = (key, rate, reason)" by (metis prod_cases3)
  let ?s = "touch now key rate s"
  have ok: "cache_ok ?s" and key: "key \<in> dom (as_buckets ?s)"
    using touch_ok(1) [OF assms] touch_ok(2) [OF assms, of key now rate] by (auto simp: cache_ok_def)
  obtain out buckets' where w: "rl_wait key 1 now [(now, now)] (as_buckets ?s) = (out, buckets')" by fastforce
  then have "dom buckets' = dom (as_buckets ?s)"
    using key by (auto simp: rl_wait_def simp del: wait_tokens.simps split: option.splits prod.splits if_splits)
  with ok w show ?thesis by (simp add: consume_bucket_def c Let_def cache_ok_def)
qed

lemma consume_distributed_ok: "cache_ok s \<Longrightarrow> cache_ok (snd (consume_distributed ac clock c s))"
  by (auto simp: consume_distributed_def cache_ok_def split: prod.splits)

lemma run_charges_ok:
  assumes "\<And>c s. cache_ok s \<Longrightarrow> cache_ok (snd (consume c s))" "cache_ok s"
  shows "cache_ok (snd (run_charges consume cs s))"
  using assms(2)
proof (induction cs arbitrary: s)
  case (Cons c cs)
  obtain out s' where c: "consume c s = (out, s')" by fastforce
  then have "cache_ok s'" using assms(1) [OF Cons.prems, of c] by simp
  with Cons.IH c show ?case by (auto split: option.splits)
qed simp

lemma admission_check_ok:
  assumes "cache_ok s"
  shows "cache_ok (snd (admission_check ac now clock depth rq s))"
proof -
  let ?kind = "ac_normalize_resource (rq_resource rq)"
  obtain out1 s1 where one: "run_charges (consume_bucket now)
      (local_charges ac (rq_user rq) (rq_tenant rq) ?kind (rq_model rq)) s = (out1, s1)" by fastforce
  obtain out2 s2 where two: "run_charges (consume_distributed ac clock)
      (distributed_charges ac (rq_user rq) (rq_tenant rq) ?kind) s1 = (out2, s2)" by fastforce
  have "cache_ok s1" using run_charges_ok [of "consume_bucket now", OF consume_bucket_ok assms] one by (metis snd_conv)
  moreover from this have "cache_ok s2"
    using run_charges_ok [of "consume_distributed ac clock", OF consume_distributed_ok] two by (metis snd_conv)
  ultimately show ?thesis
    using assms one two by (auto simp: admission_check_def Let_def split: option.splits)
qed

section \<open>Properties\<close>

text \<open>One answered check: clock, Redis, queue depth and the request.\<close>

type_synonym check_event = "real \<times> redis_clock \<times> int option \<times> admission_request"

definition check_step :: "admission_controller \<Rightarrow> admission_state \<Rightarrow> check_event \<Rightarrow> admission_state" where
  "check_step ac s = (\<lambda>(now, clock, depth, rq). snd (admission_check ac now clock depth rq s))"

text \<open>The memory of the limiter is bounded: after any sequence of checks at most 10000 keys are
  remembered, each once, and buckets exist for exactly the remembered keys.\<close>

theorem admission_cache_bounded:
  "length (as_seen (foldl (check_step ac) admission_start events)) \<le> 10000
   \<and> distinct (as_seen (foldl (check_step ac) admission_start events))
   \<and> dom (as_buckets (foldl (check_step ac) admission_start events))
       = set (as_seen (foldl (check_step ac) admission_start events))"
proof -
  have "cache_ok admission_start" by (simp add: cache_ok_def admission_start_def)
  then have "cache_ok (foldl (check_step ac) admission_start events)"
    by (rule foldl_invariant) (simp add: check_step_def admission_check_ok split: prod.splits)
  then show ?thesis by (simp add: cache_ok_def MAX_BUCKET_KEYS_def)
qed

text \<open>Admission fails closed: an enabled controller that shares its quota through Redis admits
  nothing while Redis is unavailable, a chat request is never admitted when the queue depth cannot
  be read, and an admitted chat request saw a depth below the limit.\<close>

theorem admission_fails_closed:
  assumes "ac_enabled ac"
  shows "(ac_distributed ac \<longrightarrow> fst (admission_check ac now None depth rq s) \<noteq> None)
    \<and> (ac_has_queue_provider ac \<and> ac_normalize_resource (rq_resource rq) \<in> {''chat'', ''deep''} \<longrightarrow>
        fst (admission_check ac now clock None rq s) \<noteq> None
        \<and> (\<forall>d. fst (admission_check ac now clock (Some d) rq s) = None \<longrightarrow> d < ac_queue_depth_limit ac))"
proof -
  let ?kind = "ac_normalize_resource (rq_resource rq)"
  obtain out1 s1 where one: "run_charges (consume_bucket now)
      (local_charges ac (rq_user rq) (rq_tenant rq) ?kind (rq_model rq)) s = (out1, s1)" by fastforce
  obtain out2 s2 where two: "run_charges (consume_distributed ac clock)
      (distributed_charges ac (rq_user rq) (rq_tenant rq) ?kind) s1 = (out2, s2)" by fastforce
  have down: "fst (run_charges (consume_distributed ac None) (distributed_charges ac user tenant kind) st) \<noteq> None"
    if "ac_distributed ac" for user tenant kind st
    using that by (auto simp: distributed_charges_def consume_distributed_def dl_allow_def split: prod.splits)
  obtain out3 s3 where three: "run_charges (consume_distributed ac None)
      (distributed_charges ac (rq_user rq) (rq_tenant rq) ?kind) s1 = (out3, s3)" by fastforce
  show ?thesis
    using assms one two three down [of "rq_user rq" "rq_tenant rq" ?kind s1]
    by (auto simp: admission_check_def check_queue_def Let_def split: option.splits if_splits)
qed

definition demo_controller :: admission_controller where
  "demo_controller = controller_init True (30, 120) (10, 40) 256 True [] (60, 0) False 120"

definition demo_model_request :: "string \<Rightarrow> admission_request" where
  "demo_model_request user = \<lparr>rq_user = user, rq_tenant = ''acme'', rq_resource = ''chat'', rq_model = ''m''\<rparr>"

theorem admission_fails_closed_witness:
  "ac_enabled demo_controller
   \<and> fst (admission_check demo_controller 0 None None (demo_model_request ''ann'') admission_start) \<noteq> None"
proof -
  have "ac_enabled demo_controller" "ac_has_queue_provider demo_controller"
    "ac_normalize_resource (rq_resource (demo_model_request ''ann'')) = ''chat''"
    by (simp_all add: demo_controller_def controller_init_def demo_model_request_def)
      (code_simp)
  with admission_fails_closed [of demo_controller 0 None "demo_model_request ''ann''" admission_start None]
  show ?thesis by simp
qed

lemma demo_kind: "ac_normalize_resource ''chat'' = ''chat''" "py_strip ''m'' = ''m''"
  by (code_simp, code_simp)

lemmas admission_eval = admission_check_def demo_controller_def controller_init_def demo_model_request_def demo_kind
  local_charges_def distributed_charges_def check_queue_def rates_for_def floor_rate_def consume_bucket_def touch_def
  configure_def new_bucket_def bucket_burst_def rl_wait_def take_tokens_def refill_def tolerance_def admission_start_def
  MAX_BUCKET_KEYS_def Let_def

text \<open>A per-model rate of zero for tenants does not switch the tenant limit off once the per-user
  one is set: the zero is raised to 0.001 per minute, so after one admitted request of a tenant
  every request of the same tenant for that model is rejected for the next fifteen minutes.\<close>

theorem model_zero_rate_blocks_tenant:
  assumes "0 \<le> t" "t \<le> 900"
  shows "\<exists>s. admission_check demo_controller 0 None (Some 0) (demo_model_request ''ann'') admission_start = (None, s)
    \<and> fst (admission_check demo_controller t None (Some 0) (demo_model_request ''bob'') s) = Some ''rate_limit_model''"
  using assms by (auto simp: admission_eval min_def)

theorem model_zero_rate_blocks_tenant_witness:
  "\<exists>s. admission_check demo_controller 0 None (Some 0) (demo_model_request ''ann'') admission_start = (None, s)
    \<and> fst (admission_check demo_controller 60 None (Some 0) (demo_model_request ''bob'') s) = Some ''rate_limit_model''"
  using model_zero_rate_blocks_tenant [of 60] by simp

end
