(* ===== verification/LLM_Governor.thy ===== *)
theory LLM_Governor
  imports Rate_Limiter
begin

text \<open>
  The process-wide admission of model calls: \<open>LLMGovernor.slot\<close> (\<open>core/llm_governor.py\<close>).

  A call enters the queue of its priority, is admitted under the condition variable's lock, takes a
  deployment permit, passes the provider quota, runs, and on every way out gives the permit and the
  slot back.  As in \<open>Governor_Process\<close>, a call is a program counter over the atomic sections of
  \<open>slot\<close>, and a schedule says which call moves next and what its environment answers.  The limits a
  call works with are those it read from the settings when it started.  Waiting-time statistics and
  the congestion warning are left out.
\<close>

record llm_governor =
  lg_active_interactive :: int
  lg_active_batch :: int
  lg_waiting_interactive :: int
  lg_waiting_batch :: int
  lg_completed :: int
  lg_timeouts :: int
  lg_permits :: int

text \<open>\<open>lg_permits\<close> counts the deployment permits the process holds for model calls.\<close>

definition llm_start :: llm_governor where
  "llm_start = \<lparr>lg_active_interactive = 0, lg_active_batch = 0, lg_waiting_interactive = 0, lg_waiting_batch = 0,
     lg_completed = 0, lg_timeouts = 0, lg_permits = 0\<rparr>"

text \<open>\<open>_limits\<close>: a configured total of zero means the default of four.\<close>

definition llm_limits :: "int \<Rightarrow> int \<Rightarrow> int \<times> int" where
  "llm_limits max_concurrency batch_max =
     (let total = max 1 (if max_concurrency = 0 then 4 else max_concurrency); batch_cap = max 0 batch_max
      in (total, min batch_cap total))"

definition admissible :: "llm_governor \<Rightarrow> bool \<Rightarrow> int \<Rightarrow> int \<Rightarrow> bool" where
  "admissible g is_batch limit batch_cap =
     (let active = lg_active_interactive g + lg_active_batch g
      in if is_batch then lg_active_batch g < batch_cap \<and> active < limit else active < limit)"

text \<open>\<open>_check_provider_quota\<close> on the decisions of the provider limiter; \<open>Some\<close> is the rejection.\<close>

definition check_provider_quota :: "bool option \<Rightarrow> int \<Rightarrow> bool option \<Rightarrow> string option" where
  "check_provider_quota decision estimated_tokens token_decision =
     (case decision of
        None \<Rightarrow> Some ''unavailable''
      | Some False \<Rightarrow> Some ''rpm''
      | Some True \<Rightarrow>
          if estimated_tokens > 0 then
            (case token_decision of
               None \<Rightarrow> Some ''tokens_unavailable''
             | Some False \<Rightarrow> Some ''tpm''
             | Some True \<Rightarrow> None)
          else None)"

datatype llm_pc =
    L_start | L_wait | L_admitted | L_quota | L_body
  | L_exit "string option" | L_release "string option" | L_finished "string option"

record llm_answer =
  la_deadline :: bool
  la_permit :: bool
  la_rpm :: "bool option"
  la_tpm :: "bool option"

record llm_call =
  lc_batch :: bool
  lc_limit :: int
  lc_batch_cap :: int
  lc_tokens :: int
  lc_pc :: llm_pc

definition enter_waiting :: "bool \<Rightarrow> llm_governor \<Rightarrow> llm_governor" where
  "enter_waiting is_batch g =
     (if is_batch then g\<lparr>lg_waiting_batch := lg_waiting_batch g + 1\<rparr>
      else g\<lparr>lg_waiting_interactive := lg_waiting_interactive g + 1\<rparr>)"

definition leave_waiting :: "bool \<Rightarrow> llm_governor \<Rightarrow> llm_governor" where
  "leave_waiting is_batch g =
     (if is_batch then g\<lparr>lg_waiting_batch := max 0 (lg_waiting_batch g - 1)\<rparr>
      else g\<lparr>lg_waiting_interactive := max 0 (lg_waiting_interactive g - 1)\<rparr>)"

definition enter_active :: "bool \<Rightarrow> llm_governor \<Rightarrow> llm_governor" where
  "enter_active is_batch g =
     (if is_batch then g\<lparr>lg_active_batch := lg_active_batch g + 1\<rparr>
      else g\<lparr>lg_active_interactive := lg_active_interactive g + 1\<rparr>)"

text \<open>\<open>_release_process_slot\<close>.\<close>

definition release_process_slot :: "bool \<Rightarrow> llm_governor \<Rightarrow> llm_governor" where
  "release_process_slot is_batch g =
     (if is_batch then g\<lparr>lg_active_batch := max 0 (lg_active_batch g - 1), lg_completed := lg_completed g + 1\<rparr>
      else g\<lparr>lg_active_interactive := max 0 (lg_active_interactive g - 1), lg_completed := lg_completed g + 1\<rparr>)"

text \<open>One turn of the admission loop of a call that is already counted as waiting.\<close>

definition admission_turn :: "llm_call \<Rightarrow> llm_answer \<Rightarrow> llm_governor \<Rightarrow> llm_governor \<times> llm_pc" where
  "admission_turn c ans g =
     (if admissible g (lc_batch c) (lc_limit c) (lc_batch_cap c)
      then (leave_waiting (lc_batch c) (enter_active (lc_batch c) g), L_admitted)
      else if la_deadline ans
      then (leave_waiting (lc_batch c) (g\<lparr>lg_timeouts := lg_timeouts g + 1\<rparr>), L_finished (Some ''queue_timeout''))
      else (g, L_wait))"

fun slot_step :: "llm_call \<Rightarrow> llm_answer \<Rightarrow> llm_pc \<Rightarrow> llm_governor \<Rightarrow> llm_governor \<times> llm_pc" where
  "slot_step c ans L_start g = admission_turn c ans (enter_waiting (lc_batch c) g)"
| "slot_step c ans L_wait g = admission_turn c ans g"
| "slot_step c ans L_admitted g =
     (if la_permit ans then (g\<lparr>lg_permits := lg_permits g + 1\<rparr>, L_quota)
      else (g, L_release (Some ''permit'')))"
| "slot_step c ans L_quota g =
     (case check_provider_quota (la_rpm ans) (lc_tokens c) (la_tpm ans) of
        Some reason \<Rightarrow> (g, L_exit (Some reason))
      | None \<Rightarrow> (g, L_body))"
| "slot_step c ans L_body g = (g, L_exit None)"
| "slot_step c ans (L_exit r) g = (g\<lparr>lg_permits := lg_permits g - 1\<rparr>, L_release r)"
| "slot_step c ans (L_release r) g = (release_process_slot (lc_batch c) g, L_finished r)"
| "slot_step c ans (L_finished r) g = (g, L_finished r)"

type_synonym llm_system = "llm_governor \<times> llm_call list"

definition llm_step :: "llm_system \<Rightarrow> nat \<times> llm_answer \<Rightarrow> llm_system" where
  "llm_step = (\<lambda>(g, calls) (i, ans).
     if i < length calls then
       let c = calls ! i
       in case slot_step c ans (lc_pc c) g of (g', pc') \<Rightarrow> (g', calls[i := c\<lparr>lc_pc := pc'\<rparr>])
     else (g, calls))"

section \<open>The counters agree with the calls\<close>

definition slot_held :: "llm_pc \<Rightarrow> bool" where
  "slot_held pc \<longleftrightarrow> pc \<in> {L_admitted, L_quota, L_body} \<or> (\<exists>r. pc = L_exit r \<or> pc = L_release r)"

definition permit_held :: "llm_pc \<Rightarrow> bool" where
  "permit_held pc \<longleftrightarrow> pc \<in> {L_quota, L_body} \<or> (\<exists>r. pc = L_exit r)"

definition queued :: "llm_pc \<Rightarrow> bool" where
  "queued pc \<longleftrightarrow> pc = L_wait"

definition calls_at :: "bool \<Rightarrow> (llm_pc \<Rightarrow> bool) \<Rightarrow> llm_call list \<Rightarrow> int" where
  "calls_at is_batch P calls = int (rowcount (\<lambda>c. lc_batch c = is_batch \<and> P (lc_pc c)) calls)"

definition llm_counts :: "int \<Rightarrow> int \<Rightarrow> int \<Rightarrow> int \<Rightarrow> int \<Rightarrow> int \<Rightarrow> int \<Rightarrow> llm_governor \<Rightarrow> bool" where
  "llm_counts limit cap ai ab wi wb permits_out g \<longleftrightarrow>
     lg_active_interactive g = ai \<and> lg_active_batch g = ab \<and> lg_waiting_interactive g = wi \<and> lg_waiting_batch g = wb
     \<and> lg_permits g = permits_out \<and> ab \<le> cap \<and> ai + ab \<le> limit"

definition llm_inv :: "int \<Rightarrow> int \<Rightarrow> llm_system \<Rightarrow> bool" where
  "llm_inv limit cap = (\<lambda>(g, calls).
     (\<forall>c \<in> set calls. lc_limit c \<le> limit \<and> lc_batch_cap c \<le> cap)
     \<and> llm_counts limit cap (calls_at False slot_held calls) (calls_at True slot_held calls)
         (calls_at False queued calls) (calls_at True queued calls)
         (calls_at False permit_held calls + calls_at True permit_held calls) g)"

lemmas llm_pc_sets = slot_held_def permit_held_def queued_def

lemma slot_step_counts:
  fixes c :: llm_call and ans :: llm_answer and pc :: llm_pc and g :: llm_governor
  defines "pc' \<equiv> snd (slot_step c ans pc g)"
  assumes "llm_counts limit cap ai ab wi wb p g" "lc_limit c \<le> limit" "lc_batch_cap c \<le> cap"
    and "of_bool (\<not> lc_batch c \<and> slot_held pc) \<le> ai" "of_bool (lc_batch c \<and> slot_held pc) \<le> ab"
    and "of_bool (\<not> lc_batch c \<and> queued pc) \<le> wi" "of_bool (lc_batch c \<and> queued pc) \<le> wb"
  shows "llm_counts limit cap
      (ai - of_bool (\<not> lc_batch c \<and> slot_held pc) + of_bool (\<not> lc_batch c \<and> slot_held pc'))
      (ab - of_bool (lc_batch c \<and> slot_held pc) + of_bool (lc_batch c \<and> slot_held pc'))
      (wi - of_bool (\<not> lc_batch c \<and> queued pc) + of_bool (\<not> lc_batch c \<and> queued pc'))
      (wb - of_bool (lc_batch c \<and> queued pc) + of_bool (lc_batch c \<and> queued pc'))
      (p - of_bool (permit_held pc) + of_bool (permit_held pc')) (fst (slot_step c ans pc g))"
  using assms(2-) unfolding pc'_def
  by (cases pc; cases "lc_batch c";
      simp add: llm_pc_sets llm_counts_def admission_turn_def admissible_def enter_waiting_def leave_waiting_def
        enter_active_def release_process_slot_def Let_def split: option.split)

lemma calls_at_update:
  assumes "i < length calls" "lc_batch c = lc_batch (calls ! i)"
  shows "calls_at b P (calls[i := c]) = calls_at b P calls
      - of_bool (lc_batch c = b \<and> P (lc_pc (calls ! i))) + of_bool (lc_batch c = b \<and> P (lc_pc c))"
    and "of_bool (lc_batch c = b \<and> P (lc_pc (calls ! i))) \<le> calls_at b P calls"
  using rowcount_list_update [OF assms(1), of "\<lambda>c. lc_batch c = b \<and> P (lc_pc c)" c]
    rowcount_nth_le [OF assms(1), of "\<lambda>c. lc_batch c = b \<and> P (lc_pc c)"] assms(2)
  by (simp_all add: calls_at_def)

lemma llm_step_inv:
  assumes "llm_inv limit cap s"
  shows "llm_inv limit cap (llm_step s e)"
proof -
  obtain g calls i ans where s: "s = (g, calls)" and e: "e = (i, ans)" by (metis surj_pair)
  show ?thesis
  proof (cases "i < length calls")
    case True
    define c where "c = calls ! i"
    define pc' where "pc' = snd (slot_step c ans (lc_pc c) g)"
    define c' where "c' = c\<lparr>lc_pc := pc'\<rparr>"
    have c': "lc_batch c' = lc_batch (calls ! i)" "lc_batch c' = lc_batch c" "lc_pc c' = pc'" "calls ! i = c"
      by (simp_all add: c'_def c_def)
    have limits: "\<forall>d \<in> set calls. lc_limit d \<le> limit \<and> lc_batch_cap d \<le> cap"
      and counts: "llm_counts limit cap (calls_at False slot_held calls) (calls_at True slot_held calls)
         (calls_at False queued calls) (calls_at True queued calls)
         (calls_at False permit_held calls + calls_at True permit_held calls) g"
      using assms by (simp_all add: s llm_inv_def)
    have lim: "lc_limit c \<le> limit" "lc_batch_cap c \<le> cap" using limits True by (auto simp: c_def)
    note upd = calls_at_update [OF True c'(1), unfolded c'(2-4)]
    have "llm_counts limit cap (calls_at False slot_held (calls[i := c'])) (calls_at True slot_held (calls[i := c']))
         (calls_at False queued (calls[i := c'])) (calls_at True queued (calls[i := c']))
         (calls_at False permit_held (calls[i := c']) + calls_at True permit_held (calls[i := c']))
         (fst (slot_step c ans (lc_pc c) g))"
      using slot_step_counts [OF counts lim, of "lc_pc c" ans]
        upd(2) [of False slot_held] upd(2) [of True slot_held] upd(2) [of False queued] upd(2) [of True queued]
      by (cases "lc_batch c") (simp_all add: upd(1) pc'_def algebra_simps)
    moreover have "\<forall>d \<in> set (calls[i := c']). lc_limit d \<le> limit \<and> lc_batch_cap d \<le> cap"
      using limits lim set_update_subset_insert [of calls i c'] by (auto simp: c'_def)
    moreover have "llm_step s e = (fst (slot_step c ans (lc_pc c) g), calls[i := c'])"
      using True by (simp add: llm_step_def s e c_def c'_def pc'_def Let_def split: prod.splits)
    ultimately show ?thesis by (simp add: llm_inv_def)
  qed (use assms s e in \<open>simp add: llm_step_def\<close>)
qed

definition fresh_calls :: "int \<Rightarrow> int \<Rightarrow> llm_call list \<Rightarrow> bool" where
  "fresh_calls limit cap calls \<longleftrightarrow>
     (\<forall>c \<in> set calls. lc_pc c = L_start \<and> lc_limit c \<le> limit \<and> lc_batch_cap c \<le> cap)"

lemma calls_at_none: "(\<And>c. c \<in> set calls \<Longrightarrow> \<not> P (lc_pc c)) \<Longrightarrow> calls_at b P calls = 0"
  by (auto simp: calls_at_def rowcount_def filter_empty_conv)

lemma llm_run_inv:
  assumes "fresh_calls limit cap calls" "0 \<le> limit" "0 \<le> cap"
  shows "llm_inv limit cap (foldl llm_step (llm_start, calls) schedule)"
proof (rule foldl_invariant [where P = "llm_inv limit cap"])
  have "calls_at b slot_held calls = 0" "calls_at b queued calls = 0" "calls_at b permit_held calls = 0" for b
    by (rule calls_at_none; use assms(1) in \<open>auto simp: fresh_calls_def llm_pc_sets\<close>)+
  then show "llm_inv limit cap (llm_start, calls)"
    using assms by (auto simp: llm_inv_def llm_counts_def llm_start_def fresh_calls_def)
qed (rule llm_step_inv)

section \<open>Properties\<close>

text \<open>C10. Under every interleaving of model calls that queue, time out, lose their deployment permit
  or their provider quota, fail or succeed, the number of running calls stays within the configured
  total and that of batch calls within the batch cap, and the published counters are exact.\<close>

theorem llm_concurrency_bounded:
  assumes "fresh_calls limit cap calls0" "0 \<le> limit" "0 \<le> cap"
    and "foldl llm_step (llm_start, calls0) schedule = (g, calls)"
  shows "calls_at False slot_held calls + calls_at True slot_held calls \<le> limit
    \<and> calls_at True slot_held calls \<le> cap
    \<and> lg_active_interactive g = calls_at False slot_held calls \<and> lg_active_batch g = calls_at True slot_held calls
    \<and> lg_waiting_interactive g = calls_at False queued calls \<and> lg_waiting_batch g = calls_at True queued calls"
  using llm_run_inv [OF assms(1-3), of schedule] assms(4) by (simp add: llm_inv_def llm_counts_def)

definition demo_call :: "bool \<Rightarrow> llm_call" where
  "demo_call is_batch = \<lparr>lc_batch = is_batch, lc_limit = 4, lc_batch_cap = 1, lc_tokens = 10, lc_pc = L_start\<rparr>"

definition demo_answer :: "bool \<Rightarrow> llm_answer" where
  "demo_answer late = \<lparr>la_deadline = late, la_permit = True, la_rpm = Some True, la_tpm = Some False\<rparr>"

lemmas llm_eval = llm_step_def llm_start_def demo_call_def demo_answer_def admission_turn_def admissible_def
  enter_waiting_def leave_waiting_def enter_active_def release_process_slot_def check_provider_quota_def Let_def

theorem llm_concurrency_bounded_witness:
  "\<exists>g calls. foldl llm_step (llm_start, [demo_call True, demo_call True])
       [(0, demo_answer False), (1, demo_answer False), (1, demo_answer True)] = (g, calls)
     \<and> map lc_pc calls = [L_admitted, L_finished (Some ''queue_timeout'')] \<and> calls_at True slot_held calls \<le> 1"
proof -
  let ?run = "foldl llm_step (llm_start, [demo_call True, demo_call True])
       [(0, demo_answer False), (1, demo_answer False), (1, demo_answer True)]"
  obtain g calls where run: "?run = (g, calls)" by fastforce
  have pcs: "map lc_pc (snd ?run) = [L_admitted, L_finished (Some ''queue_timeout'')]" by (simp add: llm_eval)
  have "fresh_calls 4 1 [demo_call True, demo_call True]" by (simp add: fresh_calls_def demo_call_def)
  from llm_concurrency_bounded [OF this _ _ run] run pcs show ?thesis by auto
qed



end
