(* ===== verification/Write_Proposals.thy ===== *)
theory Write_Proposals
  imports Prelude
begin

text \<open>
  Write proposals of MCP tools (\<open>agents/mcp/write_store.py\<close>): a model-initiated write becomes a row
  that its user confirms or rejects, a worker claims, and the worker completes or fails.  Rows live in
  one SQLite table; every operation is one transaction.

  Time stamps are compared as ISO texts in the source, whose order is that of the instants.  The
  encrypted arguments and the digest are strings handed in; \<open>uuid\<close> gives the fresh hexadecimal
  identifier a claim would store for a proposal.
\<close>

section \<open>Rows\<close>

datatype proposal_status = Proposed | Confirmed | Rejected | Expired | Running | Completed | Failed

record write_proposal =
  wp_id :: string
  wp_user :: int
  wp_slug :: string
  wp_tool :: string
  wp_digest :: string
  wp_ciphertext :: string
  wp_hint :: string
  wp_status :: proposal_status
  wp_key :: string
  wp_ref :: string
  wp_sha256 :: string
  wp_error :: string
  wp_attempts :: nat
  wp_created :: time
  wp_expires :: time
  wp_updated :: time

type_synonym proposals = "write_proposal list"

section \<open>Operations\<close>

text \<open>\<open>None\<close> is the \<open>IntegrityError\<close> of an identifier that exists already.\<close>

definition wp_create ::
  "time \<Rightarrow> string \<Rightarrow> int \<Rightarrow> string \<Rightarrow> string \<Rightarrow> string \<Rightarrow> string \<Rightarrow> string \<Rightarrow> int \<Rightarrow> proposals \<Rightarrow> proposals option" where
  "wp_create now pid user slug tool digest ciphertext hint ttl rows =
     (if \<exists>r \<in> set rows. wp_id r = pid then None
      else Some (rows @
        [\<lparr>wp_id = pid, wp_user = user, wp_slug = slug, wp_tool = tool, wp_digest = digest,
          wp_ciphertext = ciphertext, wp_hint = clip 200 hint, wp_status = Proposed, wp_key = '''', wp_ref = '''',
          wp_sha256 = '''', wp_error = '''', wp_attempts = 0, wp_created = now,
          wp_expires = now + seconds (max 1 ttl), wp_updated = now\<rparr>]))"

definition wp_get :: "int \<Rightarrow> string \<Rightarrow> proposals \<Rightarrow> write_proposal option" where
  "wp_get user pid rows = fetchone (\<lambda>r. wp_id r = pid \<and> wp_user r = user) rows"

definition wp_list_for_user :: "int \<Rightarrow> proposal_status list \<Rightarrow> int \<Rightarrow> proposals \<Rightarrow> proposals" where
  "wp_list_for_user user statuses limit rows =
     take (nat (max 1 limit))
       (sort_key (\<lambda>r. - wp_created r)
         (filter (\<lambda>r. wp_user r = user \<and> (statuses \<noteq> [] \<longrightarrow> wp_status r \<in> set statuses)) rows))"

definition wp_count_by_status :: "proposals \<Rightarrow> (proposal_status \<times> nat) list" where
  "wp_count_by_status rows = map (\<lambda>st. (st, rowcount (\<lambda>r. wp_status r = st) rows)) (remdups (map wp_status rows))"

datatype decision = Decided | Not_found | Decision_expired | Invalid_state

definition wp_decide ::
  "proposal_status \<Rightarrow> time \<Rightarrow> int \<Rightarrow> string \<Rightarrow> proposals \<Rightarrow> (write_proposal option \<times> decision) \<times> proposals" where
  "wp_decide target now user pid rows =
     (case fetchone (\<lambda>r. wp_id r = pid \<and> wp_user r = user) rows of
        None \<Rightarrow> ((None, Not_found), rows)
      | Some proposal \<Rightarrow>
          if wp_status proposal \<in> {Proposed, Confirmed} \<and> wp_expires proposal \<le> now then
            let rows' = update_where (\<lambda>r. wp_id r = wp_id proposal)
                          (\<lambda>r. r\<lparr>wp_status := Expired, wp_updated := now\<rparr>) rows
            in ((wp_get user (wp_id proposal) rows', Decision_expired), rows')
          else if wp_status proposal \<noteq> Proposed then ((Some proposal, Invalid_state), rows)
          else
            let rows' = update_where (\<lambda>r. wp_id r = wp_id proposal \<and> wp_status r = Proposed)
                          (\<lambda>r. r\<lparr>wp_status := target, wp_updated := now\<rparr>) rows
            in ((wp_get user (wp_id proposal) rows', Decided), rows'))"

definition wp_confirm where "wp_confirm = wp_decide Confirmed"

definition wp_reject where "wp_reject = wp_decide Rejected"

definition wp_expire_overdue :: "time \<Rightarrow> proposals \<Rightarrow> nat \<times> proposals" where
  "wp_expire_overdue now rows =
     (let overdue = (\<lambda>r. wp_status r \<in> {Proposed, Confirmed} \<and> wp_expires r \<le> now)
      in (rowcount overdue rows, update_where overdue (\<lambda>r. r\<lparr>wp_status := Expired, wp_updated := now\<rparr>) rows))"

text \<open>The loop of \<open>claim\<close> over the selected identifiers.\<close>

fun wp_claim_loop :: "time \<Rightarrow> (string \<Rightarrow> string) \<Rightarrow> string list \<Rightarrow> proposals \<Rightarrow> proposals \<times> proposals" where
  "wp_claim_loop now uuid [] rows = ([], rows)"
| "wp_claim_loop now uuid (pid # pids) rows =
     (let hit = (\<lambda>r. wp_id r = pid \<and> wp_status r = Confirmed);
          rows' = update_where hit
            (\<lambda>r. r\<lparr>wp_status := Running, wp_attempts := wp_attempts r + 1,
                   wp_key := (if wp_key r = '''' then uuid pid else wp_key r), wp_updated := now\<rparr>) rows;
          here = (if rowcount hit rows > 0
                  then (case fetchone (\<lambda>r. wp_id r = pid) rows' of None \<Rightarrow> [] | Some r \<Rightarrow> [r]) else [])
      in case wp_claim_loop now uuid pids rows' of (claimed, rows'') \<Rightarrow> (here @ claimed, rows''))"

definition wp_claim :: "time \<Rightarrow> (string \<Rightarrow> string) \<Rightarrow> int \<Rightarrow> proposals \<Rightarrow> proposals \<times> proposals" where
  "wp_claim now uuid limit rows =
     wp_claim_loop now uuid
       (take (nat (max 1 limit))
         (map wp_id (sort_key wp_created (filter (\<lambda>r. wp_status r = Confirmed \<and> now < wp_expires r) rows)))) rows"

definition wp_complete :: "time \<Rightarrow> string \<Rightarrow> string \<Rightarrow> string \<Rightarrow> string \<Rightarrow> proposals \<Rightarrow> bool \<times> proposals" where
  "wp_complete now pid key ref sha256 rows =
     (let hit = (\<lambda>r. wp_id r = pid \<and> wp_status r = Running \<and> wp_key r = key)
      in (rowcount hit rows > 0,
          update_where hit
            (\<lambda>r. r\<lparr>wp_status := Completed, wp_ref := ref, wp_sha256 := sha256, wp_error := '''', wp_updated := now\<rparr>) rows))"

text \<open>\<open>fail\<close> returns the resulting status, \<open>None\<close> for \<open>not_found\<close>.\<close>

definition wp_fail ::
  "int \<Rightarrow> time \<Rightarrow> string \<Rightarrow> string \<Rightarrow> string \<Rightarrow> bool \<Rightarrow> proposals \<Rightarrow> proposal_status option \<times> proposals" where
  "wp_fail max_attempts_setting now pid key error_code retryable rows =
     (let max_attempts = nat (max 1 max_attempts_setting) in
      case fetchone (\<lambda>r. wp_id r = pid) rows of
        None \<Rightarrow> (None, rows)
      | Some proposal \<Rightarrow>
          if wp_status proposal \<noteq> Running \<or> wp_key proposal \<noteq> key then (Some (wp_status proposal), rows)
          else
            let next_status = (if retryable \<and> wp_attempts proposal < max_attempts then Confirmed else Failed)
            in (Some next_status,
                update_where (\<lambda>r. wp_id r = wp_id proposal)
                  (\<lambda>r. r\<lparr>wp_status := next_status, wp_error := clip 100 error_code, wp_updated := now\<rparr>) rows))"

section \<open>Histories\<close>

datatype proposal_event =
    Create time string int string string string string string int
  | Confirm time int string
  | Reject time int string
  | Expire_overdue time
  | Claim time "string \<Rightarrow> string" int
  | Complete time string string string string
  | Fail time string string string bool

text \<open>Beside the table a history keeps what the workers were handed (identifier and idempotency key
  of every claim) and which users confirmed what.\<close>

record proposal_world =
  pw_rows :: proposals
  pw_claims :: "(string \<times> string) list"
  pw_confirmed :: "(int \<times> string) set"

definition proposal_start :: proposal_world where
  "proposal_start = \<lparr>pw_rows = [], pw_claims = [], pw_confirmed = {}\<rparr>"

fun proposal_step :: "int \<Rightarrow> proposal_world \<Rightarrow> proposal_event \<Rightarrow> proposal_world" where
  "proposal_step m w (Create now pid user slug tool digest ciphertext hint ttl) =
     (case wp_create now pid user slug tool digest ciphertext hint ttl (pw_rows w) of
        None \<Rightarrow> w | Some rows \<Rightarrow> w\<lparr>pw_rows := rows\<rparr>)"
| "proposal_step m w (Confirm now user pid) =
     (case wp_confirm now user pid (pw_rows w) of
        ((_, d), rows) \<Rightarrow> w\<lparr>pw_rows := rows,
          pw_confirmed := pw_confirmed w \<union> (if d = Decided then {(user, pid)} else {})\<rparr>)"
| "proposal_step m w (Reject now user pid) = w\<lparr>pw_rows := snd (wp_reject now user pid (pw_rows w))\<rparr>"
| "proposal_step m w (Expire_overdue now) = w\<lparr>pw_rows := snd (wp_expire_overdue now (pw_rows w))\<rparr>"
| "proposal_step m w (Claim now uuid limit) =
     (case wp_claim now uuid limit (pw_rows w) of
        (claimed, rows) \<Rightarrow> w\<lparr>pw_rows := rows, pw_claims := pw_claims w @ map (\<lambda>r. (wp_id r, wp_key r)) claimed\<rparr>)"
| "proposal_step m w (Complete now pid key ref sha256) =
     w\<lparr>pw_rows := snd (wp_complete now pid key ref sha256 (pw_rows w))\<rparr>"
| "proposal_step m w (Fail now pid key error_code retryable) =
     w\<lparr>pw_rows := snd (wp_fail m now pid key error_code retryable (pw_rows w))\<rparr>"

text \<open>\<open>uuid4().hex\<close> is never empty.\<close>

fun event_ok :: "proposal_event \<Rightarrow> bool" where
  "event_ok (Claim now uuid limit) = (\<forall>pid. uuid pid \<noteq> '''')"
| "event_ok _ = True"

section \<open>The invariant\<close>

abbreviation claims_of :: "string \<Rightarrow> (string \<times> string) list \<Rightarrow> (string \<times> string) list" where
  "claims_of pid claims \<equiv> filter (\<lambda>c. fst c = pid) claims"

definition row_ok :: "nat \<Rightarrow> (string \<times> string) list \<Rightarrow> (int \<times> string) set \<Rightarrow> write_proposal \<Rightarrow> bool" where
  "row_ok m claims confirmed r \<longleftrightarrow>
     wp_attempts r = length (claims_of (wp_id r) claims)
     \<and> (\<forall>c \<in> set claims. fst c = wp_id r \<longrightarrow> snd c = wp_key r)
     \<and> (wp_attempts r > 0 \<longrightarrow> wp_key r \<noteq> '''')
     \<and> wp_attempts r \<le> m
     \<and> (wp_status r = Proposed \<longrightarrow> wp_attempts r = 0)
     \<and> (wp_status r = Confirmed \<longrightarrow> wp_attempts r < m)
     \<and> (wp_status r \<in> {Confirmed, Running, Completed, Failed} \<longrightarrow> (wp_user r, wp_id r) \<in> confirmed)"

definition proposal_inv :: "nat \<Rightarrow> proposal_world \<Rightarrow> bool" where
  "proposal_inv m w \<longleftrightarrow> distinct (map wp_id (pw_rows w))
     \<and> (\<forall>r \<in> set (pw_rows w). row_ok m (pw_claims w) (pw_confirmed w) r)
     \<and> fst ` set (pw_claims w) \<subseteq> wp_id ` set (pw_rows w)"

text \<open>An update that keeps identifiers and well-formedness row by row.\<close>

lemma inv_update:
  assumes "proposal_inv m w" "\<And>r. wp_id (f r) = wp_id r" "pw_claims w' = pw_claims w"
    and "pw_confirmed w \<subseteq> pw_confirmed w'" "pw_rows w' = update_where P f (pw_rows w)"
    and "\<And>r. r \<in> set (pw_rows w) \<Longrightarrow> P r \<Longrightarrow> row_ok m (pw_claims w) (pw_confirmed w) r
      \<Longrightarrow> row_ok m (pw_claims w) (pw_confirmed w') (f r)"
  shows "proposal_inv m w'"
proof -
  have mono: "row_ok m c C r \<Longrightarrow> C \<subseteq> C' \<Longrightarrow> row_ok m c C' r" for c C C' r
    by (auto simp: row_ok_def)
  have ids: "map wp_id (pw_rows w') = map wp_id (pw_rows w)"
    using assms(2,5) by (simp add: table_simps)
  then have "wp_id ` set (pw_rows w') = wp_id ` set (pw_rows w)" by (metis set_map)
  with ids assms mono show ?thesis
    by (auto simp: proposal_inv_def set_update_where)
qed

lemma inv_same_id:
  assumes "proposal_inv m w" "r \<in> set (pw_rows w)" "p \<in> set (pw_rows w)" "wp_id r = wp_id p"
  shows "r = p"
  using assms distinct_key_unique [of wp_id "pw_rows w" r p] by (simp add: proposal_inv_def)

lemma inv_decide:
  assumes inv: "proposal_inv m w" and m: "0 < m" and target: "target \<in> {Confirmed, Rejected}"
    and step: "wp_decide target now user pid (pw_rows w) = ((out, d), rows)"
    and confirmed: "C = pw_confirmed w \<union> (if d = Decided \<and> target = Confirmed then {(user, pid)} else {})"
  shows "proposal_inv m (w\<lparr>pw_rows := rows, pw_confirmed := C\<rparr>)"
proof (cases "fetchone (\<lambda>r. wp_id r = pid \<and> wp_user r = user) (pw_rows w)")
  case None
  then show ?thesis using inv step confirmed by (simp add: wp_decide_def proposal_inv_def)
next
  case (Some p)
  then have p: "p \<in> set (pw_rows w)" "wp_id p = pid" "wp_user p = user" using fetchone_SomeD by fastforce+
  consider (expired) "wp_status p \<in> {Proposed, Confirmed} \<and> wp_expires p \<le> now"
    | (invalid) "\<not> (wp_status p \<in> {Proposed, Confirmed} \<and> wp_expires p \<le> now)" "wp_status p \<noteq> Proposed"
    | (decided) "\<not> (wp_status p \<in> {Proposed, Confirmed} \<and> wp_expires p \<le> now)" "wp_status p = Proposed" by blast
  then show ?thesis
  proof cases
    case expired
    then have "rows = update_where (\<lambda>r. wp_id r = pid) (\<lambda>r. r\<lparr>wp_status := Expired, wp_updated := now\<rparr>) (pw_rows w)"
      "d = Decision_expired" using step Some p by (auto simp: wp_decide_def Let_def)
    with inv confirmed show ?thesis
      by (intro inv_update [OF inv, where P = "\<lambda>r. wp_id r = pid"
            and f = "\<lambda>r. r\<lparr>wp_status := Expired, wp_updated := now\<rparr>"]) (auto simp: row_ok_def)
  next
    case invalid
    then have "rows = pw_rows w" "d = Invalid_state" using step Some by (auto simp: wp_decide_def)
    with inv confirmed show ?thesis by (simp add: proposal_inv_def)
  next
    case decided
    then have rows: "rows = update_where (\<lambda>r. wp_id r = pid \<and> wp_status r = Proposed)
        (\<lambda>r. r\<lparr>wp_status := target, wp_updated := now\<rparr>) (pw_rows w)" "d = Decided"
      using step Some p by (auto simp: wp_decide_def Let_def)
    have "wp_user r = user" if "r \<in> set (pw_rows w)" "wp_id r = pid" for r
      using inv_same_id [OF inv that(1) p(1)] that p by simp
    with inv confirmed rows m target show ?thesis
      by (intro inv_update [OF inv, where P = "\<lambda>r. wp_id r = pid \<and> wp_status r = Proposed"
            and f = "\<lambda>r. r\<lparr>wp_status := target, wp_updated := now\<rparr>"]) (auto simp: row_ok_def)
  qed
qed

lemma inv_fail:
  assumes inv: "proposal_inv m w" and m: "m = nat (max 1 setting)"
  shows "proposal_inv m (w\<lparr>pw_rows := snd (wp_fail setting now pid key err retry (pw_rows w))\<rparr>)"
proof (cases "fetchone (\<lambda>r. wp_id r = pid) (pw_rows w)")
  case None
  then show ?thesis using inv by (simp add: wp_fail_def)
next
  case (Some p)
  then have p: "p \<in> set (pw_rows w)" "wp_id p = pid" using fetchone_SomeD by fastforce+
  show ?thesis
  proof (cases "wp_status p = Running \<and> wp_key p = key")
    case False
    then show ?thesis using inv Some by (auto simp: wp_fail_def)
  next
    case True
    let ?next = "if retry \<and> wp_attempts p < m then Confirmed else Failed"
    have same: "r = p" if "r \<in> set (pw_rows w)" "wp_id r = pid" for r
      using inv_same_id [OF inv that(1) p(1)] that p by simp
    have rows: "snd (wp_fail setting now pid key err retry (pw_rows w)) =
        update_where (\<lambda>r. wp_id r = pid) (\<lambda>r. r\<lparr>wp_status := ?next, wp_error := clip 100 err, wp_updated := now\<rparr>) (pw_rows w)"
      using Some True p m by (auto simp: wp_fail_def Let_def)
    show ?thesis unfolding rows
      by (rule inv_update [OF inv, where P = "\<lambda>r. wp_id r = pid"
            and f = "\<lambda>r. r\<lparr>wp_status := ?next, wp_error := clip 100 err, wp_updated := now\<rparr>"])
        (use True same in \<open>auto simp: row_ok_def\<close>)
  qed
qed

lemma inv_complete: "proposal_inv m w \<Longrightarrow> proposal_inv m (w\<lparr>pw_rows := snd (wp_complete now pid key ref sha (pw_rows w))\<rparr>)"
  by (rule inv_update [where P = "\<lambda>r. wp_id r = pid \<and> wp_status r = Running \<and> wp_key r = key"
        and f = "\<lambda>r. r\<lparr>wp_status := Completed, wp_ref := ref, wp_sha256 := sha, wp_error := '''', wp_updated := now\<rparr>"])
    (auto simp: wp_complete_def Let_def row_ok_def)

lemma inv_expire: "proposal_inv m w \<Longrightarrow> proposal_inv m (w\<lparr>pw_rows := snd (wp_expire_overdue now (pw_rows w))\<rparr>)"
  by (rule inv_update [where P = "\<lambda>r. wp_status r \<in> {Proposed, Confirmed} \<and> wp_expires r \<le> now"
        and f = "\<lambda>r. r\<lparr>wp_status := Expired, wp_updated := now\<rparr>"])
    (auto simp: wp_expire_overdue_def Let_def row_ok_def)

lemma inv_create:
  assumes "proposal_inv m w" "wp_create now pid user slug tool digest ciphertext hint ttl (pw_rows w) = Some rows"
  shows "proposal_inv m (w\<lparr>pw_rows := rows\<rparr>)"
proof -
  have "pid \<notin> wp_id ` set (pw_rows w)" using assms(2) by (auto simp: wp_create_def split: if_splits)
  moreover have "fst ` set (pw_claims w) \<subseteq> wp_id ` set (pw_rows w)" using assms(1) by (simp add: proposal_inv_def)
  ultimately have "pid \<notin> fst ` set (pw_claims w)" by blast
  then have "claims_of pid (pw_claims w) = []" "\<forall>c \<in> set (pw_claims w). fst c \<noteq> pid"
    by (auto simp: filter_empty_conv)
  moreover obtain r where rows: "rows = pw_rows w @ [r]" and r: "wp_id r = pid" "wp_status r = Proposed" "wp_attempts r = 0"
    using assms(2) by (auto simp: wp_create_def split: if_splits)
  ultimately have "row_ok m (pw_claims w) (pw_confirmed w) r" by (simp add: row_ok_def)
  with assms(1) rows r \<open>pid \<notin> wp_id ` set (pw_rows w)\<close> show ?thesis by (auto simp: proposal_inv_def)
qed

text \<open>The claim loop hands out one entry per row it moves to \<open>running\<close>.\<close>

lemma inv_claim_loop:
  assumes "proposal_inv m w" "\<forall>pid. uuid pid \<noteq> ''''" "wp_claim_loop now uuid pids (pw_rows w) = (claimed, rows)"
  shows "proposal_inv m (w\<lparr>pw_rows := rows, pw_claims := pw_claims w @ map (\<lambda>r. (wp_id r, wp_key r)) claimed\<rparr>)"
  using assms
proof (induction pids arbitrary: w claimed)
  case Nil
  then show ?case by (simp add: proposal_inv_def)
next
  case (Cons pid pids)
  define hit where "hit = (\<lambda>r::write_proposal. wp_id r = pid \<and> wp_status r = Confirmed)"
  define f where "f = (\<lambda>r::write_proposal. r\<lparr>wp_status := Running, wp_attempts := wp_attempts r + 1,
      wp_key := (if wp_key r = '''' then uuid pid else wp_key r), wp_updated := now\<rparr>)"
  define rows1 where "rows1 = update_where hit f (pw_rows w)"
  define here where "here = (if rowcount hit (pw_rows w) > 0
      then (case fetchone (\<lambda>r. wp_id r = pid) rows1 of None \<Rightarrow> [] | Some r \<Rightarrow> [r]) else [])"
  define w1 where "w1 = w\<lparr>pw_rows := rows1, pw_claims := pw_claims w @ map (\<lambda>r. (wp_id r, wp_key r)) here\<rparr>"
  obtain later where later: "wp_claim_loop now uuid pids (pw_rows w1) = (later, rows)" "claimed = here @ later"
    using Cons.prems(3) by (auto simp: hit_def f_def rows1_def here_def w1_def Let_def split: prod.splits)
  have ids: "map wp_id rows1 = map wp_id (pw_rows w)" by (simp add: rows1_def f_def table_simps)
  have inv1: "proposal_inv m w1"
  proof (cases "\<exists>p \<in> set (pw_rows w). hit p")
    case False
    then have "\<not> 0 < rowcount hit (pw_rows w)" "rows1 = pw_rows w"
      unfolding rows1_def by (simp add: rowcount_pos_iff, simp add: update_where_none)
    then have "rows1 = pw_rows w" "here = []" by (simp_all add: here_def)
    then show ?thesis using Cons.prems(1) by (simp add: w1_def)
  next
    case True
    then obtain p where p: "p \<in> set (pw_rows w)" "wp_id p = pid" "wp_status p = Confirmed" by (auto simp: hit_def)
    have same: "r = p" if "r \<in> set (pw_rows w)" "wp_id r = pid" for r
      using inv_same_id [OF Cons.prems(1) that(1) p(1)] that p by simp
    have fp: "f p \<in> set rows1" "wp_id (f p) = pid"
      using p update_where_touched [of p "pw_rows w" hit f] by (auto simp: rows1_def hit_def f_def)
    have "distinct (map wp_id rows1)" using ids Cons.prems(1) by (simp add: proposal_inv_def)
    then have "fetchone (\<lambda>r. wp_id r = pid) rows1 = Some (f p)" using fp by (simp add: fetchone_key_iff)
    then have here: "here = [f p]" using True by (simp add: here_def rowcount_pos_iff)
    have set1: "r = f p \<or> r \<in> set (pw_rows w) - {p}" if r1: "r \<in> set rows1" for r
    proof -
      obtain q where q: "q \<in> set (pw_rows w)" "r = (if hit q then f q else q)"
        using r1 unfolding rows1_def set_update_where by blast
      have "hit p" using p by (simp add: hit_def)
      with q same show ?thesis by (cases "hit q") (auto simp: hit_def)
    qed
    have okp: "row_ok m (pw_claims w) (pw_confirmed w) p" using Cons.prems(1) p by (simp add: proposal_inv_def)
    let ?claims = "pw_claims w @ [(pid, wp_key (f p))]"
    have "row_ok m ?claims (pw_confirmed w) (f p)"
      using okp p Cons.prems(2) by (auto simp: row_ok_def f_def filter_empty_conv)
    moreover have "row_ok m ?claims (pw_confirmed w) r" if "r \<in> set (pw_rows w) - {p}" for r
      using Cons.prems(1) that same by (auto simp: proposal_inv_def row_ok_def)
    moreover have "fst ` set ?claims \<subseteq> wp_id ` set rows1"
    proof -
      have "wp_id ` set rows1 = wp_id ` set (pw_rows w)" using ids by (metis set_map)
      then show ?thesis using Cons.prems(1) p by (auto simp: proposal_inv_def)
    qed
    ultimately show ?thesis
      using ids Cons.prems(1) here fp(2) by (auto simp: proposal_inv_def w1_def dest!: set1)
  qed
  from Cons.IH [OF inv1 Cons.prems(2) later(1)] later(2) show ?case by (simp add: w1_def)
qed

lemma proposal_step_inv:
  assumes "proposal_inv m w" "m = nat (max 1 setting)" "event_ok e"
  shows "proposal_inv m (proposal_step setting w e)"
proof (cases e)
  case (Confirm now user pid)
  obtain out d rows where step: "wp_decide Confirmed now user pid (pw_rows w) = ((out, d), rows)" by (metis surj_pair)
  show ?thesis
    using inv_decide [OF assms(1) _ _ step refl] assms(2) step by (simp add: Confirm wp_confirm_def)
next
  case (Reject now user pid)
  obtain out d rows where step: "wp_decide Rejected now user pid (pw_rows w) = ((out, d), rows)" by (metis surj_pair)
  show ?thesis
    using inv_decide [OF assms(1) _ _ step refl] assms(2) step by (simp add: Reject wp_reject_def)
next
  case (Claim now uuid limit)
  then show ?thesis
    using inv_claim_loop [OF assms(1)] assms(3) by (auto simp: wp_claim_def split: prod.splits)
qed (use assms inv_create inv_fail inv_complete inv_expire in \<open>auto split: option.splits\<close>)

lemma proposal_run_inv:
  assumes "\<forall>e \<in> set es. event_ok e"
  shows "proposal_inv (nat (max 1 setting)) (foldl (proposal_step setting) proposal_start es)"
proof -
  have "proposal_inv (nat (max 1 setting)) (foldl (proposal_step setting) w es)"
    if "proposal_inv (nat (max 1 setting)) w" for w
    using that assms by (induction es arbitrary: w) (auto intro: proposal_step_inv)
  then show ?thesis by (simp add: proposal_start_def proposal_inv_def)
qed

section \<open>Rows that reached an end stay as they are\<close>

definition final_status :: "proposal_status \<Rightarrow> bool" where
  "final_status st \<longleftrightarrow> st \<in> {Rejected, Expired, Completed, Failed}"

lemma final_claim_loop:
  assumes "r \<in> set rows" "final_status (wp_status r)" "wp_claim_loop now uuid pids rows = (claimed, rows')"
  shows "r \<in> set rows'"
  using assms
proof (induction pids arbitrary: rows claimed)
  case (Cons pid pids)
  define hit where "hit = (\<lambda>r::write_proposal. wp_id r = pid \<and> wp_status r = Confirmed)"
  have "r \<in> set (update_where hit f rows)" for f
    using Cons.prems(1,2) by (intro update_where_untouched) (auto simp: hit_def final_status_def)
  with Cons.IH Cons.prems(2,3) show ?case by (auto simp: hit_def Let_def split: prod.splits)
qed simp

lemma final_row_step:
  assumes inv: "proposal_inv m w" and r: "r \<in> set (pw_rows w)" "final_status (wp_status r)"
  shows "r \<in> set (pw_rows (proposal_step setting w e))"
proof -
  have decide: "r \<in> set (snd (wp_decide target now user pid (pw_rows w)))" for target now user pid
  proof (cases "fetchone (\<lambda>r. wp_id r = pid \<and> wp_user r = user) (pw_rows w)")
    case (Some p)
    then have p: "p \<in> set (pw_rows w)" using fetchone_SomeD by fastforce
    have "wp_id r = wp_id p \<Longrightarrow> r = p" by (rule inv_same_id [OF inv r(1) p])
    with r Some show ?thesis
      by (auto simp: wp_decide_def Let_def final_status_def intro!: update_where_untouched)
  qed (use r in \<open>simp add: wp_decide_def\<close>)
  have failing: "r \<in> set (snd (wp_fail setting now pid key err retry (pw_rows w)))" for now pid key err retry
  proof (cases "fetchone (\<lambda>r. wp_id r = pid) (pw_rows w)")
    case (Some p)
    then have p: "p \<in> set (pw_rows w)" using fetchone_SomeD by fastforce
    have "wp_id r = wp_id p \<Longrightarrow> r = p" by (rule inv_same_id [OF inv r(1) p])
    with r Some show ?thesis
      by (auto simp: wp_fail_def Let_def final_status_def intro!: update_where_untouched)
  qed (use r in \<open>simp add: wp_fail_def\<close>)
  show ?thesis
  proof (cases e)
    case (Confirm now user pid)
    then show ?thesis using decide [of Confirmed now user pid] by (auto simp: wp_confirm_def split: prod.splits)
  next
    case (Reject now user pid)
    then show ?thesis using decide [of Rejected now user pid] by (simp add: wp_reject_def)
  next
    case (Claim now uuid limit)
    then show ?thesis using final_claim_loop [OF r] by (auto simp: wp_claim_def split: prod.splits)
  next
    case (Fail now pid key err retry)
    then show ?thesis using failing by simp
  qed (use r in \<open>auto simp: wp_create_def wp_expire_overdue_def wp_complete_def final_status_def Let_def
      intro!: update_where_untouched split: option.splits if_splits\<close>)
qed

section \<open>Properties\<close>

text \<open>C12. A confirmed write is handed to workers at most \<open>MCP_WRITE_MAX_ATTEMPTS\<close> times, always under
  the same idempotency key, whatever confirmations, rejections, expiries, claims, completions and
  failures are interleaved.\<close>

theorem claims_bounded_same_key:
  assumes "\<forall>e \<in> set es. event_ok e"
    and "w = foldl (proposal_step setting) proposal_start es"
  shows "length (claims_of pid (pw_claims w)) \<le> nat (max 1 setting)
    \<and> (\<forall>k k'. (pid, k) \<in> set (pw_claims w) \<longrightarrow> (pid, k') \<in> set (pw_claims w) \<longrightarrow> k = k')"
proof (cases "pid \<in> fst ` set (pw_claims w)")
  case True
  have inv: "proposal_inv (nat (max 1 setting)) w" using proposal_run_inv [OF assms(1)] assms(2) by simp
  then obtain r where r: "r \<in> set (pw_rows w)" "wp_id r = pid" using True by (auto simp: proposal_inv_def)
  with inv have ok: "row_ok (nat (max 1 setting)) (pw_claims w) (pw_confirmed w) r" by (simp add: proposal_inv_def)
  then have "(pid, k) \<in> set (pw_claims w) \<Longrightarrow> k = wp_key r" for k using r(2) by (auto simp: row_ok_def)
  with ok r(2) show ?thesis by (auto simp: row_ok_def)
next
  case False
  then have "claims_of pid (pw_claims w) = []" by (auto simp: filter_empty_conv)
  with False show ?thesis by force
qed

definition demo_write_events :: "proposal_event list" where
  "demo_write_events =
     [Create 0 ''p'' 7 ''srv'' ''put'' ''d'' ''c'' ''h'' 60, Confirm (seconds 1) 7 ''p'',
      Claim (seconds 2) (\<lambda>_. ''k1'') 1, Fail (seconds 3) ''p'' ''k1'' ''timeout'' True,
      Claim (seconds 4) (\<lambda>_. ''k2'') 1]"

lemmas write_eval = demo_write_events_def proposal_start_def wp_create_def wp_confirm_def wp_decide_def wp_get_def
  wp_claim_def wp_fail_def seconds_def clip_def Let_def

lemma demo_write_run:
  "pw_claims (foldl (proposal_step 3) proposal_start demo_write_events) = [(''p'', ''k1''), (''p'', ''k1'')]"
  by (simp add: write_eval)

theorem claims_bounded_same_key_witness:
  "pw_claims (foldl (proposal_step 3) proposal_start demo_write_events) = [(''p'', ''k1''), (''p'', ''k1'')]
   \<and> length (claims_of ''p'' (pw_claims (foldl (proposal_step 3) proposal_start demo_write_events))) \<le> 3"
  using claims_bounded_same_key [of demo_write_events _ 3 "''p''", OF _ refl] demo_write_run
  by (simp add: demo_write_events_def)

lemma claim_loop_confirmed:
  assumes "proposal_inv m v" "\<forall>pid. uuid pid \<noteq> ''''" "wp_claim_loop now uuid pids (pw_rows v) = (claimed, rows)" "s \<in> set claimed"
  shows "(wp_user s, wp_id s) \<in> pw_confirmed v"
  using assms
proof (induction pids arbitrary: v claimed)
  case (Cons pid pids)
  let ?hit = "\<lambda>r::write_proposal. wp_id r = pid \<and> wp_status r = Confirmed"
  let ?f = "\<lambda>r::write_proposal. r\<lparr>wp_status := Running, wp_attempts := wp_attempts r + 1,
      wp_key := (if wp_key r = '''' then uuid pid else wp_key r), wp_updated := now\<rparr>"
  let ?rows = "update_where ?hit ?f (pw_rows v)"
  let ?here = "if rowcount ?hit (pw_rows v) > 0
    then (case fetchone (\<lambda>r. wp_id r = pid) ?rows of None \<Rightarrow> [] | Some r \<Rightarrow> [r]) else []"
  let ?v1 = "v\<lparr>pw_rows := ?rows, pw_claims := pw_claims v @ map (\<lambda>r. (wp_id r, wp_key r)) ?here\<rparr>"
  have one: "wp_claim_loop now uuid [pid] (pw_rows v) = (?here, ?rows)" by (simp add: Let_def)
  have inv1: "proposal_inv m ?v1" using inv_claim_loop [OF Cons.prems(1,2) one] by simp
  obtain later where later: "wp_claim_loop now uuid pids (pw_rows ?v1) = (later, rows)" "claimed = ?here @ later"
    using Cons.prems(3) by (auto simp: Let_def split: prod.splits)
  show ?case
  proof (cases "s \<in> set ?here")
    case True
    then have count: "rowcount ?hit (pw_rows v) > 0" by (cases "rowcount ?hit (pw_rows v) > 0") simp_all
    then obtain p where p: "p \<in> set (pw_rows v)" "?hit p" by (auto simp: rowcount_pos_iff)
    have "fetchone (\<lambda>r. wp_id r = pid) ?rows = Some s"
      using True count by (cases "fetchone (\<lambda>r. wp_id r = pid) ?rows") simp_all
    then have s: "s \<in> set ?rows" "wp_id s = pid" using fetchone_SomeD by fast+
    have "s \<in> (\<lambda>r. if ?hit r then ?f r else r) ` set (pw_rows v)" using s(1) by (simp only: set_update_where)
    then obtain q where q: "s = (if ?hit q then ?f q else q)" "q \<in> set (pw_rows v)" by (rule imageE)
    then have "q = p" using s(2) p inv_same_id [OF Cons.prems(1) q(2) p(1)] by (auto split: if_splits)
    then show ?thesis using Cons.prems(1) p q by (auto simp: proposal_inv_def row_ok_def)
  next
    case False
    then have "s \<in> set later" using Cons.prems(4) unfolding later(2) set_append Un_iff by iprover
    from Cons.IH [OF inv1 Cons.prems(2) later(1) this] show ?thesis by simp
  qed
qed simp

text \<open>No write without its user's consent: whatever a worker claims was created for some user and
  confirmed, before it expired, by that very user.\<close>

theorem claimed_was_confirmed:
  assumes "\<forall>e \<in> set es. event_ok e"
    and "w = foldl (proposal_step setting) proposal_start es"
    and "wp_claim now uuid limit (pw_rows w) = (claimed, rows)" "r \<in> set claimed" "\<forall>pid. uuid pid \<noteq> ''''"
  shows "(wp_user r, wp_id r) \<in> pw_confirmed w"
proof -
  have inv: "proposal_inv (nat (max 1 setting)) w" using proposal_run_inv [OF assms(1)] assms(2) by simp
  show ?thesis by (rule claim_loop_confirmed [OF inv assms(5) assms(3) [unfolded wp_claim_def] assms(4)])
qed

theorem claimed_was_confirmed_witness:
  "\<exists>claimed rows. wp_claim (seconds 2) (\<lambda>_. ''k1'') 1 (pw_rows (foldl (proposal_step 3) proposal_start (take 2 demo_write_events)))
       = (claimed, rows)
     \<and> map wp_id claimed = [''p''] \<and> (7, ''p'') \<in> pw_confirmed (foldl (proposal_step 3) proposal_start (take 2 demo_write_events))"
proof -
  let ?w = "foldl (proposal_step 3) proposal_start (take 2 demo_write_events)"
  obtain claimed rows where run: "wp_claim (seconds 2) (\<lambda>_. ''k1'') 1 (pw_rows ?w) = (claimed, rows)" by fastforce
  have "map (\<lambda>r. (wp_id r, wp_user r)) (fst (wp_claim (seconds 2) (\<lambda>_. ''k1'') 1 (pw_rows ?w))) = [(''p'', 7)]"
    by (simp add: write_eval)
  then obtain r where r: "claimed = [r]" "wp_id r = ''p''" "wp_user r = 7" using run by auto
  have "\<forall>e \<in> set (take 2 demo_write_events). event_ok e" by (simp add: demo_write_events_def)
  from claimed_was_confirmed [OF this refl run, of r] r run show ?thesis by auto
qed

text \<open>The four ends are final: a proposal that was rejected, expired, completed or failed is never
  changed again by any operation, so in particular never claimed again.\<close>

theorem final_rows_frozen:
  assumes "\<forall>e \<in> set (es @ es'). event_ok e"
    and "r \<in> set (pw_rows (foldl (proposal_step setting) proposal_start es))" "final_status (wp_status r)"
  shows "r \<in> set (pw_rows (foldl (proposal_step setting) proposal_start (es @ es')))"
proof -
  have "r \<in> set (pw_rows (foldl (proposal_step setting) w es'))"
    if "proposal_inv (nat (max 1 setting)) w" "r \<in> set (pw_rows w)" "\<forall>e \<in> set es'. event_ok e" for w
    using that assms(3)
    by (induction es' arbitrary: w) (auto intro: proposal_step_inv final_row_step)
  with proposal_run_inv [of es setting] assms show ?thesis by auto
qed

theorem final_rows_frozen_witness:
  "\<exists>r. wp_status r = Rejected
     \<and> r \<in> set (pw_rows (foldl (proposal_step 3) proposal_start
         ([Create 0 ''p'' 7 ''srv'' ''put'' ''d'' ''c'' ''h'' 60, Reject 0 7 ''p''] @ [Claim 0 (\<lambda>_. ''k'') 1])))"
proof -
  let ?es = "[Create 0 ''p'' 7 ''srv'' ''put'' ''d'' ''c'' ''h'' 60, Reject 0 7 ''p'']"
  have "map wp_status (pw_rows (foldl (proposal_step 3) proposal_start ?es)) = [Rejected]"
    by (simp add: write_eval wp_reject_def)
  then obtain r where r: "r \<in> set (pw_rows (foldl (proposal_step 3) proposal_start ?es))" "wp_status r = Rejected"
    by (cases "pw_rows (foldl (proposal_step 3) proposal_start ?es)") auto
  from final_rows_frozen [OF _ r(1), of "[Claim 0 (\<lambda>_. ''k'') 1]"] r(2) show ?thesis
    by (intro exI [of _ r]) (simp add: final_status_def del: foldl_append)
qed

end
