(* ===== verification/Kahn.thy ===== *)
theory Kahn
  imports Prelude "HOL-Library.Multiset"
begin

text \<open>
  The queue algorithm behind the two functions of \<open>document_authoring/planning/task_graph.py\<close> that
  order a dependency graph: \<open>_assert_acyclic\<close>, whose ready nodes form a FIFO queue, and
  \<open>_stable_topological_order\<close>, which keeps them sorted by position.

  Both are the same loop up to how waiting nodes are arranged; the locale \<open>ready_queue\<close> says what an
  arrangement must satisfy and proves the loop correct once: it visits every node exactly when the
  graph has a topological order, and the visiting order is one.  Each round visits a new node, so the
  number of nodes is enough fuel.
\<close>

text \<open>A graph is the list of its nodes with the nodes each depends on.\<close>

type_synonym dep_graph = "(string \<times> string list) list"

definition deps_of :: "dep_graph \<Rightarrow> string \<Rightarrow> string list" where
  "deps_of nodes v = (case map_of nodes v of Some ds \<Rightarrow> ds | None \<Rightarrow> [])"

definition indegree :: "dep_graph \<Rightarrow> string \<Rightarrow> int" where
  "indegree nodes v = int (length (deps_of nodes v))"

definition downstream :: "dep_graph \<Rightarrow> string \<Rightarrow> string list" where
  "downstream nodes d = concat (map (\<lambda>(v, ds). map (\<lambda>_. v) (filter (\<lambda>x. x = d) ds)) nodes)"

text \<open>The inner loop: decrement each child and collect those that reach zero.\<close>

fun relax :: "string list \<Rightarrow> (string \<Rightarrow> int) \<Rightarrow> string list \<times> (string \<Rightarrow> int)" where
  "relax [] indeg = ([], indeg)"
| "relax (child # children) indeg =
     (let indeg' = indeg(child := indeg child - 1)
      in case relax children indeg' of
           (new, final) \<Rightarrow> ((if indeg' child = 0 then [child] else []) @ new, final))"

fun kahn_loop :: "(string list \<Rightarrow> string list) \<Rightarrow> dep_graph \<Rightarrow> nat \<Rightarrow> string list \<Rightarrow> (string \<Rightarrow> int) \<Rightarrow> string list \<Rightarrow> string list" where
  "kahn_loop arrange nodes 0 ready indeg result = result"
| "kahn_loop arrange nodes (Suc n) [] indeg result = result"
| "kahn_loop arrange nodes (Suc n) (current # ready) indeg result =
     (case relax (arrange (downstream nodes current)) indeg of
        (new, indeg') \<Rightarrow> kahn_loop arrange nodes n (arrange (ready @ new)) indeg' (result @ [current]))"

definition kahn :: "(string list \<Rightarrow> string list) \<Rightarrow> dep_graph \<Rightarrow> string list" where
  "kahn arrange nodes =
     kahn_loop arrange nodes (length nodes)
       (arrange (filter (\<lambda>v. indegree nodes v = 0) (map fst nodes))) (indegree nodes) []"

section \<open>Topological orders\<close>

definition node_set :: "dep_graph \<Rightarrow> string set" where
  "node_set nodes = set (map fst nodes)"

definition graph_ok :: "dep_graph \<Rightarrow> bool" where
  "graph_ok nodes \<longleftrightarrow> distinct (map fst nodes) \<and> (\<forall>(v, ds) \<in> set nodes. distinct ds \<and> set ds \<subseteq> node_set nodes)"

text \<open>Every node's dependencies come before it.\<close>

definition deps_first :: "dep_graph \<Rightarrow> string list \<Rightarrow> bool" where
  "deps_first nodes order \<longleftrightarrow> (\<forall>xs v ys. order = xs @ v # ys \<longrightarrow> set (deps_of nodes v) \<subseteq> set xs)"

definition topological :: "dep_graph \<Rightarrow> string list \<Rightarrow> bool" where
  "topological nodes order \<longleftrightarrow> distinct order \<and> set order = node_set nodes \<and> deps_first nodes order"

lemma deps_first_Nil [simp]: "deps_first nodes []"
  by (simp add: deps_first_def)

lemma deps_first_snoc: "deps_first nodes xs \<Longrightarrow> set (deps_of nodes v) \<subseteq> set xs \<Longrightarrow> deps_first nodes (xs @ [v])"
  unfolding deps_first_def by (metis append_eq_append_conv2 append_is_Nil_conv butlast.simps(2) butlast_append
      last_snoc list.distinct(1) last_appendR append_butlast_last_id last_ConsL last_ConsR)

lemma deps_first_closed: "deps_first nodes xs \<Longrightarrow> v \<in> set xs \<Longrightarrow> set (deps_of nodes v) \<subseteq> set xs"
  unfolding deps_first_def by (metis in_set_conv_decomp Un_iff set_append subset_iff)

lemma card_node_set: "graph_ok nodes \<Longrightarrow> card (node_set nodes) = length nodes"
  unfolding graph_ok_def node_set_def by (metis distinct_card length_map)

lemma deps_of_mem: "graph_ok nodes \<Longrightarrow> (v, ds) \<in> set nodes \<Longrightarrow> deps_of nodes v = ds"
  by (simp add: deps_of_def graph_ok_def)

lemma deps_of_ok:
  assumes "graph_ok nodes" "v \<in> node_set nodes"
  shows "distinct (deps_of nodes v)" "set (deps_of nodes v) \<subseteq> node_set nodes"
proof -
  obtain ds where "(v, ds) \<in> set nodes" using assms(2) by (auto simp: node_set_def)
  then have "deps_of nodes v = ds \<and> distinct ds \<and> set ds \<subseteq> node_set nodes"
    using assms(1) deps_of_mem [OF assms(1)] by (fastforce simp: graph_ok_def)
  then show "distinct (deps_of nodes v)" "set (deps_of nodes v) \<subseteq> node_set nodes" by simp_all
qed

lemma downstream_set:
  assumes "graph_ok nodes"
  shows "set (downstream nodes d) = {v \<in> node_set nodes. d \<in> set (deps_of nodes v)}"
  using deps_of_mem [OF assms] by (force simp: downstream_def node_set_def)

lemma downstream_distinct:
  assumes "graph_ok nodes"
  shows "distinct (downstream nodes d)"
proof -
  have "distinct (concat (map (\<lambda>(v, ds). map (\<lambda>_. v) (filter (\<lambda>x. x = d) ds)) xs))"
    if "distinct (map fst xs)" "\<forall>(v, ds) \<in> set xs. distinct ds" for xs :: dep_graph
    using that
  proof (induction xs)
    case (Cons p xs)
    obtain v ds where p: "p = (v, ds)" by fastforce
    have "filter (\<lambda>x. x = d) ds = (if d \<in> set ds then [d] else [])" if "distinct ds" for ds :: "string list"
      using that by (induction ds) auto
    moreover have "v \<notin> set (concat (map (\<lambda>(v, ds). map (\<lambda>_. v) (filter (\<lambda>x. x = d) ds)) xs))"
      using Cons.prems(1) p by force
    ultimately show ?case using Cons p by (auto split: if_splits simp del: set_concat)
  qed simp
  with assms show ?thesis by (auto simp: downstream_def graph_ok_def)
qed

lemma relax_distinct:
  assumes "distinct cs"
  shows "relax cs indeg = (filter (\<lambda>c. indeg c = 1) cs, (\<lambda>v. indeg v - of_bool (v \<in> set cs)))"
  using assms
proof (induction cs arbitrary: indeg)
  case (Cons c cs)
  have "filter (\<lambda>x. (indeg(c := indeg c - 1)) x = 1) cs = filter (\<lambda>x. indeg x = 1) cs"
    using Cons.prems by (intro filter_cong) auto
  with Cons show ?case by (auto simp: Let_def)
qed simp

section \<open>The loop\<close>

locale ready_queue =
  fixes arrange :: "string list \<Rightarrow> string list"
  assumes arrange_mset: "mset (arrange xs) = mset xs"
begin

lemma arrange_set: "set (arrange xs) = set xs"
  by (metis arrange_mset set_mset_mset)

lemma arrange_distinct: "distinct (arrange xs) = distinct xs"
  by (metis arrange_mset mset_eq_imp_distinct_iff)

text \<open>What holds between two rounds: the ready nodes are exactly the unvisited nodes all of whose
  dependencies were visited, and the counters say how many are still missing.\<close>

definition loop_inv :: "dep_graph \<Rightarrow> string list \<Rightarrow> (string \<Rightarrow> int) \<Rightarrow> string list \<Rightarrow> bool" where
  "loop_inv nodes ready indeg result \<longleftrightarrow>
     distinct result \<and> distinct ready \<and> set result \<subseteq> node_set nodes
     \<and> set ready = {v \<in> node_set nodes. v \<notin> set result \<and> indeg v = 0}
     \<and> (\<forall>v \<in> node_set nodes. indeg v = int (length (filter (\<lambda>d. d \<notin> set result) (deps_of nodes v))))
     \<and> deps_first nodes result"

lemma indeg_zero: "int (length (filter (\<lambda>d. d \<notin> S) ds)) = 0 \<longleftrightarrow> set ds \<subseteq> S"
  by (auto simp: filter_empty_conv)

lemma missing_after_visit:
  assumes "distinct ds" "c \<notin> set result"
  shows "int (length (filter (\<lambda>d. d \<notin> set (result @ [c])) ds)) =
    int (length (filter (\<lambda>d. d \<notin> set result) ds)) - of_bool (c \<in> set ds)"
  using assms by (induction ds) auto

lemma loop_inv_step:
  assumes ok: "graph_ok nodes" and inv: "loop_inv nodes (current # ready) indeg result"
    and step: "relax (arrange (downstream nodes current)) indeg = (new, indeg')"
  shows "loop_inv nodes (arrange (ready @ new)) indeg' (result @ [current])"
proof -
  let ?V = "node_set nodes" and ?cs = "arrange (downstream nodes current)"
  have cs: "distinct ?cs" "set ?cs = {v \<in> ?V. current \<in> set (deps_of nodes v)}"
    using downstream_distinct [OF ok] downstream_set [OF ok] by (auto simp: arrange_set arrange_distinct)
  have new: "new = filter (\<lambda>c. indeg c = 1) ?cs" "indeg' = (\<lambda>v. indeg v - of_bool (v \<in> set ?cs))"
    using step relax_distinct [OF cs(1), of indeg] by auto
  have cur: "current \<in> ?V" "current \<notin> set result" "indeg current = 0" "current \<notin> set ready"
    using inv by (auto simp: loop_inv_def)
  have deg: "indeg v = int (length (filter (\<lambda>d. d \<notin> set result) (deps_of nodes v)))" if "v \<in> ?V" for v
    using inv that by (simp add: loop_inv_def)
  have ready: "set ready = {v \<in> ?V. v \<notin> set result \<and> indeg v = 0} - {current}" "distinct ready"
    using inv cur by (auto simp: loop_inv_def)
  have deg': "indeg' v = int (length (filter (\<lambda>d. d \<notin> set (result @ [current])) (deps_of nodes v)))" if "v \<in> ?V" for v
    using deg [OF that] missing_after_visit [OF deps_of_ok(1) [OF ok that] cur(2)] cs(2) new(2) that by simp
  have first: "deps_first nodes (result @ [current])"
  proof (rule deps_first_snoc)
    show "deps_first nodes result" using inv by (simp add: loop_inv_def)
    show "set (deps_of nodes current) \<subseteq> set result"
      using deg [OF cur(1)] cur(3) indeg_zero [of "set result"] by metis
  qed
  have unvisited: "v \<notin> set result \<and> v \<noteq> current" if "v \<in> set ?cs" for v
  proof
    show "v \<notin> set result"
      using that cs(2) cur(2) inv deps_first_closed by (fastforce simp: loop_inv_def)
    show "v \<noteq> current"
      using that cs(2) deg [OF cur(1)] cur(2,3) indeg_zero [of "set result"] by fastforce
  qed
  have "set (ready @ new) = {v \<in> ?V. v \<notin> set (result @ [current]) \<and> indeg' v = 0}"
  proof (intro set_eqI iffI)
    fix v assume "v \<in> set (ready @ new)"
    then consider "v \<in> set ready" | "v \<in> set ?cs" "indeg v = 1" using new(1) by auto
    then show "v \<in> {v \<in> ?V. v \<notin> set (result @ [current]) \<and> indeg' v = 0}"
    proof cases
      case 1
      then have v: "v \<in> ?V" "v \<notin> set result" "v \<noteq> current" "indeg v = 0" using ready by auto
      then have "indeg' v = 0" using deg' [OF v(1)] new(2) by (auto simp: of_bool_def split: if_splits)
      with v show ?thesis by simp
    next
      case 2
      with unvisited [OF 2(1)] cs(2) new(2) show ?thesis by auto
    qed
  next
    fix v assume "v \<in> {v \<in> ?V. v \<notin> set (result @ [current]) \<and> indeg' v = 0}"
    then have v: "v \<in> ?V" "v \<notin> set result" "v \<noteq> current" "indeg' v = 0" by auto
    show "v \<in> set (ready @ new)"
    proof (cases "v \<in> set ?cs")
      case True
      then show ?thesis using v(4) new by simp
    next
      case False
      then show ?thesis using v ready(1) new(2) by simp
    qed
  qed
  moreover have "distinct (ready @ new)"
  proof -
    have "indeg v = 0" if "v \<in> set ready" for v using that ready(1) by auto
    moreover have "indeg v = 1" if "v \<in> set new" for v using that new(1) by auto
    ultimately have "set ready \<inter> set new = {}" by fastforce
    moreover have "distinct new" unfolding new(1) using cs(1) by (rule distinct_filter)
    ultimately show ?thesis using ready(2) by simp
  qed
  ultimately show ?thesis
    using inv cur deg' first by (auto simp: loop_inv_def arrange_set arrange_distinct)
qed

text \<open>With the number of nodes as fuel the loop ends because no node is ready, not because of fuel.\<close>

lemma loop_end:
  assumes "graph_ok nodes" "loop_inv nodes ready indeg result" "length nodes \<le> length result + n"
  shows "\<exists>indeg'. loop_inv nodes [] indeg' (kahn_loop arrange nodes n ready indeg result)"
  using assms(2,3)
proof (induction n arbitrary: ready indeg result)
  case 0
  have "card (set result) = length result" using 0 by (simp add: loop_inv_def distinct_card)
  moreover have "card (node_set nodes) = length nodes" by (rule card_node_set [OF assms(1)])
  moreover have "set result \<subseteq> node_set nodes" using 0 by (simp add: loop_inv_def)
  ultimately have "set result = node_set nodes" using 0 by (intro card_seteq) (auto simp: node_set_def)
  then have "set ready = {}" using 0 by (auto simp: loop_inv_def)
  then have "ready = []" by simp
  with 0 show ?case by auto
next
  case (Suc n)
  show ?case
  proof (cases ready)
    case Nil
    with Suc show ?thesis by auto
  next
    case (Cons current rest)
    obtain new indeg' where step: "relax (arrange (downstream nodes current)) indeg = (new, indeg')" by fastforce
    have "loop_inv nodes (arrange (rest @ new)) indeg' (result @ [current])"
      using loop_inv_step [OF assms(1) _ step] Suc.prems(1) Cons by simp
    from Suc.IH [OF this] Suc.prems(2) Cons step show ?thesis by simp
  qed
qed

lemma kahn_inv:
  assumes "graph_ok nodes"
  shows "\<exists>indeg. loop_inv nodes [] indeg (kahn arrange nodes)"
proof -
  have "loop_inv nodes (arrange (filter (\<lambda>v. indegree nodes v = 0) (map fst nodes))) (indegree nodes) []"
    using assms by (auto simp: loop_inv_def indegree_def graph_ok_def node_set_def arrange_set arrange_distinct)
  from loop_end [OF assms this] show ?thesis by (simp add: kahn_def)
qed

text \<open>Soundness and completeness.\<close>

lemma kahn_sound:
  assumes "graph_ok nodes" "length (kahn arrange nodes) = length nodes"
  shows "topological nodes (kahn arrange nodes)"
proof -
  obtain indeg where inv: "loop_inv nodes [] indeg (kahn arrange nodes)" using kahn_inv [OF assms(1)] by blast
  then have "card (set (kahn arrange nodes)) = card (node_set nodes)" "set (kahn arrange nodes) \<subseteq> node_set nodes"
    using assms card_node_set [OF assms(1)] by (simp_all add: loop_inv_def distinct_card)
  then have "set (kahn arrange nodes) = node_set nodes" by (intro card_seteq) (auto simp: node_set_def)
  with inv show ?thesis by (simp add: topological_def loop_inv_def)
qed

lemma kahn_complete:
  assumes "graph_ok nodes" "topological nodes order"
  shows "length (kahn arrange nodes) = length nodes"
proof -
  obtain indeg where inv: "loop_inv nodes [] indeg (kahn arrange nodes)" using kahn_inv [OF assms(1)] by blast
  have "set xs \<subseteq> set (kahn arrange nodes)" if "order = xs @ ys" for xs ys
    using that
  proof (induction xs arbitrary: ys rule: rev_induct)
    case (snoc v xs)
    have xs: "set xs \<subseteq> set (kahn arrange nodes)" using snoc.IH [of "v # ys"] snoc.prems by simp
    have order: "order = xs @ v # ys" using snoc.prems by simp
    have v: "v \<in> node_set nodes" using assms(2) order by (auto simp: topological_def)
    have "set (deps_of nodes v) \<subseteq> set xs" using assms(2) order unfolding topological_def deps_first_def by blast
    then have "indeg v = 0" using xs inv v indeg_zero [of "set (kahn arrange nodes)" "deps_of nodes v"]
      by (auto simp: loop_inv_def)
    then have "v \<in> set (kahn arrange nodes)" using inv v by (auto simp: loop_inv_def)
    with xs show ?case by simp
  qed simp
  from this [of order "[]"] have "node_set nodes \<subseteq> set (kahn arrange nodes)" using assms(2) by (simp add: topological_def)
  with inv have "set (kahn arrange nodes) = node_set nodes" "distinct (kahn arrange nodes)" by (auto simp: loop_inv_def)
  then show ?thesis using card_node_set [OF assms(1)] distinct_card by fastforce
qed

end

text \<open>A FIFO queue and a queue sorted by position are arrangements.\<close>

interpretation fifo: ready_queue "\<lambda>xs. xs"
  by unfold_locales simp

interpretation by_position: ready_queue "sort_key key" for key :: "string \<Rightarrow> nat"
  by unfold_locales simp

end
