(* ===== verification/Task_Graph.thy ===== *)
theory Task_Graph
  imports Kahn
begin

text \<open>
  The execution graph of a document plan: \<open>document_authoring/planning/task_graph.py\<close>.
  \<open>TaskGraphCompiler.compile\<close> turns the unit tasks of an executable plan into nodes (preflight, one
  node per task, one per barrier, then aggregate, review, render, review, release), orders them and
  validates the result.

  The plan is the validated \<open>DocumentPlan\<close>; the JSON schemas a task carries are texts, the content
  hash is a parameter, and the length limits of the Pydantic fields are left out.  The records hold
  the fields the compiler reads.
\<close>

section \<open>Plans and graphs\<close>

record unit_task =
  ut_task :: string
  ut_unit :: string
  ut_deps :: "string list"
  ut_barrier :: "string option"
  ut_input_schema :: string
  ut_output_schema :: string
  ut_action_key :: string
  ut_max_attempts :: int
  ut_timeout :: int

record document_plan =
  dp_id :: string
  dp_version :: int
  dp_hash :: string
  dp_snapshot_id :: string
  dp_snapshot_hash :: string
  dp_executable :: bool
  dp_tasks :: "unit_task list"
  dp_edges :: "(string \<times> string) list"

datatype node_kind =
    K_preflight | K_unit | K_barrier | K_aggregate | K_pre_render_review | K_render | K_post_render_review | K_release

record task_node =
  tn_id :: string
  tn_kind :: node_kind
  tn_task :: "string option"
  tn_unit :: "string option"
  tn_deps :: "string list"
  tn_barrier :: "string option"
  tn_input_schema :: string
  tn_output_schema :: string
  tn_action_key :: string
  tn_max_attempts :: int
  tn_timeout :: int

record task_barrier =
  tb_barrier :: string
  tb_members :: "string list"
  tb_node :: string

record compiled_graph =
  cg_id :: string
  cg_version :: int
  cg_plan :: string
  cg_plan_hash :: string
  cg_snapshot_id :: string
  cg_snapshot_hash :: string
  cg_nodes :: "task_node list"
  cg_edges :: "(string \<times> string) list"
  cg_barriers :: "task_barrier list"
  cg_order :: "string list"
  cg_hash :: "string option"

datatype graph_error =
    Not_executable | Declarations_disagree string | Dangling_dependency string | Self_edge string
  | Task_cycle | Graph_cycle | Invalid_node string | Invalid_graph string

section \<open>Helpers\<close>

text \<open>\<open>_unique\<close>: first occurrences.\<close>

definition unique :: "string list \<Rightarrow> string list" where
  "unique values = foldl (\<lambda>result v. if v \<in> set result then result else result @ [v]) [] values"

definition node_graph :: "task_node list \<Rightarrow> dep_graph" where
  "node_graph nodes = map (\<lambda>n. (tn_id n, tn_deps n)) nodes"

text \<open>\<open>order_index\<close>: the position of a node in the list.\<close>

definition order_index :: "string list \<Rightarrow> string \<Rightarrow> nat" where
  "order_index ids v = length (takeWhile (\<lambda>x. x \<noteq> v) ids)"

definition assert_acyclic :: "dep_graph \<Rightarrow> bool" where
  "assert_acyclic deps \<longleftrightarrow> length (kahn (\<lambda>xs. xs) deps) = length deps"

text \<open>\<open>None\<close> is the \<open>TaskGraphCompileError\<close> for a cycle.\<close>

definition stable_topological_order :: "task_node list \<Rightarrow> string list option" where
  "stable_topological_order nodes =
     (let result = kahn (sort_key (order_index (map tn_id nodes))) (node_graph nodes)
      in if length result \<noteq> length nodes then None else Some result)"

section \<open>Validation\<close>

definition validate_identity :: "task_node \<Rightarrow> bool" where
  "validate_identity n \<longleftrightarrow>
     (tn_kind n = K_unit \<longrightarrow> tn_task n \<noteq> None \<and> tn_unit n \<noteq> None)
     \<and> (tn_kind n \<noteq> K_unit \<longrightarrow> tn_task n = None \<and> tn_unit n = None)
     \<and> distinct (tn_deps n) \<and> tn_id n \<notin> set (tn_deps n)"

definition expected_pairs :: "task_node list \<Rightarrow> (string \<times> string) list" where
  "expected_pairs nodes = concat (map (\<lambda>n. map (\<lambda>d. (d, tn_id n)) (tn_deps n)) nodes)"

text \<open>\<open>validate_graph\<close>; \<open>Some\<close> is the rejection.\<close>

definition validate_graph :: "compiled_graph \<Rightarrow> string option" where
  "validate_graph g =
     (let ids = map tn_id (cg_nodes g); pairs = expected_pairs (cg_nodes g) in
      if \<not> distinct ids then Some ''node_ids''
      else if \<not> distinct (map tn_action_key (cg_nodes g)) then Some ''action_keys''
      else if \<not> distinct (cg_edges g) then Some ''edges''
      else if \<not> (\<forall>n \<in> set (cg_nodes g). set (tn_deps n) \<subseteq> set ids) then Some ''unknown_dependency''
      else if set (cg_edges g) \<noteq> set pairs then Some ''edges_mismatch''
      else if length (cg_order g) \<noteq> length ids \<or> set (cg_order g) \<noteq> set ids then Some ''order_nodes''
      else if \<not> (\<forall>(up, down) \<in> set pairs. order_index (cg_order g) up < order_index (cg_order g) down)
        then Some ''order_violates_dependency''
      else if \<not> distinct (map tb_barrier (cg_barriers g)) then Some ''barrier_ids''
      else if \<not> (\<forall>b \<in> set (cg_barriers g). tb_node b \<in> set ids) then Some ''barrier_node''
      else if \<not> (\<forall>b \<in> set (cg_barriers g). set (tb_members b) \<subseteq> set ids) then Some ''barrier_member''
      else if \<not> (\<forall>b \<in> set (cg_barriers g). tb_node b \<notin> set (tb_members b)) then Some ''barrier_self''
      else None)"

section \<open>Compilation\<close>

definition edge_dependencies :: "document_plan \<Rightarrow> string \<Rightarrow> string list" where
  "edge_dependencies plan task = map fst (filter (\<lambda>(up, down). down = task) (dp_edges plan))"

text \<open>\<open>_validate_plan_dependencies\<close>: the tasks with their dependencies, or the first error.\<close>

definition validate_plan_dependencies :: "document_plan \<Rightarrow> graph_error + dep_graph" where
  "validate_plan_dependencies plan =
     (case List.find (\<lambda>t. set (ut_deps t) \<noteq> set (edge_dependencies plan (ut_task t))) (dp_tasks plan) of
        Some t \<Rightarrow> Inl (Declarations_disagree (ut_task t))
      | None \<Rightarrow>
          (let result = map (\<lambda>t. (ut_task t, unique (ut_deps t))) (dp_tasks plan); ids = map fst result in
           case List.find (\<lambda>(t, ds). \<not> set ds \<subseteq> set ids \<or> t \<in> set ds) result of
             Some (t, ds) \<Rightarrow> Inl (if \<not> set ds \<subseteq> set ids then Dangling_dependency t else Self_edge t)
           | None \<Rightarrow> if assert_acyclic result then Inr result else Inl Task_cycle))"

definition graph_id :: "document_plan \<Rightarrow> string" where
  "graph_id plan = ''document-plan:'' @ dp_id plan @ '':v'' @ py_str (dp_version plan)"

definition structural_node :: "string \<Rightarrow> string \<Rightarrow> node_kind \<Rightarrow> string list \<Rightarrow> task_node" where
  "structural_node gid nid kind deps =
     \<lparr>tn_id = nid, tn_kind = kind, tn_task = None, tn_unit = None, tn_deps = deps, tn_barrier = None,
      tn_input_schema = '''', tn_output_schema = '''', tn_action_key = gid @ '':'' @ nid, tn_max_attempts = 1,
      tn_timeout = 300\<rparr>"

definition unit_node_id :: "string \<Rightarrow> string" where
  "unit_node_id task = ''unit:'' @ task"

definition barrier_node_id :: "string \<Rightarrow> string" where
  "barrier_node_id barrier = ''barrier:'' @ barrier"

definition unit_node :: "unit_task \<Rightarrow> task_node" where
  "unit_node t =
     \<lparr>tn_id = unit_node_id (ut_task t), tn_kind = K_unit, tn_task = Some (ut_task t), tn_unit = Some (ut_unit t),
      tn_deps = [''preflight''], tn_barrier = ut_barrier t, tn_input_schema = ut_input_schema t,
      tn_output_schema = ut_output_schema t, tn_action_key = ut_action_key t, tn_max_attempts = ut_max_attempts t,
      tn_timeout = ut_timeout t\<rparr>"

text \<open>Where a task's completion is visible: at its barrier, or at its own node.\<close>

definition terminal_node :: "unit_task \<Rightarrow> string" where
  "terminal_node t = (case ut_barrier t of Some b \<Rightarrow> barrier_node_id b | None \<Rightarrow> unit_node_id (ut_task t))"

definition task_by_id :: "document_plan \<Rightarrow> string \<Rightarrow> unit_task option" where
  "task_by_id plan task = List.find (\<lambda>t. ut_task t = task) (dp_tasks plan)"

definition patched_unit :: "document_plan \<Rightarrow> unit_task \<Rightarrow> string list \<Rightarrow> task_node" where
  "patched_unit plan t upstream =
     (unit_node t)\<lparr>tn_deps := unique (''preflight'' #
        map (\<lambda>u. case task_by_id plan u of Some ut \<Rightarrow> terminal_node ut | None \<Rightarrow> unit_node_id u) upstream)\<rparr>"

definition barrier_order :: "document_plan \<Rightarrow> string list" where
  "barrier_order plan = unique (List.map_filter ut_barrier (dp_tasks plan))"

definition barrier_members :: "document_plan \<Rightarrow> string \<Rightarrow> string list" where
  "barrier_members plan b = map (\<lambda>t. unit_node_id (ut_task t)) (filter (\<lambda>t. ut_barrier t = Some b) (dp_tasks plan))"

definition barrier_node :: "document_plan \<Rightarrow> string \<Rightarrow> task_node" where
  "barrier_node plan b =
     (structural_node (graph_id plan) (barrier_node_id b) K_barrier (barrier_members plan b))\<lparr>tn_barrier := Some b\<rparr>"

definition tail_nodes :: "document_plan \<Rightarrow> task_node list" where
  "tail_nodes plan =
     (let gid = graph_id plan in
      [structural_node gid ''aggregate'' K_aggregate (unique (map terminal_node (dp_tasks plan))),
       structural_node gid ''pre-render-review'' K_pre_render_review [''aggregate''],
       structural_node gid ''render'' K_render [''pre-render-review''],
       structural_node gid ''post-render-review'' K_post_render_review [''render''],
       structural_node gid ''release'' K_release [''post-render-review'']])"

definition compile_nodes :: "document_plan \<Rightarrow> dep_graph \<Rightarrow> task_node list" where
  "compile_nodes plan deps =
     [structural_node (graph_id plan) ''preflight'' K_preflight []]
     @ map (\<lambda>t. patched_unit plan t (deps_of deps (ut_task t))) (dp_tasks plan)
     @ map (barrier_node plan) (barrier_order plan) @ tail_nodes plan"

text \<open>Nodes as they are constructed, before the units' dependencies are patched in.\<close>

definition constructed_nodes :: "document_plan \<Rightarrow> task_node list" where
  "constructed_nodes plan =
     [structural_node (graph_id plan) ''preflight'' K_preflight []] @ map unit_node (dp_tasks plan)
     @ map (barrier_node plan) (barrier_order plan) @ tail_nodes plan"

text \<open>The \<open>CompiledTaskGraph\<close> the compiler constructs; its validator fills in the hash.\<close>

definition assembled_graph :: "document_plan \<Rightarrow> task_node list \<Rightarrow> string list \<Rightarrow> compiled_graph" where
  "assembled_graph plan nodes order =
     \<lparr>cg_id = graph_id plan, cg_version = dp_version plan, cg_plan = dp_id plan, cg_plan_hash = dp_hash plan,
      cg_snapshot_id = dp_snapshot_id plan, cg_snapshot_hash = dp_snapshot_hash plan, cg_nodes = nodes,
      cg_edges = expected_pairs nodes,
      cg_barriers = map (\<lambda>b. \<lparr>tb_barrier = b, tb_members = barrier_members plan b, tb_node = barrier_node_id b\<rparr>)
        (barrier_order plan),
      cg_order = order, cg_hash = None\<rparr>"

definition compile_plan :: "(compiled_graph \<Rightarrow> string) \<Rightarrow> document_plan \<Rightarrow> graph_error + compiled_graph" where
  "compile_plan content_hash plan =
     (if \<not> dp_executable plan then Inl Not_executable
      else case validate_plan_dependencies plan of
        Inl e \<Rightarrow> Inl e
      | Inr deps \<Rightarrow>
          (case List.find (\<lambda>n. \<not> validate_identity n) (constructed_nodes plan) of
             Some n \<Rightarrow> Inl (Invalid_node (tn_id n))
           | None \<Rightarrow>
               (let nodes = compile_nodes plan deps in
                case stable_topological_order nodes of
                  None \<Rightarrow> Inl Graph_cycle
                | Some order \<Rightarrow>
                    (let g = assembled_graph plan nodes order in
                     case validate_graph g of
                       Some reason \<Rightarrow> Inl (Invalid_graph reason)
                     | None \<Rightarrow> Inr (g\<lparr>cg_hash := Some (content_hash g)\<rparr>)))))"

section \<open>Ordering\<close>

lemma unique_foldl:
  defines "add \<equiv> \<lambda>(result :: string list) v. if v \<in> set result then result else result @ [v]"
  shows "set (foldl add acc vs) = set acc \<union> set vs" "distinct acc \<Longrightarrow> distinct (foldl add acc vs)"
proof -
  have add: "set (add acc v) = insert v (set acc)" "distinct acc \<Longrightarrow> distinct (add acc v)" for acc v
    by (auto simp: add_def)
  show "set (foldl add acc vs) = set acc \<union> set vs" by (induction vs arbitrary: acc) (simp_all add: add(1))
  show "distinct acc \<Longrightarrow> distinct (foldl add acc vs)" by (induction vs arbitrary: acc) (simp_all add: add(2))
qed

lemma set_unique [simp]: "set (unique vs) = set vs"
  by (simp add: unique_def unique_foldl(1))

lemma distinct_unique [simp]: "distinct (unique vs)"
  by (simp add: unique_def unique_foldl(2))

lemma order_index_split: "v \<notin> set xs \<Longrightarrow> order_index (xs @ v # ys) v = length xs"
  unfolding order_index_def by (subst takeWhile_append2) auto

lemma order_index_mem: "v \<in> set xs \<Longrightarrow> order_index xs v < length xs \<and> xs ! order_index xs v = v"
  unfolding order_index_def by (induction xs) auto


text \<open>C13. The stable order is right and complete: when dependencies are unique and inside the graph, the
  function returns an order in which every node comes once and after its dependencies, and it reports a
  cycle only when no such order exists.\<close>

theorem stable_order_correct:
  assumes "graph_ok (node_graph nodes)"
  shows "case stable_topological_order nodes of
      Some order \<Rightarrow> topological (node_graph nodes) order
    | None \<Rightarrow> \<not> (\<exists>order. topological (node_graph nodes) order)"
proof -
  let ?key = "order_index (map tn_id nodes)"
  have len: "length (node_graph nodes) = length nodes" by (simp add: node_graph_def)
  show ?thesis
    using by_position.kahn_sound [OF assms, of ?key] by_position.kahn_complete [OF assms, of _ ?key]
    by (auto simp: stable_topological_order_def Let_def len)
qed

theorem stable_order_correct_witness:
  "let n = structural_node ''g''; nodes = [n ''b'' K_unit [''a''], n ''a'' K_unit [], n ''c'' K_unit [''b'', ''a'']]
   in graph_ok (node_graph nodes) \<and> stable_topological_order nodes = Some [''a'', ''b'', ''c'']
      \<and> topological (node_graph nodes) [''a'', ''b'', ''c'']"
proof -
  let ?n = "structural_node ''g''"
  let ?nodes = "[?n ''b'' K_unit [''a''], ?n ''a'' K_unit [], ?n ''c'' K_unit [''b'', ''a'']]"
  have ok: "graph_ok (node_graph ?nodes)"
    by (auto simp: graph_ok_def node_graph_def node_set_def structural_node_def)
  have "stable_topological_order ?nodes = Some [''a'', ''b'', ''c'']" by code_simp
  with stable_order_correct [OF ok] ok show ?thesis by (simp add: Let_def)
qed

section \<open>The compiled pipeline\<close>

lemma validate_graph_hash [simp]: "validate_graph (g\<lparr>cg_hash := x\<rparr>) = validate_graph g"
  by (cases g) (simp only: validate_graph_def compiled_graph.select_convs compiled_graph.update_convs)

lemma cg_nodes_assembled [simp]: "cg_nodes (assembled_graph plan nodes order) = nodes"
  by (simp add: assembled_graph_def)

lemma compile_planD:
  assumes "compile_plan h plan = Inr g"
  obtains deps where "validate_plan_dependencies plan = Inr deps" "cg_nodes g = compile_nodes plan deps"
    "validate_graph g = None"
  using assms by (auto simp: compile_plan_def Let_def split: if_splits sum.splits option.splits)

lemma plan_dependenciesD:
  assumes "validate_plan_dependencies plan = Inr deps"
  shows "deps = map (\<lambda>t. (ut_task t, unique (ut_deps t))) (dp_tasks plan)"
    "\<And>t u. t \<in> set (dp_tasks plan) \<Longrightarrow> u \<in> set (ut_deps t) \<Longrightarrow> u \<in> ut_task ` set (dp_tasks plan)"
proof -
  let ?result = "map (\<lambda>t. (ut_task t, unique (ut_deps t))) (dp_tasks plan)"
  have none: "List.find (\<lambda>(t, ds). \<not> set ds \<subseteq> set (map fst ?result) \<or> t \<in> set ds) ?result = None"
    and eq: "deps = ?result"
    using assms unfolding validate_plan_dependencies_def Let_def
    by (simp_all split: option.splits if_splits prod.splits)
  show "deps = ?result" by (rule eq)
  fix t u assume "t \<in> set (dp_tasks plan)" "u \<in> set (ut_deps t)"
  with none show "u \<in> ut_task ` set (dp_tasks plan)"
    by (force simp: find_None_iff)
qed

lemma valid_order_step:
  assumes "validate_graph g = None" "n \<in> set (cg_nodes g)" "d \<in> set (tn_deps n)"
  shows "order_index (cg_order g) d < order_index (cg_order g) (tn_id n)"
proof -
  have "(d, tn_id n) \<in> set (expected_pairs (cg_nodes g))" using assms(2,3) by (auto simp: expected_pairs_def)
  moreover have "\<forall>(up, down) \<in> set (expected_pairs (cg_nodes g)). order_index (cg_order g) up < order_index (cg_order g) down"
    using assms(1) by (simp add: validate_graph_def Let_def split: if_splits)
  ultimately show ?thesis by blast
qed

lemma valid_order_nodes:
  assumes "validate_graph g = None"
  shows "distinct (map tn_id (cg_nodes g))" "set (cg_order g) = tn_id ` set (cg_nodes g)" "distinct (cg_order g)"
proof -
  have *: "distinct (map tn_id (cg_nodes g))" "length (cg_order g) = length (cg_nodes g)"
    "set (cg_order g) = set (map tn_id (cg_nodes g))"
    using assms by (auto simp: validate_graph_def Let_def split: if_splits)
  then show "distinct (map tn_id (cg_nodes g))" "set (cg_order g) = tn_id ` set (cg_nodes g)" by simp_all
  have "card (set (cg_order g)) = length (cg_order g)"
    using * distinct_card [OF *(1)] by simp
  then show "distinct (cg_order g)" by (rule card_distinct)
qed

text \<open>Where the nodes of a compiled graph stand: \<open>before g u v\<close> means node \<open>u\<close> comes earlier.\<close>

definition before :: "compiled_graph \<Rightarrow> string \<Rightarrow> string \<Rightarrow> bool" where
  "before g u v \<longleftrightarrow> order_index (cg_order g) u < order_index (cg_order g) v"

lemma before_trans: "before g u v \<Longrightarrow> before g v w \<Longrightarrow> before g u w"
  by (simp add: before_def)

lemma compiled_before:
  assumes "compile_plan h plan = Inr g"
  shows "t \<in> set (dp_tasks plan) \<Longrightarrow> before g ''preflight'' (unit_node_id (ut_task t))" (is "?T t \<Longrightarrow> _")
    and "t \<in> set (dp_tasks plan) \<Longrightarrow> ut_barrier t = Some b \<Longrightarrow> before g (unit_node_id (ut_task t)) (barrier_node_id b)"
    and "t \<in> set (dp_tasks plan) \<Longrightarrow> before g (terminal_node t) ''aggregate''"
    and "before g ''aggregate'' ''pre-render-review''" "before g ''pre-render-review'' ''render''"
      "before g ''render'' ''post-render-review''" "before g ''post-render-review'' ''release''"
proof -
  obtain deps where nodes: "cg_nodes g = compile_nodes plan deps" and ok: "validate_graph g = None"
    using compile_planD [OF assms] by metis
  have step: "before g d (tn_id n)" if "n \<in> set (compile_nodes plan deps)" "d \<in> set (tn_deps n)" for n d
    using valid_order_step [OF ok] that nodes by (simp add: before_def)
  show "before g ''preflight'' (unit_node_id (ut_task t))" if "?T t"
    using step [of "patched_unit plan t (deps_of deps (ut_task t))" "''preflight''"] that
    by (simp add: compile_nodes_def patched_unit_def unit_node_def)
  show "before g (unit_node_id (ut_task t)) (barrier_node_id b)" if "?T t" "ut_barrier t = Some b"
  proof -
    have "b \<in> set (barrier_order plan)" using that by (auto simp: barrier_order_def map_filter_def intro!: image_eqI)
    moreover have "unit_node_id (ut_task t) \<in> set (barrier_members plan b)" using that by (auto simp: barrier_members_def)
    ultimately show ?thesis
      using step [of "barrier_node plan b" "unit_node_id (ut_task t)"]
      by (simp add: compile_nodes_def barrier_node_def structural_node_def)
  qed
  have tail: "before g d (tn_id n)" if "n \<in> set (tail_nodes plan)" "d \<in> set (tn_deps n)" for n d
    using step that by (simp add: compile_nodes_def)
  show "before g (terminal_node t) ''aggregate''" if "?T t"
    using tail [of "tail_nodes plan ! 0" "terminal_node t"] that by (simp add: tail_nodes_def Let_def structural_node_def)
  show "before g ''aggregate'' ''pre-render-review''"
    using tail [of "tail_nodes plan ! 1"] by (simp add: tail_nodes_def Let_def structural_node_def)
  show "before g ''pre-render-review'' ''render''"
    using tail [of "tail_nodes plan ! 2"] by (simp add: tail_nodes_def Let_def structural_node_def)
  show "before g ''render'' ''post-render-review''"
    using tail [of "tail_nodes plan ! 3"] by (simp add: tail_nodes_def Let_def structural_node_def)
  show "before g ''post-render-review'' ''release''"
    using tail [of "tail_nodes plan ! 4"] by (simp add: tail_nodes_def Let_def structural_node_def)
qed

lemma unit_before_terminal:
  assumes "compile_plan h plan = Inr g" "t \<in> set (dp_tasks plan)"
  shows "unit_node_id (ut_task t) = terminal_node t \<or> before g (unit_node_id (ut_task t)) (terminal_node t)"
  using compiled_before(2) [OF assms] by (cases "ut_barrier t") (simp_all add: terminal_node_def)

lemma unit_before_aggregate:
  assumes "compile_plan h plan = Inr g" "t \<in> set (dp_tasks plan)"
  shows "before g (unit_node_id (ut_task t)) ''aggregate''"
  using unit_before_terminal [OF assms] compiled_before(3) [OF assms] before_trans by metis

lemma upstream_before_unit:
  assumes "compile_plan h plan = Inr g" "t \<in> set (dp_tasks plan)" "u \<in> set (ut_deps t)"
  shows "before g (unit_node_id u) (unit_node_id (ut_task t))"
proof -
  obtain deps where deps: "validate_plan_dependencies plan = Inr deps"
    and nodes: "cg_nodes g = compile_nodes plan deps" and ok: "validate_graph g = None"
    using compile_planD [OF assms(1)] by metis
  have "distinct (map tn_id (compile_nodes plan deps))" using valid_order_nodes(1) [OF ok] nodes by simp
  then have "distinct (map (tn_id \<circ> (\<lambda>t. patched_unit plan t (deps_of deps (ut_task t)))) (dp_tasks plan))"
    by (simp add: compile_nodes_def)
  moreover have "tn_id \<circ> (\<lambda>t. patched_unit plan t (deps_of deps (ut_task t))) = unit_node_id \<circ> ut_task"
    by (auto simp: patched_unit_def unit_node_def)
  ultimately have "distinct (map ut_task (dp_tasks plan))" by (simp add: distinct_map inj_on_def)
  then have "map_of deps (ut_task t) = Some (unique (ut_deps t))"
    using plan_dependenciesD(1) [OF deps] assms(2) by (intro map_of_is_SomeI) (auto simp: comp_def)
  then have ds: "deps_of deps (ut_task t) = unique (ut_deps t)" by (simp add: deps_of_def)
  obtain ut where ut: "task_by_id plan u = Some ut"
    using plan_dependenciesD(2) [OF deps assms(2,3)] by (cases "task_by_id plan u") (auto simp: task_by_id_def find_None_iff)
  then have ut': "ut \<in> set (dp_tasks plan)" "ut_task ut = u" by (auto simp: task_by_id_def find_Some_iff)
  have "before g (terminal_node ut) (unit_node_id (ut_task t))"
    using valid_order_step [OF ok, of "patched_unit plan t (unique (ut_deps t))" "terminal_node ut"] nodes ds assms(2,3) ut
    by (force simp: before_def compile_nodes_def patched_unit_def unit_node_def)
  with unit_before_terminal [OF assms(1) ut'(1)] ut'(2) show ?thesis using before_trans by metis
qed

lemma all_before_release:
  assumes "compile_plan h plan = Inr g" "dp_tasks plan \<noteq> []" "v \<in> set (cg_order g)" "v \<noteq> ''release''"
  shows "before g v ''release''"
proof -
  obtain deps where nodes: "cg_nodes g = compile_nodes plan deps" and ok: "validate_graph g = None"
    using compile_planD [OF assms(1)] by metis
  note chain = compiled_before(4-7) [OF assms(1)]
  have render: "before g ''render'' ''release''" by (rule before_trans [OF chain(3,4)])
  have review: "before g ''pre-render-review'' ''release''" by (rule before_trans [OF chain(2) render])
  have agg: "before g ''aggregate'' ''release''" by (rule before_trans [OF chain(1) review])
  have unit: "before g (unit_node_id (ut_task t)) ''release''" if "t \<in> set (dp_tasks plan)" for t
    by (rule before_trans [OF unit_before_aggregate [OF assms(1) that] agg])
  have "v \<in> tn_id ` set (compile_nodes plan deps)" using assms(3) valid_order_nodes(2) [OF ok] nodes by simp
  then consider "v = ''preflight''" | t where "t \<in> set (dp_tasks plan)" "v = unit_node_id (ut_task t)"
    | b where "b \<in> set (barrier_order plan)" "v = barrier_node_id b" | "v \<in> tn_id ` set (tail_nodes plan)"
    by (auto simp: compile_nodes_def structural_node_def patched_unit_def unit_node_def barrier_node_def)
  then show ?thesis
  proof cases
    case 1
    obtain t where t: "t \<in> set (dp_tasks plan)" using assms(2) by (cases "dp_tasks plan") auto
    show ?thesis unfolding 1 by (rule before_trans [OF compiled_before(1) [OF assms(1) t] unit [OF t]])
  next
    case 3
    then obtain t where t: "t \<in> set (dp_tasks plan)" "terminal_node t = v"
      by (auto simp: barrier_order_def map_filter_def terminal_node_def)
    show ?thesis using before_trans [OF compiled_before(3) [OF assms(1) t(1)] agg] by (simp add: t(2))
  next
    case 4
    then have "v \<in> {''aggregate'', ''pre-render-review'', ''render'', ''post-render-review''}"
      using assms(4) by (auto simp: tail_nodes_def Let_def structural_node_def)
    with chain(4) render review agg show ?thesis by (elim insertE emptyE) simp_all
  qed (use unit in simp)
qed

lemma last_of_greatest:
  assumes "r \<in> set xs" "\<And>v. v \<in> set xs \<Longrightarrow> v \<noteq> r \<Longrightarrow> order_index xs v < order_index xs r" "distinct xs"
  shows "last xs = r"
proof (rule ccontr)
  assume ne: "last xs \<noteq> r"
  have "xs \<noteq> []" using assms(1) by auto
  then have xs: "xs = butlast xs @ [last xs]" "last xs \<in> set xs" by simp_all
  have "last xs \<notin> set (butlast xs)" using assms(3) xs(1) by (metis distinct.simps(2) distinct_append disjoint_iff list.set_intros(1))
  then have "order_index xs (last xs) = length (butlast xs)" using order_index_split [of "last xs" "butlast xs" "[]"] xs(1) by simp
  moreover have "order_index xs r < length xs" using order_index_mem [OF assms(1)] by simp
  ultimately show False using assms(2) [OF xs(2) ne] by simp
qed

text \<open>Whatever compiles is a pipeline: in the order of the compiled graph preflight comes before every
  unit, a unit comes after every unit its task depends on (through the barrier if there is one), all units
  come before aggregation, then pre-render review, rendering and post-render review follow in this order,
  and release is the last node.\<close>

theorem compiled_pipeline_order:
  assumes "compile_plan content_hash plan = Inr g" "dp_tasks plan \<noteq> []"
  shows "(\<forall>t \<in> set (dp_tasks plan).
            before g ''preflight'' (unit_node_id (ut_task t))
            \<and> (\<forall>u \<in> set (ut_deps t). before g (unit_node_id u) (unit_node_id (ut_task t)))
            \<and> before g (unit_node_id (ut_task t)) ''aggregate'')
    \<and> before g ''aggregate'' ''pre-render-review'' \<and> before g ''pre-render-review'' ''render''
    \<and> before g ''render'' ''post-render-review'' \<and> last (cg_order g) = ''release''"
proof -
  obtain deps where nodes: "cg_nodes g = compile_nodes plan deps" and ok: "validate_graph g = None"
    using compile_planD [OF assms(1)] by metis
  have "''release'' \<in> set (cg_order g)"
    using valid_order_nodes(2) [OF ok] nodes by (simp add: compile_nodes_def tail_nodes_def Let_def structural_node_def)
  then have "last (cg_order g) = ''release''"
    using all_before_release [OF assms] valid_order_nodes(3) [OF ok] by (intro last_of_greatest) (auto simp: before_def)
  with compiled_before(1,4-6) [OF assms(1)] upstream_before_unit [OF assms(1)] unit_before_aggregate [OF assms(1)]
  show ?thesis by blast
qed

definition plan_example :: document_plan where
  "plan_example =
     (let task = \<lambda>t ds b. \<lparr>ut_task = t, ut_unit = t, ut_deps = ds, ut_barrier = b, ut_input_schema = [], ut_output_schema = [],
                           ut_action_key = t, ut_max_attempts = 1, ut_timeout = 60\<rparr>
      in \<lparr>dp_id = ''p'', dp_version = 1, dp_hash = ''h'', dp_snapshot_id = ''s'', dp_snapshot_hash = ''sh'', dp_executable = True,
          dp_tasks = [task ''b'' [''a''] None, task ''a'' [] (Some ''w'')], dp_edges = [(''a'', ''b'')]\<rparr>)"

definition compiled_example :: compiled_graph where
  "compiled_example = (case compile_plan cg_id plan_example of Inr g \<Rightarrow> g)"

theorem compiled_pipeline_order_witness:
  "cg_order compiled_example = [''preflight'', ''unit:a'', ''barrier:w'', ''unit:b'', ''aggregate'', ''pre-render-review'',
       ''render'', ''post-render-review'', ''release'']
   \<and> before compiled_example (unit_node_id ''a'') (unit_node_id ''b'')"
proof -
  have ok: "compile_plan cg_id plan_example = Inr compiled_example" by code_simp
  have ne: "dp_tasks plan_example \<noteq> []" by code_simp
  have task: "\<exists>t \<in> set (dp_tasks plan_example). ut_task t = ''b'' \<and> ''a'' \<in> set (ut_deps t)" by code_simp
  have "cg_order compiled_example = [''preflight'', ''unit:a'', ''barrier:w'', ''unit:b'', ''aggregate'', ''pre-render-review'',
       ''render'', ''post-render-review'', ''release'']" by code_simp
  moreover have "before compiled_example (unit_node_id ''a'') (unit_node_id ''b'')"
    using compiled_pipeline_order [OF ok ne] task by metis
  ultimately show ?thesis by blast
qed

end
