(* ===== verification/Plan_Dag.thy ===== *)
theory Plan_Dag
  imports Task_Graph
begin

text \<open>
  The executor of compiled graphs: \<open>PlanDAGExecutor.run\<close> of \<open>document_authoring/harness/plan_graph.py\<close>.

  It first replays the receipts of an earlier run, then works in rounds: the nodes whose dependencies are
  committed are ready; a ready structural node is executed alone, otherwise up to \<open>max_workers\<close> units are
  executed together and merged in graph order.  The callbacks belong to the runtime; they are parameters,
  and what they return may depend on everything committed so far.  A callback that raises is \<open>Inl\<close> with its
  message; without \<open>execute_node\<close> the structural callback is the one that always returns Python's \<open>None\<close>.
  Every round that does not raise completes a node, so the number of nodes is enough fuel
  (\<open>None\<close> would mean that it was not).
\<close>

section \<open>Results\<close>

datatype node_mark = Committed | Failed

record 'o dag_result =
  dr_statuses :: "string \<rightharpoonup> node_mark"
  dr_outputs :: "string \<rightharpoonup> 'o"
  dr_receipts :: "string \<rightharpoonup> 'o"
  dr_completed :: "string list"

datatype dag_error =
    Unknown_receipt string | Receipt_bypasses string "string list" | No_progress | Node_failed string string

text \<open>A \<open>PlanDAGExecutionError\<close> carries a copy of the statuses.\<close>

type_synonym dag_failure = "dag_error \<times> (string \<rightharpoonup> node_mark)"

definition empty_result :: "'o dag_result" where
  "empty_result = \<lparr>dr_statuses = Map.empty, dr_outputs = Map.empty, dr_receipts = Map.empty, dr_completed = []\<rparr>"

definition commit :: "string \<Rightarrow> 'o \<Rightarrow> 'o dag_result \<Rightarrow> 'o dag_result" where
  "commit v out r =
     r\<lparr>dr_statuses := (dr_statuses r)(v \<mapsto> Committed), dr_outputs := (dr_outputs r)(v \<mapsto> out),
       dr_receipts := (dr_receipts r)(v \<mapsto> out)\<rparr>"

definition mark_failed :: "string \<Rightarrow> 'o dag_result \<Rightarrow> 'o dag_result" where
  "mark_failed v r = r\<lparr>dr_statuses := (dr_statuses r)(v \<mapsto> Failed)\<rparr>"

definition complete :: "string list \<Rightarrow> 'o dag_result \<Rightarrow> 'o dag_result" where
  "complete vs r = r\<lparr>dr_completed := dr_completed r @ vs\<rparr>"

section \<open>Receipts of an earlier run\<close>

text \<open>\<open>node_by_id\<close>; in a validated graph the ids are unique and the order names exactly the nodes.\<close>

definition node_by_id :: "compiled_graph \<Rightarrow> string \<Rightarrow> task_node option" where
  "node_by_id g v = List.find (\<lambda>n. tn_id n = v) (cg_nodes g)"

definition node_deps :: "compiled_graph \<Rightarrow> string \<Rightarrow> string list" where
  "node_deps g v = (case node_by_id g v of Some n \<Rightarrow> tn_deps n | None \<Rightarrow> [])"

fun seed_receipts :: "compiled_graph \<Rightarrow> (string \<rightharpoonup> 'o) \<Rightarrow> string list \<Rightarrow> 'o dag_result \<Rightarrow> dag_failure + 'o dag_result" where
  "seed_receipts g committed [] r = Inr r"
| "seed_receipts g committed (v # vs) r =
     (case committed v of
        None \<Rightarrow> seed_receipts g committed vs r
      | Some receipt \<Rightarrow>
          (let missing = filter (\<lambda>d. committed d = None) (node_deps g v) in
           if missing \<noteq> [] then Inl (Receipt_bypasses v missing, dr_statuses r)
           else seed_receipts g committed vs (complete [v] (commit v receipt r))))"

section \<open>Rounds\<close>

definition is_ready :: "compiled_graph \<Rightarrow> 'o dag_result \<Rightarrow> task_node \<Rightarrow> bool" where
  "is_ready g r n \<longleftrightarrow>
     dr_statuses r (tn_id n) = None \<and> (\<forall>d \<in> set (tn_deps n). dr_statuses r d = Some Committed)"

definition ready_nodes :: "compiled_graph \<Rightarrow> 'o dag_result \<Rightarrow> task_node list" where
  "ready_nodes g r = filter (is_ready g r) (List.map_filter (node_by_id g) (cg_order g))"

text \<open>Collecting the futures of a batch, in batch order; the first failure is kept.\<close>

fun settle_batch :: "(task_node \<Rightarrow> string + 'o) \<Rightarrow> task_node list \<Rightarrow> 'o dag_result \<Rightarrow> (string \<times> string) option
    \<Rightarrow> 'o dag_result \<times> (string \<times> string) option" where
  "settle_batch call [] r failure = (r, failure)"
| "settle_batch call (n # ns) r failure =
     (case call n of
        Inl msg \<Rightarrow> settle_batch call ns (mark_failed (tn_id n) r) (if failure = None then Some (tn_id n, msg) else failure)
      | Inr out \<Rightarrow> settle_batch call ns (commit (tn_id n) out r) failure)"

definition run_structural :: "('o dag_result \<Rightarrow> task_node \<Rightarrow> string + 'o) \<Rightarrow> task_node \<Rightarrow> 'o dag_result \<Rightarrow> dag_failure + 'o dag_result" where
  "run_structural node_call n r =
     (case node_call r n of
        Inl msg \<Rightarrow> Inl (Node_failed (tn_id n) msg, dr_statuses (mark_failed (tn_id n) r))
      | Inr out \<Rightarrow> Inr (complete [tn_id n] (commit (tn_id n) out r)))"

definition run_batch :: "('o dag_result \<Rightarrow> task_node \<Rightarrow> string + 'o) \<Rightarrow> task_node list \<Rightarrow> 'o dag_result \<Rightarrow> dag_failure + 'o dag_result" where
  "run_batch unit_call batch r =
     (case settle_batch (unit_call r) batch r None of
        (r', failure) \<Rightarrow>
          (let r'' = complete (filter (\<lambda>v. dr_statuses r' v = Some Committed) (map tn_id batch)) r' in
           case failure of
             Some (v, msg) \<Rightarrow> Inl (Node_failed v msg, dr_statuses r'')
           | None \<Rightarrow> Inr r''))"

definition dag_round :: "('o dag_result \<Rightarrow> task_node \<Rightarrow> string + 'o) \<Rightarrow> ('o dag_result \<Rightarrow> task_node \<Rightarrow> string + 'o) \<Rightarrow> int
    \<Rightarrow> compiled_graph \<Rightarrow> 'o dag_result \<Rightarrow> dag_failure + 'o dag_result" where
  "dag_round unit_call node_call max_workers g r =
     (let ready = ready_nodes g r in
      if ready = [] then Inl (No_progress, dr_statuses r)
      else case List.find (\<lambda>n. tn_kind n \<noteq> K_unit) ready of
             Some n \<Rightarrow> run_structural node_call n r
           | None \<Rightarrow> run_batch unit_call (take (nat (max 1 max_workers)) ready) r)"

fun dag_loop :: "('o dag_result \<Rightarrow> task_node \<Rightarrow> string + 'o) \<Rightarrow> ('o dag_result \<Rightarrow> task_node \<Rightarrow> string + 'o) \<Rightarrow> int
    \<Rightarrow> compiled_graph \<Rightarrow> nat \<Rightarrow> 'o dag_result \<Rightarrow> (dag_failure + 'o dag_result) option" where
  "dag_loop unit_call node_call max_workers g fuel r =
     (if length (cg_nodes g) \<le> length (dr_completed r) then Some (Inr r)
      else case fuel of
        0 \<Rightarrow> None
      | Suc n \<Rightarrow>
          (case dag_round unit_call node_call max_workers g r of
             Inl e \<Rightarrow> Some (Inl e)
           | Inr r' \<Rightarrow> dag_loop unit_call node_call max_workers g n r'))"

declare dag_loop.simps [simp del]

definition dag_run :: "('o dag_result \<Rightarrow> task_node \<Rightarrow> string + 'o) \<Rightarrow> ('o dag_result \<Rightarrow> task_node \<Rightarrow> string + 'o) \<Rightarrow> int
    \<Rightarrow> compiled_graph \<Rightarrow> (string \<times> 'o) list \<Rightarrow> (dag_failure + 'o dag_result) option" where
  "dag_run unit_call node_call max_workers g committed_receipts =
     (case List.find (\<lambda>v. v \<notin> set (map tn_id (cg_nodes g))) (map fst committed_receipts) of
        Some v \<Rightarrow> Some (Inl (Unknown_receipt v, Map.empty))
      | None \<Rightarrow>
          (case seed_receipts g (map_of committed_receipts) (cg_order g) empty_result of
             Inl e \<Rightarrow> Some (Inl e)
           | Inr r \<Rightarrow> dag_loop unit_call node_call max_workers g (length (cg_nodes g)) r))"

section \<open>Validated graphs\<close>

lemma node_deps_eq: "node_deps g v = deps_of (node_graph (cg_nodes g)) v"
proof -
  have "(case List.find (\<lambda>n. tn_id n = v) ns of Some n \<Rightarrow> tn_deps n | None \<Rightarrow> []) = deps_of (node_graph ns) v" for ns
    by (induction ns) (auto simp: deps_of_def node_graph_def)
  then show ?thesis by (simp add: node_deps_def node_by_id_def)
qed

lemma order_index_before:
  assumes "order_index (xs @ ys) d < length xs"
  shows "d \<in> set xs"
  using assms by (induction xs) (auto simp: order_index_def split: if_splits)

lemma valid_topological:
  assumes "validate_graph g = None"
  shows "topological (node_graph (cg_nodes g)) (cg_order g)"
  unfolding topological_def
proof (intro conjI)
  show "distinct (cg_order g)" "set (cg_order g) = node_set (node_graph (cg_nodes g))"
    using valid_order_nodes [OF assms] by (auto simp: node_set_def node_graph_def)
  show "deps_first (node_graph (cg_nodes g)) (cg_order g)"
    unfolding deps_first_def
  proof (intro allI impI subsetI)
    fix xs v ys d
    assume order: "cg_order g = xs @ v # ys" and d: "d \<in> set (deps_of (node_graph (cg_nodes g)) v)"
    have "v \<notin> set xs" using valid_order_nodes(3) [OF assms] order by simp
    then have v: "order_index (cg_order g) v = length xs" using order order_index_split by simp
    obtain ds where "map_of (node_graph (cg_nodes g)) v = Some ds" "d \<in> set ds"
      using d by (cases "map_of (node_graph (cg_nodes g)) v") (auto simp: deps_of_def)
    then obtain n where "n \<in> set (cg_nodes g)" "tn_id n = v" "d \<in> set (tn_deps n)"
      by (auto simp: node_graph_def dest!: map_of_SomeD)
    then have "order_index (cg_order g) d < length xs" using valid_order_step [OF assms] v by metis
    then show "d \<in> set xs" unfolding order by (rule order_index_before)
  qed
qed

lemma node_by_id_mem:
  assumes "validate_graph g = None" "n \<in> set (cg_nodes g)"
  shows "node_by_id g (tn_id n) = Some n"
proof -
  have "inj_on tn_id (set (cg_nodes g))" using valid_order_nodes(1) [OF assms(1)] by (simp add: distinct_map)
  with assms(2) show ?thesis
    by (cases "node_by_id g (tn_id n)") (auto simp: node_by_id_def find_None_iff find_Some_iff inj_on_def)
qed

lemma node_deps_mem: "validate_graph g = None \<Longrightarrow> n \<in> set (cg_nodes g) \<Longrightarrow> node_deps g (tn_id n) = tn_deps n"
  by (simp add: node_deps_def node_by_id_mem)

lemma known_ids:
  assumes "\<And>v. v \<in> set vs \<Longrightarrow> \<exists>n. node_by_id g v = Some n \<and> tn_id n = v"
  shows "map tn_id (List.map_filter (node_by_id g) vs) = vs"
  using assms
proof (induction vs)
  case (Cons v vs)
  obtain n where "node_by_id g v = Some n" "tn_id n = v" using Cons.prems by auto
  with Cons show ?case by (simp add: map_filter_simps)
qed (simp add: map_filter_simps)

lemma ready_nodes_facts:
  assumes "validate_graph g = None"
  shows "distinct (map tn_id (ready_nodes g r))"
    "n \<in> set (ready_nodes g r) \<longleftrightarrow> n \<in> set (cg_nodes g) \<and> is_ready g r n"
proof -
  have "\<exists>n. node_by_id g v = Some n \<and> tn_id n = v" if "v \<in> set (cg_order g)" for v
    using that valid_order_nodes(2) [OF assms] node_by_id_mem [OF assms] by auto
  then have *: "map tn_id (List.map_filter (node_by_id g) (cg_order g)) = cg_order g" by (rule known_ids)
  then show "distinct (map tn_id (ready_nodes g r))"
    using valid_order_nodes(3) [OF assms] by (simp add: ready_nodes_def distinct_map_filter)
  have "set (List.map_filter (node_by_id g) (cg_order g)) = set (cg_nodes g)"
  proof
    have "n \<in> set (cg_nodes g)" if "node_by_id g v = Some n" for v n
      using that by (auto simp: node_by_id_def find_Some_iff)
    then show "set (List.map_filter (node_by_id g) (cg_order g)) \<subseteq> set (cg_nodes g)" by (auto simp: map_filter_def)
    show "set (cg_nodes g) \<subseteq> set (List.map_filter (node_by_id g) (cg_order g))"
      using node_by_id_mem [OF assms] valid_order_nodes(2) [OF assms] by (force simp: map_filter_def)
  qed
  then show "n \<in> set (ready_nodes g r) \<longleftrightarrow> n \<in> set (cg_nodes g) \<and> is_ready g r n" by (simp add: ready_nodes_def)
qed

section \<open>The invariant of the rounds\<close>

text \<open>A node with a status had all its dependencies committed.\<close>

definition statuses_closed :: "compiled_graph \<Rightarrow> (string \<rightharpoonup> node_mark) \<Rightarrow> bool" where
  "statuses_closed g st \<longleftrightarrow> (\<forall>v. st v \<noteq> None \<longrightarrow> (\<forall>d \<in> set (node_deps g v). st d = Some Committed))"

definition dag_inv :: "compiled_graph \<Rightarrow> 'o dag_result \<Rightarrow> bool" where
  "dag_inv g r \<longleftrightarrow>
     distinct (dr_completed r) \<and> set (dr_completed r) \<subseteq> set (cg_order g)
     \<and> dr_statuses r = (\<lambda>v. if v \<in> set (dr_completed r) then Some Committed else None)
     \<and> deps_first (node_graph (cg_nodes g)) (dr_completed r)"

lemma deps_first_append:
  assumes "deps_first nodes xs" "\<And>v. v \<in> set vs \<Longrightarrow> set (deps_of nodes v) \<subseteq> set xs"
  shows "deps_first nodes (xs @ vs)"
  using assms(2)
proof (induction vs rule: rev_induct)
  case (snoc v vs)
  then have "deps_first nodes ((xs @ vs) @ [v])" by (intro deps_first_snoc) auto
  then show ?case by simp
qed (simp add: assms(1))

lemma dag_inv_closed: "dag_inv g r \<Longrightarrow> statuses_closed g (dr_statuses r)"
  using deps_first_closed by (fastforce simp: dag_inv_def statuses_closed_def node_deps_eq)

text \<open>Nodes that were ready may be added.\<close>

lemma ready_deps:
  assumes "validate_graph g = None" "dag_inv g r" "n \<in> set (ready_nodes g r)"
  shows "set (node_deps g (tn_id n)) \<subseteq> set (dr_completed r)" "tn_id n \<notin> set (dr_completed r)"
    "tn_id n \<in> set (cg_order g)" "n \<in> set (cg_nodes g)"
proof -
  have n: "n \<in> set (cg_nodes g)" "is_ready g r n" using assms ready_nodes_facts(2) by auto
  then show "n \<in> set (cg_nodes g)" "tn_id n \<in> set (cg_order g)" using valid_order_nodes(2) [OF assms(1)] by auto
  show "set (node_deps g (tn_id n)) \<subseteq> set (dr_completed r)" "tn_id n \<notin> set (dr_completed r)"
    using n assms(2) node_deps_mem [OF assms(1) n(1)]
    by (auto simp: dag_inv_def is_ready_def split: if_splits)
qed

lemma dag_inv_extend:
  assumes "validate_graph g = None" "dag_inv g r" "set ns \<subseteq> set (ready_nodes g r)" "distinct (map tn_id ns)"
    and "dr_completed r' = dr_completed r @ map tn_id ns"
    and "\<And>v. dr_statuses r' v = (if v \<in> tn_id ` set ns then Some Committed else dr_statuses r v)"
  shows "dag_inv g r'"
proof -
  note ready = ready_deps [OF assms(1,2)]
  have "deps_first (node_graph (cg_nodes g)) (dr_completed r @ map tn_id ns)"
    using assms(2,3) ready(1) by (intro deps_first_append) (auto simp: dag_inv_def node_deps_eq)
  moreover have "distinct (dr_completed r @ map tn_id ns)" using assms(2,3,4) ready(2) by (auto simp: dag_inv_def)
  moreover have "set (dr_completed r @ map tn_id ns) \<subseteq> set (cg_order g)"
    using assms(2,3) ready(3) by (auto simp: dag_inv_def)
  moreover have "dr_statuses r' = (\<lambda>v. if v \<in> set (dr_completed r @ map tn_id ns) then Some Committed else None)"
    using assms(2,6) by (auto simp: dag_inv_def)
  ultimately show ?thesis using assms(5) by (simp add: dag_inv_def)
qed

text \<open>Failures leave closed statuses behind.\<close>

lemma statuses_closed_extend:
  assumes "validate_graph g = None" "dag_inv g r" "set ns \<subseteq> set (ready_nodes g r)"
    and "\<And>v. v \<notin> tn_id ` set ns \<Longrightarrow> st v = dr_statuses r v"
  shows "statuses_closed g st"
  unfolding statuses_closed_def
proof (intro allI impI ballI)
  fix v d assume v: "st v \<noteq> None" and d: "d \<in> set (node_deps g v)"
  note ready = ready_deps [OF assms(1,2)]
  have done_deps: "d \<in> set (dr_completed r)"
  proof (cases "v \<in> tn_id ` set ns")
    case True
    then show ?thesis using d assms(3) ready(1) by auto
  next
    case False
    then have "v \<in> set (dr_completed r)" using v assms(2,4) by (auto simp: dag_inv_def split: if_splits)
    then show ?thesis using d assms(2) deps_first_closed by (fastforce simp: dag_inv_def node_deps_eq)
  qed
  then have "d \<notin> tn_id ` set ns" using assms(3) ready(2) by auto
  with done_deps show "st d = Some Committed" using assms(2,4) by (simp add: dag_inv_def)
qed

lemma settle_completed [simp]: "dr_completed (fst (settle_batch call ns r f)) = dr_completed r"
  by (induction call ns r f rule: settle_batch.induct) (simp_all add: mark_failed_def commit_def split: sum.split)

lemma settle_other:
  assumes "v \<notin> tn_id ` set ns"
  shows "dr_statuses (fst (settle_batch call ns r f)) v = dr_statuses r v"
    "dr_outputs (fst (settle_batch call ns r f)) v = dr_outputs r v"
  using assms
  by (induction call ns r f rule: settle_batch.induct) (simp_all add: mark_failed_def commit_def split: sum.split)

lemma settle_member:
  assumes "distinct (map tn_id ns)" "n \<in> set ns"
  shows "case call n of
      Inl msg \<Rightarrow> dr_statuses (fst (settle_batch call ns r f)) (tn_id n) = Some Failed
    | Inr out \<Rightarrow> dr_statuses (fst (settle_batch call ns r f)) (tn_id n) = Some Committed
        \<and> dr_outputs (fst (settle_batch call ns r f)) (tn_id n) = Some out"
  using assms
proof (induction call ns r f rule: settle_batch.induct)
  case (2 call m ns r f)
  show ?case
  proof (cases "n = m")
    case True
    have "tn_id m \<notin> tn_id ` set ns" using 2(3) by simp
    with True show ?thesis by (simp add: settle_other mark_failed_def commit_def split: sum.split)
  next
    case False
    with 2 show ?thesis by (cases "call m"; cases "call n") simp_all
  qed
qed simp

lemma settle_failure_None:
  "snd (settle_batch call ns r f) = None \<longleftrightarrow> f = None \<and> (\<forall>n \<in> set ns. \<exists>out. call n = Inr out)"
  by (induction call ns r f rule: settle_batch.induct) (auto split: sum.split)

lemma settle_failure_Some:
  assumes "snd (settle_batch call ns r f) = Some (v, msg)"
  shows "f = Some (v, msg) \<or> (\<exists>n \<in> set ns. tn_id n = v \<and> call n = Inl msg)"
  using assms by (induction call ns r f rule: settle_batch.induct) (auto split: sum.splits if_splits)

text \<open>One round: it never stops for want of progress, commits ready nodes, or fails on one of them.\<close>

lemma first_missing:
  assumes "validate_graph g = None" "dag_inv g r" "length (dr_completed r) < length (cg_nodes g)"
  shows "ready_nodes g r \<noteq> []"
proof -
  note topo = valid_topological [OF assms(1)]
  have len: "length (cg_nodes g) = length (cg_order g)"
    using valid_order_nodes [OF assms(1)] by (metis distinct_card length_map set_map)
  have "\<exists>v \<in> set (cg_order g). v \<notin> set (dr_completed r)"
  proof (rule ccontr)
    assume "\<not> ?thesis"
    then have "card (set (cg_order g)) \<le> card (set (dr_completed r))" by (intro card_mono) auto
    with assms(2,3) len valid_order_nodes(3) [OF assms(1)] show False by (simp add: distinct_card dag_inv_def)
  qed
  then obtain xs v ys where order: "cg_order g = xs @ v # ys" "v \<notin> set (dr_completed r)" "set xs \<subseteq> set (dr_completed r)"
    using split_list_first_prop [of "cg_order g" "\<lambda>v. v \<notin> set (dr_completed r)"] by (metis subsetI)
  then have deps: "set (deps_of (node_graph (cg_nodes g)) v) \<subseteq> set (dr_completed r)"
    using topo unfolding topological_def deps_first_def by blast
  have "v \<in> tn_id ` set (cg_nodes g)" using order(1) valid_order_nodes(2) [OF assms(1)] by (metis in_set_conv_decomp)
  then obtain n where n: "n \<in> set (cg_nodes g)" "tn_id n = v" by auto
  have "is_ready g r n"
    using deps order(2) n assms(2) node_deps_mem [OF assms(1) n(1)] by (auto simp: is_ready_def dag_inv_def node_deps_eq)
  with n(1) ready_nodes_facts(2) [OF assms(1)] show ?thesis by (metis empty_iff empty_set)
qed

definition node_call_failed :: "('o dag_result \<Rightarrow> task_node \<Rightarrow> string + 'o) \<Rightarrow> ('o dag_result \<Rightarrow> task_node \<Rightarrow> string + 'o)
    \<Rightarrow> compiled_graph \<Rightarrow> dag_failure \<Rightarrow> bool" where
  "node_call_failed unit_call node_call g failure \<longleftrightarrow>
     (\<exists>n \<in> set (cg_nodes g). \<exists>msg r. fst failure = Node_failed (tn_id n) msg \<and> snd failure (tn_id n) = Some Failed
        \<and> (if tn_kind n = K_unit then unit_call r n = Inl msg else node_call r n = Inl msg))"

lemma structural_round:
  assumes "validate_graph g = None" "dag_inv g r" "n \<in> set (ready_nodes g r)" "tn_kind n \<noteq> K_unit"
  shows "case run_structural node_call n r of
      Inl e \<Rightarrow> statuses_closed g (snd e) \<and> node_call_failed unit_call node_call g e
    | Inr r' \<Rightarrow> dag_inv g r' \<and> length (dr_completed r) < length (dr_completed r')"
proof (cases "node_call r n")
  case (Inl msg)
  have "statuses_closed g (dr_statuses (mark_failed (tn_id n) r))"
    using assms(3) by (intro statuses_closed_extend [OF assms(1,2), of "[n]"]) (auto simp: mark_failed_def)
  moreover have "n \<in> set (cg_nodes g)" by (rule ready_deps(4) [OF assms(1-3)])
  ultimately show ?thesis
    using Inl assms(4) by (auto simp: run_structural_def node_call_failed_def mark_failed_def)
next
  case (Inr out)
  have "dag_inv g (complete [tn_id n] (commit (tn_id n) out r))"
    using assms(3) by (intro dag_inv_extend [OF assms(1,2), of "[n]"]) (auto simp: complete_def commit_def)
  with Inr show ?thesis by (simp add: run_structural_def complete_def commit_def)
qed

lemma batch_round:
  assumes "validate_graph g = None" "dag_inv g r" "set ns \<subseteq> set (ready_nodes g r)" "distinct (map tn_id ns)" "ns \<noteq> []"
    and "\<And>n. n \<in> set ns \<Longrightarrow> tn_kind n = K_unit"
  shows "case run_batch unit_call ns r of
      Inl e \<Rightarrow> statuses_closed g (snd e) \<and> node_call_failed unit_call node_call g e
    | Inr r' \<Rightarrow> dag_inv g r' \<and> length (dr_completed r) < length (dr_completed r')"
proof -
  let ?call = "unit_call r"
  obtain r' f where s: "settle_batch ?call ns r None = (r', f)" by fastforce
  have other: "dr_statuses r' v = dr_statuses r v" if "v \<notin> tn_id ` set ns" for v
    using settle_other(1) [OF that, of ?call r None] s by simp
  have comp: "dr_completed r' = dr_completed r" using settle_completed [of ?call ns r None] s by simp
  let ?done = "filter (\<lambda>v. dr_statuses r' v = Some Committed) (map tn_id ns)"
  show ?thesis
  proof (cases f)
    case None
    then have ok: "\<exists>out. ?call n = Inr out" if "n \<in> set ns" for n
      using settle_failure_None [of ?call ns r None] s that by simp
    have st: "dr_statuses r' (tn_id n) = Some Committed" if "n \<in> set ns" for n
      using settle_member [OF assms(4) that, of ?call r None] ok [OF that] s by auto
    then have done_all: "?done = map tn_id ns" by (simp add: filter_id_conv)
    have "dag_inv g (complete (map tn_id ns) r')"
      using other st comp by (intro dag_inv_extend [OF assms(1-4)]) (auto simp: complete_def)
    with None s assms(5) comp show ?thesis by (simp add: run_batch_def Let_def done_all complete_def)
  next
    case (Some p)
    obtain v msg where p: "p = (v, msg)" by fastforce
    obtain n where n: "n \<in> set ns" "tn_id n = v" "?call n = Inl msg"
      using settle_failure_Some [of ?call ns r None v msg] s Some p by auto
    have "dr_statuses r' v = Some Failed" using settle_member [OF assms(4) n(1), of ?call r None] n s by simp
    moreover have "n \<in> set (cg_nodes g)" using ready_deps(4) [OF assms(1,2)] n(1) assms(3) by blast
    moreover have "statuses_closed g (dr_statuses r')" using other by (rule statuses_closed_extend [OF assms(1-3)])
    ultimately show ?thesis
      using Some p s n assms(6) by (auto simp: run_batch_def Let_def complete_def node_call_failed_def)
  qed
qed

lemma dag_round_facts:
  assumes "validate_graph g = None" "dag_inv g r" "length (dr_completed r) < length (cg_nodes g)"
  shows "case dag_round unit_call node_call w g r of
      Inl e \<Rightarrow> statuses_closed g (snd e) \<and> node_call_failed unit_call node_call g e
    | Inr r' \<Rightarrow> dag_inv g r' \<and> length (dr_completed r) < length (dr_completed r')"
proof (cases "List.find (\<lambda>n. tn_kind n \<noteq> K_unit) (ready_nodes g r)")
  case (Some n)
  then have "n \<in> set (ready_nodes g r)" "tn_kind n \<noteq> K_unit" by (auto simp: find_Some_iff)
  from structural_round [OF assms(1,2) this] Some first_missing [OF assms] show ?thesis
    by (simp add: dag_round_def Let_def)
next
  case None
  let ?b = "take (nat (max 1 w)) (ready_nodes g r)"
  have "set ?b \<subseteq> set (ready_nodes g r)" by (rule set_take_subset)
  moreover have "distinct (map tn_id ?b)"
    using ready_nodes_facts(1) [OF assms(1), of r] by (simp add: distinct_take flip: take_map)
  moreover have "?b \<noteq> []" using first_missing [OF assms] by auto
  moreover have "tn_kind n = K_unit" if "n \<in> set ?b" for n
    using None that set_take_subset [of "nat (max 1 w)" "ready_nodes g r"] by (auto simp: find_None_iff)
  ultimately show ?thesis
    using batch_round [OF assms(1,2), of ?b unit_call node_call] None first_missing [OF assms]
    by (simp add: dag_round_def Let_def)
qed

lemma dag_loop_facts:
  assumes "validate_graph g = None" "dag_inv g r" "length (cg_nodes g) \<le> length (dr_completed r) + n"
  shows "\<exists>outcome. dag_loop unit_call node_call w g n r = Some outcome
    \<and> (case outcome of
         Inl e \<Rightarrow> statuses_closed g (snd e) \<and> node_call_failed unit_call node_call g e
       | Inr r' \<Rightarrow> dag_inv g r' \<and> length (cg_nodes g) \<le> length (dr_completed r'))"
  using assms(2,3)
proof (induction n arbitrary: r)
  case 0
  then show ?case by (simp add: dag_loop.simps)
next
  case (Suc n)
  show ?case
  proof (cases "length (cg_nodes g) \<le> length (dr_completed r)")
    case True
    with Suc.prems show ?thesis by (simp add: dag_loop.simps)
  next
    case False
    then have lt: "length (dr_completed r) < length (cg_nodes g)" by simp
    note round = dag_round_facts [OF assms(1) Suc.prems(1) lt, of unit_call node_call w]
    show ?thesis
    proof (cases "dag_round unit_call node_call w g r")
      case (Inl e)
      with round False show ?thesis by (simp add: dag_loop.simps)
    next
      case (Inr r')
      with round Suc.prems(2) have "dag_inv g r'" "length (cg_nodes g) \<le> length (dr_completed r') + n" by auto
      from Suc.IH [OF this] Inr False show ?thesis by (subst dag_loop.simps) simp
    qed
  qed
qed

section \<open>The run\<close>

text \<open>Replaying receipts: the invariant holds at each step, or the receipt that has no receipt for one of
  its dependencies is named.\<close>

lemma seed_receipts_facts:
  assumes "validate_graph g = None" "cg_order g = xs @ vs" "dag_inv g r"
    and "set (dr_completed r) = {v \<in> set xs. committed v \<noteq> None}"
    and "dr_outputs r = (\<lambda>v. if v \<in> set xs then committed v else None)"
  shows "case seed_receipts g committed vs r of
      Inl (e, st) \<Rightarrow> statuses_closed g st
        \<and> (\<exists>v ds. e = Receipt_bypasses v ds \<and> committed v \<noteq> None \<and> ds \<noteq> []
             \<and> set ds \<subseteq> set (node_deps g v) \<inter> {d. committed d = None})
    | Inr r' \<Rightarrow> dag_inv g r' \<and> set (dr_completed r') = {v \<in> set (cg_order g). committed v \<noteq> None}
        \<and> dr_outputs r' = (\<lambda>v. if v \<in> set (cg_order g) then committed v else None)"
  using assms(2-)
proof (induction vs arbitrary: xs r)
  case Nil
  then show ?case by simp
next
  case (Cons v vs)
  have order: "cg_order g = (xs @ [v]) @ vs" using Cons.prems(1) by simp
  have fresh: "v \<notin> set xs" using valid_order_nodes(3) [OF assms(1)] Cons.prems(1) by simp
  show ?case
  proof (cases "committed v")
    case None
    have "set (dr_completed r) = {w \<in> set (xs @ [v]). committed w \<noteq> None}" using Cons.prems(3) None by auto
    moreover have "dr_outputs r = (\<lambda>w. if w \<in> set (xs @ [v]) then committed w else None)"
      using Cons.prems(4) None by auto
    ultimately show ?thesis using Cons.IH [OF order Cons.prems(2)] None by simp
  next
    case (Some receipt)
    let ?missing = "filter (\<lambda>d. committed d = None) (node_deps g v)"
    show ?thesis
    proof (cases "?missing = []")
      case False
      then have "seed_receipts g committed (v # vs) r = Inl (Receipt_bypasses v ?missing, dr_statuses r)"
        using Some by (simp add: Let_def)
      moreover have "set ?missing \<subseteq> set (node_deps g v) \<inter> {d. committed d = None}" by auto
      ultimately show ?thesis using dag_inv_closed [OF Cons.prems(2)] Some False by simp
    next
      case True
      let ?r' = "complete [v] (commit v receipt r)"
      have deps: "set (deps_of (node_graph (cg_nodes g)) v) \<subseteq> set (dr_completed r)"
      proof -
        have "set (deps_of (node_graph (cg_nodes g)) v) \<subseteq> set xs"
          using valid_topological [OF assms(1)] Cons.prems(1) unfolding topological_def deps_first_def by blast
        with True Cons.prems(3) show ?thesis by (auto simp: node_deps_eq filter_empty_conv)
      qed
      have "dag_inv g ?r'"
        using Cons.prems(1,2,3) fresh deps deps_first_snoc
        by (auto simp: dag_inv_def complete_def commit_def fun_eq_iff)
      moreover have "set (dr_completed ?r') = {w \<in> set (xs @ [v]). committed w \<noteq> None}"
        using Cons.prems(3) Some by (auto simp: complete_def commit_def)
      moreover have "dr_outputs ?r' = (\<lambda>w. if w \<in> set (xs @ [v]) then committed w else None)"
        using Cons.prems(4) Some by (auto simp: complete_def commit_def fun_eq_iff)
      ultimately show ?thesis
        using Cons.IH [OF order] Some True by (simp add: Let_def)
    qed
  qed
qed

lemma empty_result_inv: "dag_inv g empty_result"
  by (simp add: dag_inv_def empty_result_def)

lemma dag_inv_complete:
  assumes "validate_graph g = None" "dag_inv g r" "length (cg_nodes g) \<le> length (dr_completed r)"
  shows "topological (node_graph (cg_nodes g)) (dr_completed r)"
proof -
  have len: "length (cg_order g) = length (cg_nodes g)"
    using valid_order_nodes [OF assms(1)] by (metis distinct_card length_map set_map)
  have "set (dr_completed r) = set (cg_order g)"
    using assms(2,3) len valid_order_nodes(3) [OF assms(1)]
    by (intro card_seteq) (auto simp: dag_inv_def distinct_card)
  with assms(2) valid_topological [OF assms(1)] show ?thesis by (simp add: topological_def dag_inv_def)
qed

text \<open>What a run may end with.\<close>

definition outcome_ok :: "('o dag_result \<Rightarrow> task_node \<Rightarrow> string + 'o) \<Rightarrow> ('o dag_result \<Rightarrow> task_node \<Rightarrow> string + 'o)
    \<Rightarrow> compiled_graph \<Rightarrow> (string \<times> 'o) list \<Rightarrow> dag_failure + 'o dag_result \<Rightarrow> bool" where
  "outcome_ok unit_call node_call g receipts outcome \<longleftrightarrow>
     (case outcome of
        Inr r \<Rightarrow> topological (node_graph (cg_nodes g)) (dr_completed r)
          \<and> (\<forall>v \<in> set (cg_order g). dr_statuses r v = Some Committed)
      | Inl (e, st) \<Rightarrow> statuses_closed g st
          \<and> (case e of
               Unknown_receipt v \<Rightarrow> v \<in> fst ` set receipts - set (cg_order g)
             | Receipt_bypasses v ds \<Rightarrow> v \<in> fst ` set receipts \<and> ds \<noteq> []
                 \<and> set ds \<subseteq> set (node_deps g v) - fst ` set receipts
             | No_progress \<Rightarrow> False
             | Node_failed v msg \<Rightarrow> node_call_failed unit_call node_call g (e, st)))"

lemma loop_outcome_ok:
  assumes "validate_graph g = None" "dag_inv g r"
  shows "\<exists>outcome. dag_loop unit_call node_call w g (length (cg_nodes g)) r = Some outcome
    \<and> outcome_ok unit_call node_call g receipts outcome"
proof -
  obtain outcome where loop: "dag_loop unit_call node_call w g (length (cg_nodes g)) r = Some outcome"
    and facts: "case outcome of
         Inl e \<Rightarrow> statuses_closed g (snd e) \<and> node_call_failed unit_call node_call g e
       | Inr r' \<Rightarrow> dag_inv g r' \<and> length (cg_nodes g) \<le> length (dr_completed r')"
    using dag_loop_facts [OF assms, of "length (cg_nodes g)" unit_call node_call w] by auto
  have "outcome_ok unit_call node_call g receipts outcome"
  proof (cases outcome)
    case (Inl e)
    obtain err st where e: "e = (err, st)" by fastforce
    then obtain v msg where "err = Node_failed v msg" using facts Inl by (auto simp: node_call_failed_def)
    with facts Inl e show ?thesis by (simp add: outcome_ok_def)
  next
    case (Inr r')
    then have "topological (node_graph (cg_nodes g)) (dr_completed r')" "dag_inv g r'"
      using facts dag_inv_complete [OF assms(1)] by auto
    with Inr valid_topological [OF assms(1)] show ?thesis by (simp add: outcome_ok_def topological_def dag_inv_def)
  qed
  with loop show ?thesis by blast
qed

text \<open>C14. On a validated graph a run always ends, whatever the callbacks do and however many workers there
  are.  If it succeeds, every node was committed exactly once and after its dependencies.  If it fails, the
  reason is a receipt for an unknown node, a receipt without its dependencies' receipts, or a callback that
  raised -- never a lack of progress -- and no node was started before its dependencies were committed.\<close>

theorem dag_run_outcome:
  assumes "validate_graph g = None"
  shows "\<exists>outcome. dag_run unit_call node_call max_workers g receipts = Some outcome
    \<and> outcome_ok unit_call node_call g receipts outcome"
proof (cases "List.find (\<lambda>v. v \<notin> set (map tn_id (cg_nodes g))) (map fst receipts)")
  case (Some v)
  then have "v \<in> fst ` set receipts" "v \<notin> tn_id ` set (cg_nodes g)" by (auto simp: find_Some_iff)
  with Some show ?thesis
    using valid_order_nodes(2) [OF assms] by (simp add: dag_run_def outcome_ok_def statuses_closed_def)
next
  case None
  have empty: "set (dr_completed empty_result) = {v \<in> set []. map_of receipts v \<noteq> None}"
    "dr_outputs empty_result = (\<lambda>v. if v \<in> set [] then map_of receipts v else None)"
    by (simp_all add: empty_result_def)
  note seed = seed_receipts_facts [OF assms _ empty_result_inv empty, of "cg_order g"]
  show ?thesis
  proof (cases "seed_receipts g (map_of receipts) (cg_order g) empty_result")
    case (Inl p)
    obtain e st where p: "p = (e, st)" by fastforce
    obtain v ds where "e = Receipt_bypasses v ds" "statuses_closed g st" "ds \<noteq> []" "v \<in> fst ` set receipts"
      "set ds \<subseteq> set (node_deps g v)" "set ds \<inter> fst ` set receipts = {}"
    proof -
      obtain v ds where e: "e = Receipt_bypasses v ds" "map_of receipts v \<noteq> None" "statuses_closed g st" "ds \<noteq> []"
        and ds: "set ds \<subseteq> set (node_deps g v) \<inter> {d. map_of receipts d = None}"
        using seed Inl p by auto
      have "v \<in> fst ` set receipts" using e(2) map_of_eq_None_iff by metis
      moreover have "set ds \<inter> fst ` set receipts = {}" using ds map_of_eq_None_iff [of receipts] by blast
      moreover have "set ds \<subseteq> set (node_deps g v)" using ds by blast
      ultimately show thesis using that [OF e(1,3,4)] by blast
    qed
    then have "outcome_ok unit_call node_call g receipts (Inl (e, st))" by (auto simp: outcome_ok_def)
    with None Inl p show ?thesis by (simp add: dag_run_def)
  next
    case (Inr r)
    then have "dag_inv g r" using seed by simp
    from loop_outcome_ok [OF assms this] None Inr show ?thesis by (simp add: dag_run_def)
  qed
qed

theorem dag_run_outcome_witness:
  "validate_graph compiled_example = None
   \<and> (\<exists>outcome. dag_run (\<lambda>r n. Inr (tn_id n)) (\<lambda>r n. if tn_kind n = K_render then Inl ''boom'' else Inr []) 4
          compiled_example [(''preflight'', ''ok'')] = Some outcome
        \<and> outcome_ok (\<lambda>r n. Inr (tn_id n)) (\<lambda>r n. if tn_kind n = K_render then Inl ''boom'' else Inr [])
            compiled_example [(''preflight'', ''ok'')] outcome)"
proof -
  have ok: "validate_graph compiled_example = None" by code_simp
  show ?thesis by (intro conjI ok dag_run_outcome [OF ok])
qed

section \<open>Outputs do not depend on the number of workers\<close>

text \<open>For callbacks that depend on the node only: the value a node ends up with.\<close>

definition node_value :: "(task_node \<Rightarrow> string + 'o) \<Rightarrow> (task_node \<Rightarrow> string + 'o) \<Rightarrow> compiled_graph \<Rightarrow> (string \<times> 'o) list
    \<Rightarrow> string \<Rightarrow> 'o option" where
  "node_value unit_call node_call g receipts v =
     (case map_of receipts v of
        Some out \<Rightarrow> Some out
      | None \<Rightarrow>
          (case node_by_id g v of
             None \<Rightarrow> None
           | Some n \<Rightarrow> (case if tn_kind n = K_unit then unit_call n else node_call n of Inr out \<Rightarrow> Some out | Inl msg \<Rightarrow> None)))"

definition outputs_inv :: "(string \<Rightarrow> 'o option) \<Rightarrow> (string \<times> 'o) list \<Rightarrow> 'o dag_result \<Rightarrow> bool" where
  "outputs_inv val receipts r \<longleftrightarrow>
     fst ` set receipts \<subseteq> set (dr_completed r)
     \<and> dr_outputs r = (\<lambda>v. if v \<in> set (dr_completed r) then val v else None)"

lemma node_value_ready:
  assumes "validate_graph g = None" "dag_inv g r" "fst ` set receipts \<subseteq> set (dr_completed r)"
    "n \<in> set (ready_nodes g r)" "(if tn_kind n = K_unit then unit_call n else node_call n) = Inr out"
  shows "node_value unit_call node_call g receipts (tn_id n) = Some out"
proof -
  note ready = ready_deps [OF assms(1,2,4)]
  have "map_of receipts (tn_id n) = None" using ready(2) assms(3) by (auto simp: map_of_eq_None_iff)
  with node_by_id_mem [OF assms(1) ready(4)] assms(5) show ?thesis by (simp add: node_value_def)
qed

lemma batch_outputs:
  assumes "validate_graph g = None" "dag_inv g r" "outputs_inv (node_value unit_call node_call g receipts) receipts r"
    "set ns \<subseteq> set (ready_nodes g r)" "distinct (map tn_id ns)" "\<And>n. n \<in> set ns \<Longrightarrow> tn_kind n = K_unit"
    "run_batch (\<lambda>_. unit_call) ns r = Inr r'"
  shows "outputs_inv (node_value unit_call node_call g receipts) receipts r'"
proof -
  obtain s f where s: "settle_batch unit_call ns r None = (s, f)" by fastforce
  then have f: "f = None" using assms(7) by (auto simp: run_batch_def Let_def split: option.splits)
  then have ok: "\<exists>out. unit_call n = Inr out" if "n \<in> set ns" for n
    using settle_failure_None [of unit_call ns r None] s that by simp
  have mem: "dr_statuses s (tn_id n) = Some Committed
      \<and> dr_outputs s (tn_id n) = node_value unit_call node_call g receipts (tn_id n)" if n: "n \<in> set ns" for n
  proof -
    obtain out where out: "unit_call n = Inr out" using ok [OF n] by blast
    have "fst ` set receipts \<subseteq> set (dr_completed r)" "n \<in> set (ready_nodes g r)"
      using assms(3,4) n by (auto simp: outputs_inv_def)
    from node_value_ready [OF assms(1,2) this, of unit_call node_call out] out assms(6) [OF n]
      settle_member [OF assms(5) n, of unit_call r None] s
    show ?thesis by simp
  qed
  then have "filter (\<lambda>v. dr_statuses s v = Some Committed) (map tn_id ns) = map tn_id ns" by (simp add: filter_id_conv)
  then have r': "r' = complete (map tn_id ns) s" using assms(7) s f by (simp add: run_batch_def Let_def)
  have "dr_completed s = dr_completed r" using settle_completed [of unit_call ns r None] s by simp
  moreover have "dr_outputs s v = (if v \<in> set (dr_completed r @ map tn_id ns)
      then node_value unit_call node_call g receipts v else None)" for v
  proof (cases "v \<in> tn_id ` set ns")
    case False
    with settle_other(2) [OF False, of unit_call r None] s assms(3) show ?thesis by (simp add: outputs_inv_def)
  qed (use mem in auto)
  ultimately show ?thesis
    using assms(3) by (auto simp: outputs_inv_def r' complete_def fun_eq_iff)
qed

lemma structural_outputs:
  assumes "validate_graph g = None" "dag_inv g r" "outputs_inv (node_value unit_call node_call g receipts) receipts r"
    "n \<in> set (ready_nodes g r)" "tn_kind n \<noteq> K_unit" "run_structural (\<lambda>_. node_call) n r = Inr r'"
  shows "outputs_inv (node_value unit_call node_call g receipts) receipts r'"
proof -
  obtain out where out: "node_call n = Inr out" "r' = complete [tn_id n] (commit (tn_id n) out r)"
    using assms(6) by (auto simp: run_structural_def split: sum.splits)
  have "fst ` set receipts \<subseteq> set (dr_completed r)" using assms(3) by (simp add: outputs_inv_def)
  from node_value_ready [OF assms(1,2) this assms(4), of unit_call node_call out] out assms(3,5) show ?thesis
    by (auto simp: outputs_inv_def complete_def commit_def fun_eq_iff)
qed

lemma round_outputs:
  assumes "validate_graph g = None" "dag_inv g r" "outputs_inv (node_value unit_call node_call g receipts) receipts r"
    "dag_round (\<lambda>_. unit_call) (\<lambda>_. node_call) w g r = Inr r'"
  shows "outputs_inv (node_value unit_call node_call g receipts) receipts r'"
proof (cases "List.find (\<lambda>n. tn_kind n \<noteq> K_unit) (ready_nodes g r)")
  case (Some n)
  then have "n \<in> set (ready_nodes g r)" "tn_kind n \<noteq> K_unit" by (auto simp: find_Some_iff)
  with structural_outputs [OF assms(1-3)] Some assms(4) show ?thesis
    by (simp add: dag_round_def Let_def split: if_splits)
next
  case None
  let ?b = "take (nat (max 1 w)) (ready_nodes g r)"
  have "run_batch (\<lambda>_. unit_call) ?b r = Inr r'" using assms(4) None by (simp add: dag_round_def Let_def split: if_splits)
  moreover have "set ?b \<subseteq> set (ready_nodes g r)" by (rule set_take_subset)
  moreover have "tn_kind n = K_unit" if "n \<in> set ?b" for n
    using None that set_take_subset [of "nat (max 1 w)" "ready_nodes g r"] by (auto simp: find_None_iff)
  moreover have "distinct (map tn_id ?b)"
    using ready_nodes_facts(1) [OF assms(1), of r] by (simp add: distinct_take flip: take_map)
  ultimately show ?thesis using batch_outputs [OF assms(1-3)] by blast
qed

lemma loop_outputs:
  assumes "validate_graph g = None" "dag_inv g r" "outputs_inv (node_value unit_call node_call g receipts) receipts r"
    "dag_loop (\<lambda>_. unit_call) (\<lambda>_. node_call) w g n r = Some (Inr r')"
  shows "dag_inv g r' \<and> outputs_inv (node_value unit_call node_call g receipts) receipts r'"
  using assms(2-)
proof (induction n arbitrary: r)
  case 0
  then show ?case by (simp add: dag_loop.simps split: if_splits)
next
  case (Suc n)
  show ?case
  proof (cases "length (cg_nodes g) \<le> length (dr_completed r)")
    case True
    with Suc.prems show ?thesis by (simp add: dag_loop.simps)
  next
    case False
    then obtain r1 where r1: "dag_round (\<lambda>_. unit_call) (\<lambda>_. node_call) w g r = Inr r1"
      "dag_loop (\<lambda>_. unit_call) (\<lambda>_. node_call) w g n r1 = Some (Inr r')"
      using Suc.prems(3) by (auto simp: dag_loop.simps [of _ _ w g "Suc n" r] split: sum.splits)
    have "dag_inv g r1"
      using dag_round_facts [OF assms(1) Suc.prems(1), of "\<lambda>_. unit_call" "\<lambda>_. node_call" w] False r1(1) by simp
    with Suc.IH round_outputs [OF assms(1) Suc.prems(1,2) r1(1)] r1(2) show ?thesis by blast
  qed
qed



end
