(* ===== verification/Harness_Run.thy ===== *)
theory Harness_Run
  imports Prelude
begin

text \<open>
  Harness runs of the document-authoring subsystem: the status contract of
  \<open>document_authoring/harness/state_machine.py\<close> and the run operations of \<open>DocumentAuthoringStore\<close>
  (\<open>document_authoring/work_order_store.py\<close>): create, claim, owned updates, heartbeat, pause and cancel
  requests, retries and the unconditional replacement.

  Each operation is one \<open>BEGIN IMMEDIATE\<close> transaction; a raised error rolls it back, so it returns the error
  and leaves the database as it was.  The clock is an argument.  Statuses are the strings of the code.  The
  payload of a run has many progress fields no operation here reads; they travel together as \<open>hr_progress\<close>.
\<close>

section \<open>The status contract\<close>

definition TRANSITIONS :: "(string \<times> string list) list" where
  "TRANSITIONS =
     [(''planned'', [''queued'', ''cancelled'']),
      (''queued'', [''running'', ''cancelled'']),
      (''running'', [''paused'', ''waiting_human'', ''failed'', ''completed'', ''cancelled'']),
      (''paused'', [''queued'', ''cancelled'']),
      (''waiting_human'', [''running'', ''failed'', ''cancelled'']),
      (''retrying'', [''queued'']),
      (''failed'', [''queued'', ''cancelled'']),
      (''completed'', []),
      (''cancelled'', [])]"

definition TERMINAL_STATES :: "string list" where
  "TERMINAL_STATES = [''completed'', ''cancelled'']"

datatype transition_error =
    ERROR_UNKNOWN_STATE | ERROR_TERMINAL_STATE | ERROR_RETRYING_NOT_TRANSIENT | ERROR_INVALID_TRANSITION

text \<open>\<open>None\<close> is the return, \<open>Some\<close> the code of the raised \<open>InvalidRunTransition\<close>.\<close>

definition validate_transition :: "string \<Rightarrow> string \<Rightarrow> bool \<Rightarrow> transition_error option" where
  "validate_transition current target lease_released =
     (case map_of TRANSITIONS current of
        None \<Rightarrow> Some ERROR_UNKNOWN_STATE
      | Some targets \<Rightarrow>
          if map_of TRANSITIONS target = None then Some ERROR_UNKNOWN_STATE
          else if current \<in> set TERMINAL_STATES then Some ERROR_TERMINAL_STATE
          else if target = ''retrying'' \<and> \<not> lease_released then Some ERROR_RETRYING_NOT_TRANSIENT
          else if target \<notin> set targets then Some ERROR_INVALID_TRANSITION
          else None)"

definition is_legal_transition :: "string \<Rightarrow> string \<Rightarrow> bool \<Rightarrow> bool" where
  "is_legal_transition current target lease_released \<longleftrightarrow> validate_transition current target lease_released = None"

section \<open>Rows\<close>

datatype event_expiry = No_expiry | Expires_at time | Unreadable_expiry

text \<open>The entries of the \<open>pending_human_event\<close> dictionary that are read.\<close>

record pending_event =
  pe_event_id :: string
  pe_proposal_hash :: string
  pe_expires_at :: event_expiry
  pe_field_id :: string

record harness_run =
  hr_id :: string
  hr_work_order :: string
  hr_status :: string
  hr_current_node :: string
  hr_retry_count :: int
  hr_max_retries :: int
  hr_lease_owner :: "string option"
  hr_token :: int
  hr_lease_expires :: "time option"
  hr_heartbeat :: "time option"
  hr_last_error_code :: "string option"
  hr_error :: "(string \<times> string) option"
  hr_tenant :: string
  hr_unit_statuses :: "(string \<times> string) list"
  hr_pending :: "pending_event option"
  hr_thread :: "string option"
  hr_progress :: string
  hr_created :: time
  hr_updated :: time

datatype harness_error =
    Run_not_found | Run_exists | Missing_work_order | Not_claimable string | Lease_active | Lease_lost
  | Bad_request string | Run_final string | Not_retryable string | Retries_exhausted | Bad_decision string
  | Wrong_tenant | Integrity_error | Receipt_not_found | Evidence_immutable | Lease_pair_required
  | Checkpoint_not_found

section \<open>Transactions on one run\<close>

text \<open>Read the row, decide, write it back.\<close>

definition with_run :: "string \<Rightarrow> (harness_run \<Rightarrow> harness_error + harness_run) \<Rightarrow> harness_run list
    \<Rightarrow> harness_error + harness_run \<times> harness_run list" where
  "with_run rid f runs =
     (case fetchone (\<lambda>r. hr_id r = rid) runs of
        None \<Rightarrow> Inl Run_not_found
      | Some current \<Rightarrow>
          (case f current of
             Inl e \<Rightarrow> Inl e
           | Inr new \<Rightarrow> Inr (new, update_where (\<lambda>r. hr_id r = rid) (\<lambda>_. new) runs)))"

definition create_harness_run :: "string list \<Rightarrow> harness_run \<Rightarrow> harness_run list \<Rightarrow> harness_error + harness_run \<times> harness_run list" where
  "create_harness_run orders run runs =
     (if hr_id run \<in> hr_id ` set runs then Inl Run_exists
      else if hr_work_order run \<notin> set orders then Inl Missing_work_order
      else Inr (run, runs @ [run]))"

definition get_harness_run :: "string \<Rightarrow> harness_run list \<Rightarrow> harness_run option" where
  "get_harness_run rid runs = fetchone (\<lambda>r. hr_id r = rid) runs"

definition list_harness_runs :: "string \<Rightarrow> harness_run list \<Rightarrow> harness_run list" where
  "list_harness_runs order runs = sort_key hr_created (filter (\<lambda>r. hr_work_order r = order) runs)"

definition replace_harness_run :: "harness_run \<Rightarrow> harness_run list \<Rightarrow> harness_error + harness_run \<times> harness_run list" where
  "replace_harness_run run = with_run (hr_id run) (\<lambda>_. Inr run)"

definition claim_harness_run :: "time \<Rightarrow> string \<Rightarrow> string \<Rightarrow> int \<Rightarrow> harness_run list \<Rightarrow> harness_error + harness_run \<times> harness_run list" where
  "claim_harness_run now rid owner lease_seconds =
     with_run rid (\<lambda>current.
       if hr_status current \<notin> {''planned'', ''queued'', ''retrying''} then Inl (Not_claimable (hr_status current))
       else if (case hr_lease_expires current of Some t \<Rightarrow> t > now | None \<Rightarrow> False) then Inl Lease_active
       else Inr (current\<lparr>hr_status := ''running'', hr_lease_owner := Some owner, hr_token := hr_token current + 1,
                         hr_lease_expires := Some (now + seconds lease_seconds), hr_heartbeat := Some now,
                         hr_updated := now, hr_error := None, hr_last_error_code := None\<rparr>))"

definition active_lease :: "harness_run \<Rightarrow> string \<Rightarrow> int \<Rightarrow> time \<Rightarrow> bool" where
  "active_lease run owner token now \<longleftrightarrow>
     hr_status run = ''running'' \<and> hr_lease_owner run = Some owner \<and> hr_token run = token
     \<and> (case hr_lease_expires run of None \<Rightarrow> False | Some t \<Rightarrow> \<not> t \<le> now)"

text \<open>The keyword arguments of \<open>update_harness_run_owned\<close>.\<close>

datatype run_update =
    U_status string | U_node string | U_owner "string option" | U_expires "time option" | U_heartbeat time
  | U_error "(string \<times> string) option" | U_error_code "string option" | U_units "(string \<times> string) list"
  | U_pending "pending_event option" | U_thread "string option" | U_progress string | U_token int

fun apply_update :: "run_update \<Rightarrow> harness_run \<Rightarrow> harness_run" where
  "apply_update (U_status s) r = r\<lparr>hr_status := s\<rparr>"
| "apply_update (U_node n) r = r\<lparr>hr_current_node := n\<rparr>"
| "apply_update (U_owner x) r = r\<lparr>hr_lease_owner := x\<rparr>"
| "apply_update (U_expires x) r = r\<lparr>hr_lease_expires := x\<rparr>"
| "apply_update (U_heartbeat t) r = r\<lparr>hr_heartbeat := Some t\<rparr>"
| "apply_update (U_error x) r = r\<lparr>hr_error := x\<rparr>"
| "apply_update (U_error_code x) r = r\<lparr>hr_last_error_code := x\<rparr>"
| "apply_update (U_units x) r = r\<lparr>hr_unit_statuses := x\<rparr>"
| "apply_update (U_pending x) r = r\<lparr>hr_pending := x\<rparr>"
| "apply_update (U_thread x) r = r\<lparr>hr_thread := x\<rparr>"
| "apply_update (U_progress x) r = r\<lparr>hr_progress := x\<rparr>"
| "apply_update (U_token x) r = r\<lparr>hr_token := x\<rparr>"

definition update_harness_run_owned :: "time \<Rightarrow> string \<Rightarrow> string \<Rightarrow> int \<Rightarrow> run_update list \<Rightarrow> harness_run list
    \<Rightarrow> harness_error + harness_run \<times> harness_run list" where
  "update_harness_run_owned now rid owner token updates =
     with_run rid (\<lambda>current.
       if \<not> active_lease current owner token now then Inl Lease_lost
       else Inr ((fold apply_update updates current)\<lparr>hr_updated := now\<rparr>))"

definition heartbeat_harness_run :: "time \<Rightarrow> string \<Rightarrow> string \<Rightarrow> int \<Rightarrow> int \<Rightarrow> harness_run list
    \<Rightarrow> harness_error + harness_run \<times> harness_run list" where
  "heartbeat_harness_run now rid owner token lease_seconds =
     update_harness_run_owned now rid owner token [U_heartbeat now, U_expires (Some (now + seconds lease_seconds))]"

definition request_harness_run_state :: "time \<Rightarrow> string \<Rightarrow> string \<Rightarrow> harness_run list \<Rightarrow> harness_error + harness_run \<times> harness_run list" where
  "request_harness_run_state now rid target runs =
     (if target \<notin> {''paused'', ''cancelled''} then Inl (Bad_request target)
      else with_run rid (\<lambda>current.
        if hr_status current \<in> {''completed'', ''cancelled''} then Inl (Run_final (hr_status current))
        else Inr (current\<lparr>hr_status := target, hr_lease_owner := None, hr_lease_expires := None,
                          hr_heartbeat := Some now, hr_token := hr_token current + 1, hr_updated := now\<rparr>)) runs)"

definition queue_harness_retry :: "time \<Rightarrow> string \<Rightarrow> int \<Rightarrow> harness_run list \<Rightarrow> harness_error + harness_run \<times> harness_run list" where
  "queue_harness_retry now rid max_retries =
     with_run rid (\<lambda>current.
       if hr_status current \<notin> {''failed'', ''paused''} then Inl (Not_retryable (hr_status current))
       else if hr_retry_count current \<ge> max_retries then Inl Retries_exhausted
       else Inr (current\<lparr>hr_status := ''retrying'', hr_retry_count := hr_retry_count current + 1,
                         hr_max_retries := max_retries, hr_lease_owner := None, hr_lease_expires := None,
                         hr_error := None, hr_last_error_code := None, hr_updated := now\<rparr>))"

end
