(* ===== verification/Harness_Ledger.thy ===== *)
theory Harness_Ledger
  imports Harness_Run "HOL-Library.AList"
begin

text \<open>
  What a harness run writes beside its row (\<open>DocumentAuthoringStore\<close> of \<open>document_authoring/work_order_store.py\<close>):
  execution events with run-scoped sequence numbers, node receipts, checkpoints, unit drafts and registered
  evidence, and \<open>resolve_harness_human_decision\<close>, which consumes a pending human decision.

  Writes of a worker are fenced by the run's lease.  The records hold the fields these operations read or write.  JSON payloads are texts; the hash behind an event key and
  the content hash are parameters, and so are the fresh identifiers \<open>uuid4\<close> returns.
\<close>

section \<open>Rows\<close>

record execution_event =
  ev_id :: string
  ev_type :: string
  ev_tenant :: string
  ev_work_order :: string
  ev_run :: string
  ev_key :: string
  ev_sequence :: int
  ev_attempt :: int
  ev_executor :: "string option"
  ev_node :: "string option"
  ev_field :: "string option"
  ev_unit :: "string option"
  ev_status :: string
  ev_error_code :: "string option"
  ev_payload :: "(string \<times> string) list"
  ev_at :: time

record node_receipt =
  nr_id :: string
  nr_run :: string
  nr_node :: string
  nr_unit :: string
  nr_fingerprint :: string
  nr_action_key :: string
  nr_attempt :: int
  nr_token :: int
  nr_status :: string
  nr_output_hash :: "string option"
  nr_output :: "string option"
  nr_error :: "string option"
  nr_committed_at :: "time option"

record evidence_entry =
  ee_id :: string
  ee_run :: string
  ee_content_hash :: string
  ee_registered_at :: time
  ee_binding :: string

record checkpoint =
  cp_id :: string
  cp_run :: string
  cp_work_order :: string
  cp_status :: string
  cp_updated_at :: time
  cp_progress :: string

record unit_draft =
  ud_work_order :: string
  ud_run :: string
  ud_unit :: string
  ud_payload :: string

record harness_db =
  hd_orders :: "string list"
  hd_runs :: "harness_run list"
  hd_events :: "execution_event list"
  hd_receipts :: "node_receipt list"
  hd_evidence :: "evidence_entry list"
  hd_checkpoints :: "checkpoint list"
  hd_drafts :: "unit_draft list"

section \<open>Execution events\<close>

text \<open>\<open>COALESCE(MAX(sequence), 0) + 1\<close> over the events of a run.\<close>

definition next_sequence :: "string \<Rightarrow> execution_event list \<Rightarrow> int" where
  "next_sequence rid events =
     (let seqs = map ev_sequence (filter (\<lambda>e. ev_run e = rid) events)
      in (if seqs = [] then 0 else Max (set seqs)) + 1)"

definition get_execution_event :: "string \<Rightarrow> string \<Rightarrow> harness_db \<Rightarrow> execution_event option" where
  "get_execution_event rid key db = fetchone (\<lambda>e. ev_run e = rid \<and> ev_key e = key) (hd_events db)"

text \<open>The insert, with the table's primary key and foreign key.\<close>

definition put_event :: "execution_event \<Rightarrow> harness_db \<Rightarrow> harness_error + execution_event \<times> harness_db" where
  "put_event event db =
     (let event' = event\<lparr>ev_sequence := next_sequence (ev_run event) (hd_events db)\<rparr> in
      if ev_id event' \<in> ev_id ` set (hd_events db) \<or> ev_run event' \<notin> hr_id ` set (hd_runs db) then Inl Integrity_error
      else Inr (event', db\<lparr>hd_events := hd_events db @ [event']\<rparr>))"

definition append_execution_event :: "execution_event \<Rightarrow> harness_db \<Rightarrow> harness_error + execution_event \<times> harness_db" where
  "append_execution_event event db =
     (case get_execution_event (ev_run event) (ev_key event) db of
        Some stored \<Rightarrow> Inr (stored, db)
      | None \<Rightarrow> put_event event db)"

definition list_execution_events :: "string \<Rightarrow> string option \<Rightarrow> string option \<Rightarrow> harness_db \<Rightarrow> execution_event list" where
  "list_execution_events rid tenant order db =
     sort_key ev_sequence (filter (\<lambda>e. ev_run e = rid \<and> (tenant = None \<or> tenant = Some (ev_tenant e))
       \<and> (order = None \<or> order = Some (ev_work_order e))) (hd_events db))"

section \<open>Human decisions\<close>

definition decided_run :: "time \<Rightarrow> bool \<Rightarrow> string \<Rightarrow> harness_run \<Rightarrow> harness_run" where
  "decided_run now approve field_id current =
     current\<lparr>hr_status := (if approve then ''retrying'' else ''failed''),
             hr_current_node := (if approve then ''agent_field_harness_resume'' else ''human_rejected''),
             hr_pending := None,
             hr_unit_statuses := (if field_id = [] then hr_unit_statuses current
                else AList.update (''field:'' @ field_id) (if approve then ''ready_to_render'' else ''requires_human'')
                       (hr_unit_statuses current)),
             hr_error := (if approve then None
                else Some (''HumanDecisionRejected'', ''agent proposal was rejected by a human reviewer'')),
             hr_last_error_code := (if approve then None else Some ''human_decision_rejected''),
             hr_updated := now\<rparr>"

definition decision_event :: "string \<Rightarrow> time \<Rightarrow> bool \<Rightarrow> string \<Rightarrow> string \<Rightarrow> string \<Rightarrow> string \<Rightarrow> string \<Rightarrow> harness_run \<Rightarrow> execution_event" where
  "decision_event fresh now approve field_id event_key pending_event_id proposal_hash actor current =
     \<lparr>ev_id = ''authoring-event-'' @ fresh, ev_type = ''human_resumed'', ev_tenant = hr_tenant current,
      ev_work_order = hr_work_order current, ev_run = hr_id current, ev_key = event_key, ev_sequence = 0,
      ev_attempt = max 1 (hr_retry_count current + 1), ev_executor = Some ''agent_field_harness'',
      ev_node = Some ''agent_field_harness'', ev_field = (if field_id = [] then None else Some field_id),
      ev_unit = (if field_id = [] then None else Some (''field:'' @ field_id)),
      ev_status = (if approve then ''resumed'' else ''rejected''),
      ev_error_code = (if approve then None else Some ''human_decision_rejected''),
      ev_payload = [(''decision'', if approve then ''approve'' else ''reject''), (''pending_event_id'', pending_event_id),
        (''proposal_hash'', proposal_hash), (''actor_id'', clip 200 actor),
        (''agent_thread_id'', clip 200 (case hr_thread current of Some t \<Rightarrow> t | None \<Rightarrow> []))],
      ev_at = now\<rparr>"

text \<open>The checks on the pending event, in the order of the code.\<close>

definition pending_problem :: "time \<Rightarrow> string option \<Rightarrow> string \<Rightarrow> string \<Rightarrow> harness_run \<Rightarrow> harness_error option" where
  "pending_problem now tenant pending_event_id proposal_hash current =
     (if (case tenant of None \<Rightarrow> False | Some t \<Rightarrow> hr_tenant current \<noteq> t) then Some Wrong_tenant
      else if hr_status current \<noteq> ''waiting_human'' then Some (Bad_decision ''not_waiting'')
      else case hr_pending current of
        None \<Rightarrow> Some (Bad_decision ''no_pending_event'')
      | Some p \<Rightarrow>
          if pe_event_id p \<noteq> pending_event_id then Some (Bad_decision ''event_mismatch'')
          else if pe_proposal_hash p \<noteq> proposal_hash then Some (Bad_decision ''hash_mismatch'')
          else (case pe_expires_at p of
                  No_expiry \<Rightarrow> None
                | Expires_at t \<Rightarrow> if t \<le> now then Some (Bad_decision ''expired'') else None
                | Unreadable_expiry \<Rightarrow> Some (Bad_decision ''expiry_invalid'')))"

definition resolve_harness_human_decision :: "(string \<Rightarrow> string \<Rightarrow> string) \<Rightarrow> string \<Rightarrow> time \<Rightarrow> string \<Rightarrow> string \<Rightarrow> string
    \<Rightarrow> string \<Rightarrow> string \<Rightarrow> string \<Rightarrow> string option \<Rightarrow> harness_db \<Rightarrow> harness_error + (harness_run \<times> execution_event) \<times> harness_db" where
  "resolve_harness_human_decision execution_event_key fresh now rid pending_event_id proposal_hash decision decision_key actor tenant db =
     (let normalized = py_lower (py_strip decision); event_key = execution_event_key decision_key ''human_resumed'' in
      if normalized \<notin> {''approve'', ''reject''} \<or> decision_key = [] then Inl (Bad_decision ''decision'')
      else case get_harness_run rid (hd_runs db) of
        None \<Rightarrow> Inl Run_not_found
      | Some current \<Rightarrow>
          (case get_execution_event rid event_key db of
             Some stored \<Rightarrow> Inr ((current, stored), db)
           | None \<Rightarrow>
               (case pending_problem now tenant pending_event_id proposal_hash current of
                  Some e \<Rightarrow> Inl e
                | None \<Rightarrow>
                    (let approve = (normalized = ''approve'');
                         field_id = (case hr_pending current of Some p \<Rightarrow> py_strip (pe_field_id p) | None \<Rightarrow> []);
                         updated = decided_run now approve field_id current;
                         db' = db\<lparr>hd_runs := update_where (\<lambda>r. hr_id r = rid) (\<lambda>_. updated) (hd_runs db)\<rparr>
                     in case put_event (decision_event fresh now approve field_id event_key pending_event_id proposal_hash actor current) db' of
                          Inl e \<Rightarrow> Inl e
                        | Inr (event, db'') \<Rightarrow> Inr ((updated, event), db'')))))"

section \<open>Fenced writes\<close>

text \<open>\<open>_get_run_for_update\<close> and \<open>_require_active_lease\<close> before the write.\<close>

definition fenced :: "time \<Rightarrow> string \<Rightarrow> string \<Rightarrow> int \<Rightarrow> (harness_db \<Rightarrow> harness_error + 'a \<times> harness_db) \<Rightarrow> harness_db
    \<Rightarrow> harness_error + 'a \<times> harness_db" where
  "fenced now rid owner token body db =
     (case get_harness_run rid (hd_runs db) of
        None \<Rightarrow> Inl Run_not_found
      | Some run \<Rightarrow> if active_lease run owner token now then body db else Inl Lease_lost)"

definition same_action :: "node_receipt \<Rightarrow> node_receipt \<Rightarrow> bool" where
  "same_action a b \<longleftrightarrow> nr_run a = nr_run b \<and> nr_node a = nr_node b \<and> nr_unit a = nr_unit b \<and> nr_fingerprint a = nr_fingerprint b"

definition begin_node_execution_owned :: "time \<Rightarrow> node_receipt \<Rightarrow> string \<Rightarrow> int \<Rightarrow> harness_db \<Rightarrow> harness_error + node_receipt \<times> harness_db" where
  "begin_node_execution_owned now receipt owner token =
     fenced now (nr_run receipt) owner token (\<lambda>db.
       case fetchone (same_action receipt) (hd_receipts db) of
         Some existing \<Rightarrow>
           if nr_status existing = ''committed'' then Inr (existing, db)
           else (let receipt' = existing\<lparr>nr_status := ''started'', nr_token := token, nr_error := None\<rparr>
                 in Inr (receipt', db\<lparr>hd_receipts := update_where (\<lambda>r. nr_id r = nr_id receipt') (\<lambda>_. receipt') (hd_receipts db)\<rparr>))
       | None \<Rightarrow>
           if nr_id receipt \<in> nr_id ` set (hd_receipts db) then Inl Integrity_error
           else Inr (receipt, db\<lparr>hd_receipts := hd_receipts db @ [receipt]\<rparr>))"

definition commit_node_execution_owned :: "(string \<Rightarrow> string) \<Rightarrow> time \<Rightarrow> string \<Rightarrow> string \<Rightarrow> string \<Rightarrow> int \<Rightarrow> string
    \<Rightarrow> harness_db \<Rightarrow> harness_error + node_receipt \<times> harness_db" where
  "commit_node_execution_owned content_hash now receipt_id rid owner token output_payload =
     fenced now rid owner token (\<lambda>db.
       case fetchone (\<lambda>r. nr_id r = receipt_id) (hd_receipts db) of
         None \<Rightarrow> Inl Receipt_not_found
       | Some current \<Rightarrow>
           if nr_status current = ''committed'' then Inr (current, db)
           else (let committed = current\<lparr>nr_status := ''committed'', nr_token := token, nr_output := Some output_payload,
                       nr_output_hash := Some (content_hash output_payload), nr_error := None, nr_committed_at := Some now\<rparr>
                 in Inr (committed, db\<lparr>hd_receipts := update_where (\<lambda>r. nr_id r = receipt_id) (\<lambda>_. committed) (hd_receipts db)\<rparr>)))"

definition fail_node_execution_owned :: "time \<Rightarrow> string \<Rightarrow> string \<Rightarrow> string \<Rightarrow> int \<Rightarrow> string \<Rightarrow> harness_db \<Rightarrow> harness_error + unit \<times> harness_db" where
  "fail_node_execution_owned now receipt_id rid owner token error =
     fenced now rid owner token (\<lambda>db.
       case fetchone (\<lambda>r. nr_id r = receipt_id) (hd_receipts db) of
         None \<Rightarrow> Inl Receipt_not_found
       | Some current \<Rightarrow>
           (let failed = current\<lparr>nr_status := ''failed'', nr_token := token, nr_error := Some error\<rparr>
            in Inr ((), db\<lparr>hd_receipts := update_where (\<lambda>r. nr_id r = receipt_id) (\<lambda>_. failed) (hd_receipts db)\<rparr>)))"

definition list_node_execution_receipts :: "string \<Rightarrow> string option \<Rightarrow> string option \<Rightarrow> harness_db \<Rightarrow> node_receipt list" where
  "list_node_execution_receipts rid node status db =
     filter (\<lambda>r. nr_run r = rid \<and> (node = None \<or> node = Some (nr_node r)) \<and> (status = None \<or> status = Some (nr_status r)))
       (hd_receipts db)"

definition save_harness_checkpoint_owned :: "time \<Rightarrow> checkpoint \<Rightarrow> string \<Rightarrow> int \<Rightarrow> harness_db \<Rightarrow> harness_error + checkpoint \<times> harness_db" where
  "save_harness_checkpoint_owned now cp owner token =
     fenced now (cp_run cp) owner token (\<lambda>db.
       if cp_id cp \<in> cp_id ` set (hd_checkpoints db)
       then Inr (cp, db\<lparr>hd_checkpoints := update_where (\<lambda>c. cp_id c = cp_id cp)
              (\<lambda>_. cp) (hd_checkpoints db)\<rparr>)
       else if cp_work_order cp \<notin> set (hd_orders db) then Inl Integrity_error
       else Inr (cp, db\<lparr>hd_checkpoints := hd_checkpoints db @ [cp]\<rparr>))"

definition finalize_harness_checkpoint :: "time \<Rightarrow> string \<Rightarrow> string \<Rightarrow> harness_db \<Rightarrow> harness_error + checkpoint \<times> harness_db" where
  "finalize_harness_checkpoint now cid status db =
     (if status \<notin> {''paused'', ''waiting_human'', ''failed'', ''completed'', ''cancelled''} then Inl (Bad_request status)
      else case fetchone (\<lambda>c. cp_id c = cid) (hd_checkpoints db) of
        None \<Rightarrow> Inl Checkpoint_not_found
      | Some c \<Rightarrow>
          (let c' = c\<lparr>cp_status := status, cp_updated_at := now\<rparr>
           in Inr (c', db\<lparr>hd_checkpoints := update_where (\<lambda>c. cp_id c = cid) (\<lambda>_. c') (hd_checkpoints db)\<rparr>)))"

fun upsert_drafts :: "unit_draft list \<Rightarrow> unit_draft list \<Rightarrow> unit_draft list" where
  "upsert_drafts [] table = table"
| "upsert_drafts (d # ds) table =
     upsert_drafts ds
       (if \<exists>r \<in> set table. ud_run r = ud_run d \<and> ud_unit r = ud_unit d
        then update_where (\<lambda>r. ud_run r = ud_run d \<and> ud_unit r = ud_unit d) (\<lambda>r. r\<lparr>ud_payload := ud_payload d\<rparr>) table
        else table @ [d])"

text \<open>The drafts carry the work order and the run they are saved for; a new row needs both to exist.\<close>

definition put_drafts :: "unit_draft list \<Rightarrow> harness_db \<Rightarrow> harness_error + unit \<times> harness_db" where
  "put_drafts drafts db =
     (if \<exists>d \<in> set drafts. (\<forall>r \<in> set (hd_drafts db). \<not> (ud_run r = ud_run d \<and> ud_unit r = ud_unit d))
           \<and> (ud_work_order d \<notin> set (hd_orders db) \<or> ud_run d \<notin> hr_id ` set (hd_runs db))
      then Inl Integrity_error
      else Inr ((), db\<lparr>hd_drafts := upsert_drafts drafts (hd_drafts db)\<rparr>))"

definition save_unit_drafts :: "time \<Rightarrow> string \<Rightarrow> string \<Rightarrow> (string \<times> string) list \<Rightarrow> string option \<Rightarrow> int option \<Rightarrow> harness_db
    \<Rightarrow> harness_error + unit \<times> harness_db" where
  "save_unit_drafts now order rid drafts owner token db =
     (let put = put_drafts (map (\<lambda>(u, payload). \<lparr>ud_work_order = order, ud_run = rid, ud_unit = u, ud_payload = payload\<rparr>) drafts) in
      case (owner, token) of
        (None, None) \<Rightarrow> put db
      | (Some o', Some k) \<Rightarrow> if o' = [] then Inl Lease_pair_required else fenced now rid o' k put db
      | _ \<Rightarrow> Inl Lease_pair_required)"

section \<open>Evidence\<close>

definition register_evidence :: "evidence_entry \<Rightarrow> harness_db \<Rightarrow> harness_error + evidence_entry \<times> harness_db" where
  "register_evidence entry db =
     (case fetchone (\<lambda>e. ee_run e = ee_run entry \<and> ee_id e = ee_id entry) (hd_evidence db) of
        Some stored \<Rightarrow> if ee_content_hash stored \<noteq> ee_content_hash entry then Inl Evidence_immutable else Inr (stored, db)
      | None \<Rightarrow> Inr (entry, db\<lparr>hd_evidence := hd_evidence db @ [entry]\<rparr>))"

definition list_evidence_entries :: "string \<Rightarrow> harness_db \<Rightarrow> evidence_entry list" where
  "list_evidence_entries rid db = sort_key ee_registered_at (filter (\<lambda>e. ee_run e = rid) (hd_evidence db))"

section \<open>Histories\<close>

definition on_runs :: "(harness_run list \<Rightarrow> harness_error + harness_run \<times> harness_run list) \<Rightarrow> harness_db
    \<Rightarrow> harness_error + harness_run \<times> harness_db" where
  "on_runs f db = (case f (hd_runs db) of Inl e \<Rightarrow> Inl e | Inr (r, runs) \<Rightarrow> Inr (r, db\<lparr>hd_runs := runs\<rparr>))"

text \<open>The database after a call: unchanged when it raised.\<close>

definition db_after :: "harness_error + 'a \<times> harness_db \<Rightarrow> harness_db \<Rightarrow> harness_db" where
  "db_after res db = (case res of Inl e \<Rightarrow> db | Inr (x, db') \<Rightarrow> db')"

datatype harness_op =
    Op_create harness_run
  | Op_claim time string string int
  | Op_update time string string int "run_update list"
  | Op_heartbeat time string string int int
  | Op_request time string string
  | Op_retry time string int
  | Op_decide string time string string string string string string "string option"
  | Op_event execution_event
  | Op_begin time node_receipt string int
  | Op_commit time string string string int string
  | Op_fail time string string string int string
  | Op_checkpoint time checkpoint string int
  | Op_finalize time string string
  | Op_drafts time string string "(string \<times> string) list" "string option" "int option"
  | Op_evidence evidence_entry

fun harness_step :: "(string \<Rightarrow> string \<Rightarrow> string) \<Rightarrow> (string \<Rightarrow> string) \<Rightarrow> harness_db \<Rightarrow> harness_op \<Rightarrow> harness_db" where
  "harness_step ek ch db (Op_create run) = db_after (on_runs (create_harness_run (hd_orders db) run) db) db"
| "harness_step ek ch db (Op_claim now rid owner secs) = db_after (on_runs (claim_harness_run now rid owner secs) db) db"
| "harness_step ek ch db (Op_update now rid owner k ups) = db_after (on_runs (update_harness_run_owned now rid owner k ups) db) db"
| "harness_step ek ch db (Op_heartbeat now rid owner k secs) = db_after (on_runs (heartbeat_harness_run now rid owner k secs) db) db"
| "harness_step ek ch db (Op_request now rid target) = db_after (on_runs (request_harness_run_state now rid target) db) db"
| "harness_step ek ch db (Op_retry now rid m) = db_after (on_runs (queue_harness_retry now rid m) db) db"
| "harness_step ek ch db (Op_decide fresh now rid pe ph dec dk actor tenant) =
     db_after (resolve_harness_human_decision ek fresh now rid pe ph dec dk actor tenant db) db"
| "harness_step ek ch db (Op_event e) = db_after (append_execution_event e db) db"
| "harness_step ek ch db (Op_begin now receipt owner k) = db_after (begin_node_execution_owned now receipt owner k db) db"
| "harness_step ek ch db (Op_commit now i rid owner k out) = db_after (commit_node_execution_owned ch now i rid owner k out db) db"
| "harness_step ek ch db (Op_fail now i rid owner k err) = db_after (fail_node_execution_owned now i rid owner k err db) db"
| "harness_step ek ch db (Op_checkpoint now cp owner k) = db_after (save_harness_checkpoint_owned now cp owner k db) db"
| "harness_step ek ch db (Op_finalize now cid status) = db_after (finalize_harness_checkpoint now cid status db) db"
| "harness_step ek ch db (Op_drafts now order rid ds owner k) = db_after (save_unit_drafts now order rid ds owner k db) db"
| "harness_step ek ch db (Op_evidence e) = db_after (register_evidence e db) db"

section \<open>How operations change runs\<close>

lemma get_update_same:
  assumes "get_harness_run rid runs = Some cur" "hr_id new = rid"
  shows "get_harness_run x (update_where (\<lambda>r. hr_id r = rid) (\<lambda>_. new) runs) = (if x = rid then Some new else get_harness_run x runs)"
proof (cases "x = rid")
  case True
  with assms show ?thesis by (induction runs) (auto simp: get_harness_run_def split: if_splits)
next
  case False
  with assms(2) have "get_harness_run x (update_where (\<lambda>r. hr_id r = rid) (\<lambda>_. new) runs) = get_harness_run x runs"
    by (induction runs) (auto simp: get_harness_run_def)
  with False show ?thesis by simp
qed

lemma get_idD: "get_harness_run rid runs = Some r \<Longrightarrow> hr_id r = rid"
  by (auto simp: get_harness_run_def dest: fetchone_SomeD)

lemma with_runD:
  assumes "with_run rid f runs = Inr (new, runs')"
  obtains cur where "get_harness_run rid runs = Some cur" "f cur = Inr new"
    "runs' = update_where (\<lambda>r. hr_id r = rid) (\<lambda>_. new) runs"
  using assms by (auto simp: with_run_def get_harness_run_def split: option.splits sum.splits)

text \<open>A relation between the old and the new state of each row that every operation keeps.\<close>

definition rows_related :: "(harness_run \<Rightarrow> harness_run \<Rightarrow> bool) \<Rightarrow> harness_db \<Rightarrow> harness_db \<Rightarrow> bool" where
  "rows_related R db db' \<longleftrightarrow>
     (\<forall>rid r. get_harness_run rid (hd_runs db) = Some r \<longrightarrow> (\<exists>r'. get_harness_run rid (hd_runs db') = Some r' \<and> R r r'))"

lemma rows_related_same: "(\<And>r. R r r) \<Longrightarrow> hd_runs db' = hd_runs db \<Longrightarrow> rows_related R db db'"
  by (simp add: rows_related_def)

lemma rows_related_with_run:
  assumes "\<And>r. R r r" "\<And>cur new. f cur = Inr new \<Longrightarrow> hr_id new = hr_id cur \<and> R cur new"
  shows "rows_related R db (db_after (on_runs (with_run rid f) db) db)"
proof (cases "with_run rid f (hd_runs db)")
  case (Inl e)
  with assms(1) show ?thesis by (simp add: rows_related_def on_runs_def db_after_def)
next
  case (Inr p)
  obtain new runs' where p: "p = (new, runs')" by fastforce
  with Inr obtain cur where cur: "get_harness_run rid (hd_runs db) = Some cur" "f cur = Inr new"
    "runs' = update_where (\<lambda>r. hr_id r = rid) (\<lambda>_. new) (hd_runs db)"
    by (auto elim: with_runD)
  have "hr_id new = rid" using assms(2) [OF cur(2)] get_idD [OF cur(1)] by simp
  with Inr p cur assms show ?thesis
    by (auto simp: rows_related_def on_runs_def db_after_def get_update_same [OF cur(1)])
qed

lemma apply_updates_id: "hr_id (fold apply_update ups r) = hr_id r"
proof (induction ups arbitrary: r)
  case (Cons u ups)
  then show ?case by (cases u) auto
qed simp

text \<open>Owned updates of the runtime never set the fencing token themselves.\<close>

fun keeps_token :: "harness_op \<Rightarrow> bool" where
  "keeps_token (Op_update now rid owner k ups) = (\<forall>u \<in> set ups. case u of U_token t \<Rightarrow> False | _ \<Rightarrow> True)"
| "keeps_token _ = True"

lemma apply_updates_token:
  "(\<forall>u \<in> set ups. case u of U_token t \<Rightarrow> False | _ \<Rightarrow> True) \<Longrightarrow> hr_token (fold apply_update ups r) = hr_token r"
proof (induction ups arbitrary: r)
  case (Cons u ups)
  then show ?case by (cases u) auto
qed simp

abbreviation final_status :: "string \<Rightarrow> bool" where
  "final_status s \<equiv> s \<in> {''completed'', ''cancelled''}"

definition row_step :: "harness_op \<Rightarrow> harness_run \<Rightarrow> harness_run \<Rightarrow> bool" where
  "row_step op r r' \<longleftrightarrow> (keeps_token op \<longrightarrow> hr_token r \<le> hr_token r') \<and> (final_status (hr_status r) \<longrightarrow> r' = r)"

lemma row_step_refl: "row_step op r r"
  by (simp add: row_step_def)

lemma create_rows: "rows_related (row_step op) db (db_after (on_runs (create_harness_run (hd_orders db) run) db) db)"
proof -
  have "get_harness_run rid (hd_runs db @ [run]) = Some r" if "get_harness_run rid (hd_runs db) = Some r" for rid r
    using that by (simp add: get_harness_run_def fetchone_append)
  then show ?thesis
    using row_step_refl by (auto simp: rows_related_def on_runs_def create_harness_run_def db_after_def)
qed

lemma fenced_runs:
  assumes "\<And>db res. body db = Inr res \<Longrightarrow> hd_runs (snd res) = hd_runs db"
  shows "hd_runs (db_after (fenced now rid owner k body db) db) = hd_runs db"
  using assms by (auto simp: fenced_def db_after_def split: option.splits if_splits sum.splits)

lemma put_event_runs: "put_event e db = Inr (e', db') \<Longrightarrow> hd_runs db' = hd_runs db"
  by (auto simp: put_event_def Let_def split: if_splits)

lemma decide_rows:
  "rows_related (row_step op) db (db_after (resolve_harness_human_decision ek fresh now rid pe ph dec dk actor tenant db) db)"
proof (cases "resolve_harness_human_decision ek fresh now rid pe ph dec dk actor tenant db")
  case (Inl e)
  then show ?thesis by (simp add: rows_related_same row_step_refl db_after_def)
next
  case (Inr p)
  obtain run ev db' where p: "p = ((run, ev), db')" by (metis prod.collapse)
  obtain cur where cur: "get_harness_run rid (hd_runs db) = Some cur"
    using Inr by (auto simp: resolve_harness_human_decision_def Let_def split: if_splits option.splits)
  show ?thesis
  proof (cases "get_execution_event rid (ek dk ''human_resumed'') db")
    case (Some stored)
    then have "db' = db" using Inr p cur by (auto simp: resolve_harness_human_decision_def Let_def split: if_splits)
    with Inr p show ?thesis by (simp add: rows_related_same row_step_refl db_after_def)
  next
    case None
    have ok: "pending_problem now tenant pe ph cur = None"
      using Inr p cur None by (auto simp: resolve_harness_human_decision_def Let_def split: if_splits option.splits)
    then have waiting: "hr_status cur = ''waiting_human''" by (auto simp: pending_problem_def split: if_splits)
    obtain approve fid where db': "hd_runs db' = update_where (\<lambda>r. hr_id r = rid) (\<lambda>_. decided_run now approve fid cur) (hd_runs db)"
      using Inr p cur None ok
      by (auto simp: resolve_harness_human_decision_def Let_def split: if_splits option.splits sum.splits dest!: put_event_runs)
    have "hr_id (decided_run now approve fid cur) = rid" using get_idD [OF cur] by (simp add: decided_run_def)
    moreover have "row_step op cur (decided_run now approve fid cur)" using waiting by (simp add: row_step_def decided_run_def)
    ultimately show ?thesis
      using Inr p cur by (auto simp: rows_related_def db_after_def db' get_update_same [OF cur] row_step_refl)
  qed
qed

lemma claim_rows: "rows_related (row_step op) db (db_after (on_runs (claim_harness_run now rid owner secs) db) db)"
  unfolding claim_harness_run_def
  by (rule rows_related_with_run) (auto simp: row_step_def split: if_splits)

lemma update_rows: "rows_related (row_step (Op_update now rid owner k ups)) db (db_after (on_runs (update_harness_run_owned now rid owner k ups) db) db)"
  unfolding update_harness_run_owned_def
  by (rule rows_related_with_run)
    (auto simp: row_step_def active_lease_def apply_updates_id apply_updates_token split: if_splits)

lemma heartbeat_rows: "rows_related (row_step op) db (db_after (on_runs (heartbeat_harness_run now rid owner k secs) db) db)"
  unfolding heartbeat_harness_run_def update_harness_run_owned_def
  by (rule rows_related_with_run) (auto simp: row_step_def active_lease_def split: if_splits)

lemma retry_rows: "rows_related (row_step op) db (db_after (on_runs (queue_harness_retry now rid m) db) db)"
  unfolding queue_harness_retry_def by (rule rows_related_with_run) (auto simp: row_step_def split: if_splits)

lemma request_rows: "rows_related (row_step op) db (db_after (on_runs (request_harness_run_state now rid target) db) db)"
proof (cases "target \<in> {''paused'', ''cancelled''}")
  case True
  then have "request_harness_run_state now rid target = with_run rid (\<lambda>current.
        if hr_status current \<in> {''completed'', ''cancelled''} then Inl (Run_final (hr_status current))
        else Inr (current\<lparr>hr_status := target, hr_lease_owner := None, hr_lease_expires := None,
                          hr_heartbeat := Some now, hr_token := hr_token current + 1, hr_updated := now\<rparr>))"
    by (auto simp: request_harness_run_state_def fun_eq_iff)
  then show ?thesis by (simp only:) (rule rows_related_with_run, auto simp: row_step_def split: if_splits)
next
  case False
  then show ?thesis by (simp add: request_harness_run_state_def on_runs_def db_after_def rows_related_same row_step_refl)
qed



lemma other_tables:
  "hd_runs (db_after (append_execution_event e db) db) = hd_runs db"
  "hd_runs (db_after (begin_node_execution_owned now receipt owner k db) db) = hd_runs db"
  "hd_runs (db_after (commit_node_execution_owned ch now i rid owner k out db) db) = hd_runs db"
  "hd_runs (db_after (fail_node_execution_owned now i rid owner k err db) db) = hd_runs db"
  "hd_runs (db_after (save_harness_checkpoint_owned now cp owner k db) db) = hd_runs db"
proof -
  show "hd_runs (db_after (append_execution_event e db) db) = hd_runs db"
    by (auto simp: append_execution_event_def db_after_def split: option.splits sum.splits dest: put_event_runs)
  show "hd_runs (db_after (begin_node_execution_owned now receipt owner k db) db) = hd_runs db"
    by (auto simp: begin_node_execution_owned_def Let_def intro!: fenced_runs split: option.splits if_splits)
  show "hd_runs (db_after (commit_node_execution_owned ch now i rid owner k out db) db) = hd_runs db"
    by (auto simp: commit_node_execution_owned_def Let_def intro!: fenced_runs split: option.splits if_splits)
  show "hd_runs (db_after (fail_node_execution_owned now i rid owner k err db) db) = hd_runs db"
    by (auto simp: fail_node_execution_owned_def Let_def intro!: fenced_runs split: option.splits if_splits)
  show "hd_runs (db_after (save_harness_checkpoint_owned now cp owner k db) db) = hd_runs db"
    by (auto simp: save_harness_checkpoint_owned_def intro!: fenced_runs split: if_splits)
qed

lemma other_tables_unfenced:
  "hd_runs (db_after (finalize_harness_checkpoint now cid status db) db) = hd_runs db"
  "hd_runs (db_after (register_evidence en db) db) = hd_runs db"
  by (auto simp: finalize_harness_checkpoint_def register_evidence_def Let_def db_after_def split: option.splits if_splits)

lemma drafts_runs: "hd_runs (db_after (save_unit_drafts now order rid ds owner k db) db) = hd_runs db"
  by (cases owner; cases k)
    (auto simp: save_unit_drafts_def Let_def put_drafts_def db_after_def fenced_def split: option.splits if_splits)

lemma harness_step_rows: "rows_related (row_step op) db (harness_step ek ch db op)"
  by (cases op)
    (simp_all add: create_rows claim_rows update_rows heartbeat_rows request_rows retry_rows decide_rows
      rows_related_same row_step_refl other_tables other_tables_unfenced drafts_runs)

section \<open>Fencing\<close>

abbreviation run_ops :: "(string \<Rightarrow> string \<Rightarrow> string) \<Rightarrow> (string \<Rightarrow> string) \<Rightarrow> harness_op list \<Rightarrow> harness_db \<Rightarrow> harness_db" where
  "run_ops ek ch ops db \<equiv> foldl (harness_step ek ch) db ops"

lemma run_ops_rows:
  assumes "\<forall>op \<in> set ops. keeps_token op" "get_harness_run rid (hd_runs db) = Some r"
  shows "\<exists>r'. get_harness_run rid (hd_runs (run_ops ek ch ops db)) = Some r' \<and> hr_token r \<le> hr_token r'
    \<and> (final_status (hr_status r) \<longrightarrow> r' = r)"
  using assms
proof (induction ops arbitrary: db r)
  case (Cons op ops)
  obtain r1 where r1: "get_harness_run rid (hd_runs (harness_step ek ch db op)) = Some r1" "row_step op r r1"
    using harness_step_rows [of op db ek ch] Cons.prems(2) by (auto simp: rows_related_def)
  from Cons.IH [OF _ r1(1)] Cons.prems(1) r1(2) show ?case by (fastforce simp: row_step_def)
qed simp

text \<open>A run is taken from its worker by a claim, a pause or a cancellation that succeeds.\<close>

definition takes_over :: "string \<Rightarrow> harness_op \<Rightarrow> harness_db \<Rightarrow> bool" where
  "takes_over rid op db \<longleftrightarrow>
     (case op of
        Op_claim now r owner secs \<Rightarrow> r = rid \<and> (case claim_harness_run now r owner secs (hd_runs db) of Inr _ \<Rightarrow> True | Inl _ \<Rightarrow> False)
      | Op_request now r target \<Rightarrow> r = rid \<and> (case request_harness_run_state now r target (hd_runs db) of Inr _ \<Rightarrow> True | Inl _ \<Rightarrow> False)
      | _ \<Rightarrow> False)"

lemma with_run_next:
  assumes "with_run rid f runs = Inr (new, runs')" "get_harness_run rid runs = Some r" "hr_id new = rid"
  shows "f r = Inr new" "get_harness_run rid runs' = Some new"
  using assms get_update_same [of rid runs r new rid]
  by (auto simp: with_run_def get_harness_run_def split: option.splits sum.splits)

lemma takes_over_token:
  assumes "takes_over rid op db" "get_harness_run rid (hd_runs db) = Some r"
  shows "\<exists>r'. get_harness_run rid (hd_runs (harness_step ek ch db op)) = Some r' \<and> hr_token r < hr_token r'"
proof -
  have step: "\<exists>r'. get_harness_run rid (hd_runs (db_after (on_runs (with_run rid f) db) db)) = Some r' \<and> hr_token r < hr_token r'"
    if w: "with_run rid f (hd_runs db) = Inr p" and f: "\<And>cur new. f cur = Inr new \<Longrightarrow> hr_id new = hr_id cur \<and> hr_token cur < hr_token new"
    for f p
  proof -
    obtain new runs' where p: "p = (new, runs')" by fastforce
    have fr: "f r = Inr new" using w p assms(2) by (auto elim!: with_runD)
    then have "hr_id new = rid" using f get_idD [OF assms(2)] by auto
    with with_run_next [OF _ assms(2), of f new runs'] w p f [OF fr] show ?thesis by (simp add: on_runs_def db_after_def)
  qed
  consider (claim) now owner secs p where "op = Op_claim now rid owner secs" "claim_harness_run now rid owner secs (hd_runs db) = Inr p"
    | (request) now target p where "op = Op_request now rid target" "request_harness_run_state now rid target (hd_runs db) = Inr p"
    using assms(1) by (cases op) (simp_all add: takes_over_def split: sum.splits)
  then show ?thesis
  proof cases
    case claim
    have "\<exists>r'. get_harness_run rid (hd_runs (db_after (on_runs (claim_harness_run now rid owner secs) db) db)) = Some r'
        \<and> hr_token r < hr_token r'"
      unfolding claim_harness_run_def by (rule step [OF claim(2) [unfolded claim_harness_run_def]]) (auto split: if_splits)
    then show ?thesis by (simp add: claim(1))
  next
    case request
    let ?f = "\<lambda>current. if hr_status current \<in> {''completed'', ''cancelled''} then Inl (Run_final (hr_status current))
        else Inr (current\<lparr>hr_status := target, hr_lease_owner := None, hr_lease_expires := None,
                          hr_heartbeat := Some now, hr_token := hr_token current + 1, hr_updated := now\<rparr>)"
    have eq: "request_harness_run_state now rid target = with_run rid ?f"
      using request(2) by (auto simp: request_harness_run_state_def fun_eq_iff split: if_splits)
    have "\<exists>r'. get_harness_run rid (hd_runs (db_after (on_runs (with_run rid ?f) db) db)) = Some r' \<and> hr_token r < hr_token r'"
      by (rule step [OF request(2) [unfolded eq]]) (auto split: if_splits)
    then show ?thesis by (simp add: request(1) eq)
  qed
qed


definition demo_run :: harness_run where
  "demo_run =
     \<lparr>hr_id = ''r'', hr_work_order = ''o'', hr_status = ''running'', hr_current_node = ''n'', hr_retry_count = 0, hr_max_retries = 0,
      hr_lease_owner = Some ''w1'', hr_token = 1, hr_lease_expires = Some (seconds 60), hr_heartbeat = Some 0,
      hr_last_error_code = None, hr_error = None, hr_tenant = ''t'', hr_unit_statuses = [],
      hr_pending = Some \<lparr>pe_event_id = ''e'', pe_proposal_hash = ''h'', pe_expires_at = No_expiry, pe_field_id = ''f''\<rparr>,
      hr_thread = None, hr_progress = [], hr_created = 0, hr_updated = 0\<rparr>"

definition demo_db :: "harness_run \<Rightarrow> harness_db" where
  "demo_db run = \<lparr>hd_orders = [''o''], hd_runs = [run], hd_events = [], hd_receipts = [], hd_evidence = [],
                  hd_checkpoints = [], hd_drafts = []\<rparr>"

definition demo_receipt :: node_receipt where
  "demo_receipt = \<lparr>nr_id = ''n1'', nr_run = ''r'', nr_node = ''unit'', nr_unit = ''u'', nr_fingerprint = ''fp'', nr_action_key = ''k'',
     nr_attempt = 1, nr_token = 1, nr_status = ''started'', nr_output_hash = None, nr_output = None, nr_error = None,
     nr_committed_at = None\<rparr>"


section \<open>The event log\<close>

definition run_events :: "string \<Rightarrow> harness_db \<Rightarrow> execution_event list" where
  "run_events rid db = filter (\<lambda>e. ev_run e = rid) (hd_events db)"

definition events_dense :: "harness_db \<Rightarrow> bool" where
  "events_dense db \<longleftrightarrow>
     (\<forall>rid. map ev_sequence (run_events rid db) = [1..int (length (run_events rid db))]
        \<and> distinct (map ev_key (run_events rid db)))"

lemma next_sequence_dense:
  assumes "events_dense db"
  shows "next_sequence rid (hd_events db) = int (length (run_events rid db)) + 1"
proof -
  have "map ev_sequence (run_events rid db) = [1..int (length (run_events rid db))]"
    using assms by (simp add: events_dense_def)
  then show ?thesis
    by (cases "run_events rid db = []") (auto simp: next_sequence_def Let_def run_events_def Suc_le_eq intro!: Max_eqI)
qed

lemma put_event_dense:
  assumes "events_dense db" "put_event e db = Inr (e', db')" "get_execution_event (ev_run e) (ev_key e) db = None"
  shows "events_dense db'" "hd_events db' = hd_events db @ [e']" "ev_key e' = ev_key e" "ev_run e' = ev_run e"
proof -
  have e': "e' = e\<lparr>ev_sequence := int (length (run_events (ev_run e) db)) + 1\<rparr>" and db': "db' = db\<lparr>hd_events := hd_events db @ [e']\<rparr>"
    using assms(2) next_sequence_dense [OF assms(1), of "ev_run e"] by (auto simp: put_event_def Let_def split: if_splits)
  show "hd_events db' = hd_events db @ [e']" "ev_key e' = ev_key e" "ev_run e' = ev_run e" by (simp_all add: db' e')
  have "ev_key e \<notin> ev_key ` set (run_events (ev_run e) db)"
    using assms(3) by (auto simp: get_execution_event_def fetchone_None_iff run_events_def)
  then show "events_dense db'"
    using assms(1) by (auto simp: events_dense_def run_events_def db' e' upto_rec2)
qed

lemma events_same: "hd_events db' = hd_events db \<Longrightarrow> events_dense db' = events_dense db"
  by (simp add: events_dense_def run_events_def)

definition log_grows :: "harness_db \<Rightarrow> harness_db \<Rightarrow> bool" where
  "log_grows db db' \<longleftrightarrow> (events_dense db \<longrightarrow> events_dense db' \<and> (\<exists>es. hd_events db' = hd_events db @ es))"

lemma log_grows_same: "hd_events db' = hd_events db \<Longrightarrow> log_grows db db'"
  using events_same [of db' db] by (simp add: log_grows_def)

lemma append_event_grows: "log_grows db (db_after (append_execution_event e db) db)"
proof (cases "get_execution_event (ev_run e) (ev_key e) db")
  case None
  show ?thesis
  proof (cases "put_event e db")
    case (Inl err)
    with None show ?thesis by (simp add: append_execution_event_def db_after_def log_grows_same)
  next
    case (Inr p)
    obtain e' db' where p: "p = (e', db')" by fastforce
    have "events_dense db \<Longrightarrow> events_dense db' \<and> hd_events db' = hd_events db @ [e']"
      using put_event_dense(1,2) [OF _ Inr [unfolded p] None] by blast
    with None Inr p show ?thesis by (simp add: append_execution_event_def db_after_def log_grows_def)
  qed
next
  case (Some stored)
  then show ?thesis by (simp add: append_execution_event_def db_after_def log_grows_same)
qed

lemma decide_grows:
  "log_grows db (db_after (resolve_harness_human_decision ek fresh now rid pe ph dec dk actor tenant db) db)"
proof (cases "resolve_harness_human_decision ek fresh now rid pe ph dec dk actor tenant db")
  case (Inr p)
  obtain run ev db' where p: "p = ((run, ev), db')" by (metis prod.collapse)
  obtain cur where cur: "get_harness_run rid (hd_runs db) = Some cur"
    using Inr by (auto simp: resolve_harness_human_decision_def Let_def split: if_splits option.splits)
  show ?thesis
  proof (cases "get_execution_event rid (ek dk ''human_resumed'') db")
    case (Some stored)
    then have "db' = db" using Inr p cur by (auto simp: resolve_harness_human_decision_def Let_def split: if_splits)
    with Inr p show ?thesis by (simp add: db_after_def log_grows_same)
  next
    case None
    obtain approve fid runs where put: "put_event (decision_event fresh now approve fid (ek dk ''human_resumed'') pe ph actor cur)
        (db\<lparr>hd_runs := runs\<rparr>) = Inr (ev, db')"
      using Inr p cur None
      by (auto simp: resolve_harness_human_decision_def Let_def split: if_splits option.splits sum.splits)
    have run: "ev_run (decision_event fresh now approve fid (ek dk ''human_resumed'') pe ph actor cur) = rid"
      "ev_key (decision_event fresh now approve fid (ek dk ''human_resumed'') pe ph actor cur) = ek dk ''human_resumed''"
      using get_idD [OF cur] by (simp_all add: decision_event_def)
    have "get_execution_event rid (ek dk ''human_resumed'') (db\<lparr>hd_runs := runs\<rparr>) = None"
      using None by (simp add: get_execution_event_def)
    then have "events_dense (db\<lparr>hd_runs := runs\<rparr>) \<Longrightarrow> events_dense db' \<and> (\<exists>es. hd_events db' = hd_events db @ es)"
      using put_event_dense [OF _ put] run by auto
    then show ?thesis
      using Inr p events_same [of "db\<lparr>hd_runs := runs\<rparr>" db] by (simp add: log_grows_def db_after_def)
  qed
qed (simp add: db_after_def log_grows_same)

lemma fenced_events:
  assumes "\<And>db res. body db = Inr res \<Longrightarrow> hd_events (snd res) = hd_events db"
  shows "hd_events (db_after (fenced now rid owner k body db) db) = hd_events db"
  using assms by (auto simp: fenced_def db_after_def split: option.splits if_splits sum.splits)

lemma runs_events: "hd_events (db_after (on_runs f db) db) = hd_events db"
  by (auto simp: on_runs_def db_after_def split: sum.splits)

lemma other_events:
  "hd_events (db_after (begin_node_execution_owned now receipt owner k db) db) = hd_events db"
  "hd_events (db_after (commit_node_execution_owned ch now i rid owner k out db) db) = hd_events db"
  "hd_events (db_after (fail_node_execution_owned now i rid owner k err db) db) = hd_events db"
  "hd_events (db_after (save_harness_checkpoint_owned now cp owner k db) db) = hd_events db"
proof -
  show "hd_events (db_after (begin_node_execution_owned now receipt owner k db) db) = hd_events db"
    by (auto simp: begin_node_execution_owned_def Let_def intro!: fenced_events split: option.splits if_splits)
  show "hd_events (db_after (commit_node_execution_owned ch now i rid owner k out db) db) = hd_events db"
    by (auto simp: commit_node_execution_owned_def Let_def intro!: fenced_events split: option.splits if_splits)
  show "hd_events (db_after (fail_node_execution_owned now i rid owner k err db) db) = hd_events db"
    by (auto simp: fail_node_execution_owned_def Let_def intro!: fenced_events split: option.splits if_splits)
  show "hd_events (db_after (save_harness_checkpoint_owned now cp owner k db) db) = hd_events db"
    by (auto simp: save_harness_checkpoint_owned_def intro!: fenced_events split: if_splits)
qed

lemma other_events_unfenced:
  "hd_events (db_after (finalize_harness_checkpoint now cid status db) db) = hd_events db"
  "hd_events (db_after (register_evidence en db) db) = hd_events db"
  by (auto simp: finalize_harness_checkpoint_def register_evidence_def Let_def db_after_def split: option.splits if_splits)

lemma drafts_events: "hd_events (db_after (save_unit_drafts now order rid ds owner k db) db) = hd_events db"
  by (cases owner; cases k)
    (auto simp: save_unit_drafts_def Let_def put_drafts_def db_after_def fenced_def split: option.splits if_splits)

lemma step_grows: "log_grows db (harness_step ek ch db op)"
  by (cases op)
    (simp_all add: append_event_grows decide_grows log_grows_same runs_events other_events other_events_unfenced drafts_events)

lemma log_grows_trans: "log_grows a b \<Longrightarrow> log_grows b c \<Longrightarrow> log_grows a c"
  by (fastforce simp: log_grows_def)

lemma run_ops_grow: "log_grows db (run_ops ek ch ops db)"
proof (induction ops arbitrary: db)
  case (Cons op ops)
  show ?case using log_grows_trans [OF step_grows Cons] by simp
qed (simp add: log_grows_same)


definition demo_event :: "string \<Rightarrow> string \<Rightarrow> execution_event" where
  "demo_event i key = (decision_event i 0 True [] key [] [] [] demo_run)\<lparr>ev_id := i\<rparr>"


section \<open>Human decisions are consumed once\<close>

lemma put_event_facts:
  assumes "put_event e db = Inr (e', db')"
  shows "hd_events db' = hd_events db @ [e']" "ev_key e' = ev_key e" "ev_run e' = ev_run e" "hd_runs db' = hd_runs db"
  using assms by (auto simp: put_event_def Let_def split: if_splits)

lemma decision_taken:
  assumes "resolve_harness_human_decision ek fresh now rid pe ph dec dk actor tenant db = Inr ((run, ev), db')"
    and "get_execution_event rid (ek dk ''human_resumed'') db = None"
  obtains cur approve fid where "get_harness_run rid (hd_runs db) = Some cur"
    "py_lower (py_strip dec) \<in> {''approve'', ''reject''}" "dk \<noteq> []" "pending_problem now tenant pe ph cur = None"
    "approve \<longleftrightarrow> py_lower (py_strip dec) = ''approve''" "run = decided_run now approve fid cur"
    "get_harness_run rid (hd_runs db') = Some run" "get_execution_event rid (ek dk ''human_resumed'') db' = Some ev"
    "hd_runs db' = update_where (\<lambda>r. hr_id r = rid) (\<lambda>_. run) (hd_runs db)" "hd_events db' = hd_events db @ [ev]"
proof -
  let ?key = "ek dk ''human_resumed''"
  have dec: "py_lower (py_strip dec) \<in> {''approve'', ''reject''}" "dk \<noteq> []"
    using assms(1) by (auto simp: resolve_harness_human_decision_def Let_def split: if_splits)
  obtain cur where cur: "get_harness_run rid (hd_runs db) = Some cur"
    using assms(1) by (auto simp: resolve_harness_human_decision_def Let_def split: if_splits option.splits)
  have ok: "pending_problem now tenant pe ph cur = None"
    using assms cur dec by (auto simp: resolve_harness_human_decision_def Let_def split: option.splits)
  define approve where "approve \<longleftrightarrow> py_lower (py_strip dec) = ''approve''"
  define fid where "fid = (case hr_pending cur of Some p \<Rightarrow> py_strip (pe_field_id p) | None \<Rightarrow> [])"
  define updated where "updated = decided_run now approve fid cur"
  define db1 where "db1 = db\<lparr>hd_runs := update_where (\<lambda>r. hr_id r = rid) (\<lambda>_. updated) (hd_runs db)\<rparr>"
  have put: "put_event (decision_event fresh now approve fid ?key pe ph actor cur) db1 = Inr (ev, db')" and run: "run = updated"
    using assms cur ok dec
    unfolding resolve_harness_human_decision_def Let_def db1_def updated_def approve_def fid_def
    by (auto split: sum.splits prod.splits)
  note facts = put_event_facts [OF put]
  have "hr_id updated = rid" using get_idD [OF cur] by (simp add: updated_def decided_run_def)
  then have get': "get_harness_run rid (hd_runs db') = Some run"
    using get_update_same [OF cur, of updated rid] by (simp add: facts(4) db1_def run)
  have "ev_key ev = ?key" "ev_run ev = rid" using facts(2,3) get_idD [OF cur] by (simp_all add: decision_event_def)
  then have "get_execution_event rid ?key db' = Some ev"
    using assms(2) facts(1) by (simp add: get_execution_event_def db1_def fetchone_append)
  then show thesis
    using that [OF cur dec ok approve_def, of fid] get' facts(1,4) run by (simp add: updated_def db1_def)
qed

lemma decided_not_waiting: "hr_status (decided_run now approve fid cur) \<noteq> ''waiting_human''"
  by (simp add: decided_run_def)

text \<open>A pending decision is consumed once: a decision that is accepted for the first time moves a waiting
  run on and stores one event; repeating it, also later and by someone else, returns that run and that event
  and changes nothing; and every other decision on the run is refused.\<close>

theorem human_decision_once:
  assumes "resolve_harness_human_decision ek fresh now rid pe ph dec dk actor tenant db = Inr ((run, ev), db')"
    and "get_execution_event rid (ek dk ''human_resumed'') db = None"
    and "get_execution_event rid (ek dk2 ''human_resumed'') db' = None"
  shows "map_option hr_status (get_harness_run rid (hd_runs db)) = Some ''waiting_human''
    \<and> hd_events db' = hd_events db @ [ev]
    \<and> resolve_harness_human_decision ek fresh2 now2 rid pe ph dec dk actor2 tenant db' = Inr ((run, ev), db')
    \<and> (\<exists>e. resolve_harness_human_decision ek fresh2 now2 rid pe2 ph2 dec2 dk2 actor2 tenant2 db' = Inl e)"
proof -
  obtain cur approve fid where d: "get_harness_run rid (hd_runs db) = Some cur"
    "py_lower (py_strip dec) \<in> {''approve'', ''reject''}" "dk \<noteq> []" "pending_problem now tenant pe ph cur = None"
    "run = decided_run now approve fid cur"
    "get_harness_run rid (hd_runs db') = Some run" "get_execution_event rid (ek dk ''human_resumed'') db' = Some ev"
    "hd_events db' = hd_events db @ [ev]"
    by (rule decision_taken [OF assms(1,2)])
  have "hr_status cur = ''waiting_human''" using d(4) by (auto simp: pending_problem_def split: if_splits)
  moreover have "resolve_harness_human_decision ek fresh2 now2 rid pe ph dec dk actor2 tenant db' = Inr ((run, ev), db')"
    using d(2,3,6,7) unfolding resolve_harness_human_decision_def by (simp add: Let_def)
  moreover have "pending_problem now2 tenant2 pe2 ph2 run \<noteq> None"
    using decided_not_waiting d(5) by (simp add: pending_problem_def)
  then have "\<exists>e. resolve_harness_human_decision ek fresh2 now2 rid pe2 ph2 dec2 dk2 actor2 tenant2 db' = Inl e"
    using d(6) assms(3) by (auto simp: resolve_harness_human_decision_def Let_def)
  ultimately show ?thesis using d(1,8) by simp
qed

definition waiting_db :: harness_db where
  "waiting_db = demo_db (demo_run\<lparr>hr_status := ''waiting_human''\<rparr>)"

definition decide_demo :: "string \<Rightarrow> string \<Rightarrow> harness_db \<Rightarrow> harness_error + (harness_run \<times> execution_event) \<times> harness_db" where
  "decide_demo dec dk = resolve_harness_human_decision (@) ''u'' 5 ''r'' ''e'' ''h'' dec dk ''alice'' (Some ''t'')"

definition decided_db :: harness_db where
  "decided_db = db_after (decide_demo '' Approve '' ''k1'' waiting_db) waiting_db"

theorem human_decision_once_witness:
  "\<exists>run ev. decide_demo '' Approve '' ''k1'' waiting_db = Inr ((run, ev), decided_db)
     \<and> hr_status run = ''retrying'' \<and> decide_demo '' Approve '' ''k1'' decided_db = Inr ((run, ev), decided_db)
     \<and> (\<exists>e. decide_demo ''reject'' ''k2'' decided_db = Inl e)"
proof -
  have "case decide_demo '' Approve '' ''k1'' waiting_db of Inr ((run, ev), db') \<Rightarrow> hr_status run = ''retrying'' | _ \<Rightarrow> False"
    by code_simp
  then obtain run ev where first: "decide_demo '' Approve '' ''k1'' waiting_db = Inr ((run, ev), decided_db)"
    and st: "hr_status run = ''retrying''"
    by (auto simp: decided_db_def db_after_def split: sum.splits)
  have none: "get_execution_event ''r'' (''k1'' @ ''human_resumed'') waiting_db = None" by code_simp
  have none2: "get_execution_event ''r'' (''k2'' @ ''human_resumed'') decided_db = None" by code_simp
  from human_decision_once [OF first [unfolded decide_demo_def] none none2, of "''u''" 5 "''alice''" "''e''" "''h''" "''reject''" "Some ''t''"]
  show ?thesis using first st unfolding decide_demo_def by blast
qed

section \<open>Where the store leaves the contract\<close>

text \<open>A decision can be lost: the finalisation of a run reads the row and later writes the whole row back
  (\<open>replace_harness_run\<close>).  When a human decision is accepted in between, the write restores the waiting run
  with its pending event; sending the decision again then answers with the stored event and leaves the run
  waiting.\<close>

theorem replace_loses_decision:
  assumes "get_harness_run rid (hd_runs db) = Some stale"
    and "resolve_harness_human_decision ek fresh now rid pe ph dec dk actor tenant db = Inr ((run, ev), db1)"
    and "get_execution_event rid (ek dk ''human_resumed'') db = None"
    and "on_runs (replace_harness_run (stale\<lparr>hr_progress := hashes\<rparr>)) db1 = Inr (written, db2)"
  shows "resolve_harness_human_decision ek fresh2 now2 rid pe ph dec dk actor2 tenant db2 = Inr ((written, ev), db2)
    \<and> hr_status written = ''waiting_human'' \<and> hr_status run \<noteq> ''waiting_human''"
proof -
  obtain cur approve fid where d: "get_harness_run rid (hd_runs db) = Some cur"
    "py_lower (py_strip dec) \<in> {''approve'', ''reject''}" "dk \<noteq> []" "pending_problem now tenant pe ph cur = None"
    "run = decided_run now approve fid cur"
    "get_harness_run rid (hd_runs db1) = Some run" "get_execution_event rid (ek dk ''human_resumed'') db1 = Some ev"
    by (rule decision_taken [OF assms(2,3)])
  have waiting: "hr_status stale = ''waiting_human''"
    using d(1,4) assms(1) by (auto simp: pending_problem_def split: if_splits)
  have id: "hr_id stale = rid" by (rule get_idD [OF assms(1)])
  then have w: "written = stale\<lparr>hr_progress := hashes\<rparr>"
    "db2 = db1\<lparr>hd_runs := update_where (\<lambda>r. hr_id r = rid) (\<lambda>_. written) (hd_runs db1)\<rparr>"
    using assms(4) by (auto simp: on_runs_def replace_harness_run_def with_run_def split: sum.splits option.splits)
  have "get_harness_run rid (hd_runs db2) = Some written"
    using get_update_same [OF d(6), of written rid] id by (simp add: w)
  moreover have "get_execution_event rid (ek dk ''human_resumed'') db2 = Some ev"
    using d(7) by (simp add: w get_execution_event_def)
  ultimately show ?thesis
    using d(2,3,5) waiting decided_not_waiting by (simp add: resolve_harness_human_decision_def Let_def w(1))
qed

definition replaced_db :: harness_db where
  "replaced_db = db_after (on_runs (replace_harness_run ((hd (hd_runs waiting_db))\<lparr>hr_progress := ''hashes''\<rparr>)) decided_db) decided_db"

theorem replace_loses_decision_witness:
  "\<exists>run ev. decide_demo '' Approve '' ''k1'' replaced_db = Inr ((run, ev), replaced_db) \<and> hr_status run = ''waiting_human''"
proof -
  have "case decide_demo '' Approve '' ''k1'' waiting_db of Inr ((run, ev), db') \<Rightarrow> True | _ \<Rightarrow> False" by code_simp
  then obtain run ev where first: "decide_demo '' Approve '' ''k1'' waiting_db = Inr ((run, ev), decided_db)"
    by (auto simp: decided_db_def db_after_def split: sum.splits)
  have get: "get_harness_run ''r'' (hd_runs waiting_db) = Some (hd (hd_runs waiting_db))" by code_simp
  have none: "get_execution_event ''r'' (''k1'' @ ''human_resumed'') waiting_db = None" by code_simp
  have "case on_runs (replace_harness_run ((hd (hd_runs waiting_db))\<lparr>hr_progress := ''hashes''\<rparr>)) decided_db of Inr _ \<Rightarrow> True | Inl _ \<Rightarrow> False"
    by code_simp
  then obtain written where w: "on_runs (replace_harness_run ((hd (hd_runs waiting_db))\<lparr>hr_progress := ''hashes''\<rparr>)) decided_db
      = Inr (written, replaced_db)"
    by (auto simp: replaced_db_def db_after_def split: sum.splits)
  from replace_loses_decision [OF get first [unfolded decide_demo_def] none w, of "''u''" 5 "''alice''"]
  show ?thesis unfolding decide_demo_def by blast
qed

text \<open>The status contract and the store disagree on \<open>retrying\<close>: the contract has no legal transition into
  it, with or without a released lease, while every retry the store accepts commits a run in that status, where
  other workers see and claim it.\<close>

theorem retrying_outside_contract:
  assumes "queue_harness_retry now rid max_retries runs = Inr (run, runs')"
  shows "get_harness_run rid runs' = Some run
    \<and> (\<exists>cur. get_harness_run rid runs = Some cur
         \<and> \<not> is_legal_transition (hr_status cur) (hr_status run) True \<and> \<not> is_legal_transition (hr_status cur) (hr_status run) False)
    \<and> (\<exists>claimed runs''. claim_harness_run now rid owner secs runs' = Inr (claimed, runs''))"
proof -
  obtain cur where cur: "get_harness_run rid runs = Some cur"
    "runs' = update_where (\<lambda>r. hr_id r = rid) (\<lambda>_. run) runs"
    and run: "run = cur\<lparr>hr_status := ''retrying'', hr_retry_count := hr_retry_count cur + 1,
                         hr_max_retries := max_retries, hr_lease_owner := None, hr_lease_expires := None,
                         hr_error := None, hr_last_error_code := None, hr_updated := now\<rparr>"
    using assms unfolding queue_harness_retry_def by (auto elim!: with_runD split: if_splits)
  have get: "get_harness_run rid runs' = Some run"
    using get_update_same [OF cur(1), of run rid] get_idD [OF cur(1)] by (simp add: cur(2) run)
  have "\<not> is_legal_transition s ''retrying'' b" for s b
    by (auto simp: is_legal_transition_def validate_transition_def TRANSITIONS_def split: option.splits if_splits)
  moreover have "\<exists>claimed runs''. claim_harness_run now rid owner secs runs' = Inr (claimed, runs'')"
    using get by (simp add: claim_harness_run_def with_run_def get_harness_run_def run)
  ultimately show ?thesis using get cur(1) by (simp add: run)
qed

theorem retrying_outside_contract_witness:
  "\<exists>run runs'. queue_harness_retry 9 ''r'' 2 [demo_run\<lparr>hr_status := ''failed''\<rparr>] = Inr (run, runs')
     \<and> get_harness_run ''r'' runs' = Some run \<and> hr_status run = ''retrying''"
proof -
  have "case queue_harness_retry 9 ''r'' 2 [demo_run\<lparr>hr_status := ''failed''\<rparr>] of Inr (run, runs') \<Rightarrow> hr_status run = ''retrying'' | _ \<Rightarrow> False"
    by code_simp
  then obtain run runs' where q: "queue_harness_retry 9 ''r'' 2 [demo_run\<lparr>hr_status := ''failed''\<rparr>] = Inr (run, runs')"
    and st: "hr_status run = ''retrying''" by (auto split: sum.splits)
  with retrying_outside_contract [OF q] show ?thesis by blast
qed

end
