(* ===== verification/Job_Store.thy ===== *)
theory Job_Store
  imports Prelude "HOL-Library.List_Lexorder" "HOL-Library.Char_ord"
begin

text \<open>
  The durable job queue of document authoring: \<open>DocumentAuthoringJobStore\<close> of
  \<open>document_authoring/job_store.py\<close>, with its jobs, outbox and resource locks.

  Each operation is one \<open>BEGIN IMMEDIATE\<close> transaction on a clock reading \<open>now\<close>; a raised error rolls it back.
  Times are instants: the ISO strings the code compares order the same way.  A payload is a JSON object; the
  entries that name a lock scope are fields, the others one text, and writing and reading back JSON is the
  identity.  Fresh \<open>uuid4\<close> identifiers are arguments.
\<close>

section \<open>Rows\<close>

definition JOB_OPERATIONS :: "string list" where
  "JOB_OPERATIONS = [''generate_work_order'', ''resume_work_order'', ''convert_artifact'']"

definition JOB_STATUSES :: "string list" where
  "JOB_STATUSES = [''queued'', ''running'', ''succeeded'', ''failed'', ''cancelled'', ''dead_letter'']"

definition RESOURCE_LOCK_TYPES :: "string list" where
  "RESOURCE_LOCK_TYPES = [''project'', ''knowledge_base'', ''template'', ''work_order'']"

text \<open>The \<open>resource_lock\<close> entry: absent, not an object, or an object with \<open>type\<close> and \<open>id\<close>.\<close>

datatype explicit_lock = No_lock | Not_an_object | Lock_object string string

record job_payload =
  pl_lock :: explicit_lock
  pl_project :: string
  pl_kb :: string
  pl_template :: string
  pl_rest :: string

record job =
  jb_id :: string
  jb_tenant :: string
  jb_user :: string
  jb_session :: string
  jb_request :: string
  jb_operation :: string
  jb_order :: "string option"
  jb_task :: "string option"
  jb_status :: string
  jb_attempt :: int
  jb_max :: int
  jb_available :: time
  jb_owner :: "string option"
  jb_token :: int
  jb_expires :: "time option"
  jb_lock_token :: "int option"
  jb_payload :: job_payload
  jb_result :: string
  jb_error :: string
  jb_created :: time
  jb_updated :: time
  jb_completed :: "time option"

text \<open>An expiry that is empty or cannot be read is \<open>None\<close>.\<close>

record resource_lock =
  rl_tenant :: string
  rl_type :: string
  rl_id :: string
  rl_owner :: string
  rl_token :: int
  rl_expires :: "time option"
  rl_created :: time
  rl_updated :: time

record outbox_row =
  ob_id :: string
  ob_job :: string
  ob_operation :: string
  ob_status :: string
  ob_attempt :: int
  ob_available :: time
  ob_error :: string
  ob_created :: time
  ob_dispatched :: "time option"

record job_db =
  jd_jobs :: "job list"
  jd_outbox :: "outbox_row list"
  jd_locks :: "resource_lock list"

datatype job_error =
    Unsupported_operation | Bad_lock_type | Bad_lock_id | Lock_not_object | Lock_identity_required | Lock_lost
  | Job_identity_required | Idempotency_conflict | Worker_required | Job_lease_lost | Job_not_found | Duplicate_id

section \<open>Resource locks\<close>

definition validate_operation :: "string \<Rightarrow> job_error + string" where
  "validate_operation operation =
     (let normalized = py_strip operation
      in if normalized \<in> set JOB_OPERATIONS then Inr normalized else Inl Unsupported_operation)"

definition validate_resource_scope :: "string \<Rightarrow> string \<Rightarrow> job_error + string \<times> string" where
  "validate_resource_scope resource_type resource_id =
     (let t = py_lower (py_strip resource_type); i = py_strip resource_id in
      if t \<notin> set RESOURCE_LOCK_TYPES then Inl Bad_lock_type
      else if i = [] \<or> length i > 300 then Inl Bad_lock_id
      else Inr (t, i))"

definition resource_scope_from_payload :: "job_payload \<Rightarrow> string option \<Rightarrow> job_error + (string \<times> string) option" where
  "resource_scope_from_payload p work_order =
     (let scope = \<lambda>t i. map_sum id Some (validate_resource_scope t i) in
      case pl_lock p of
        Not_an_object \<Rightarrow> Inl Lock_not_object
      | Lock_object t i \<Rightarrow> scope t i
      | No_lock \<Rightarrow>
          if pl_project p \<noteq> [] then scope ''project'' (pl_project p)
          else if pl_kb p \<noteq> [] then scope ''knowledge_base'' (pl_kb p)
          else if work_order \<noteq> None \<and> work_order \<noteq> Some [] then scope ''work_order'' (the work_order)
          else if pl_template p \<noteq> [] then scope ''template'' (pl_template p)
          else Inr None)"

definition job_lock_owner :: "string \<Rightarrow> int \<Rightarrow> string" where
  "job_lock_owner job_id attempt = ''document-job:'' @ job_id @ '':'' @ py_str attempt"

definition resource_lock_expired :: "time option \<Rightarrow> time \<Rightarrow> bool" where
  "resource_lock_expired value now = (case value of None \<Rightarrow> False | Some t \<Rightarrow> t \<le> now)"

definition same_scope :: "string \<Rightarrow> string \<Rightarrow> string \<Rightarrow> resource_lock \<Rightarrow> bool" where
  "same_scope tenant t i l \<longleftrightarrow> rl_tenant l = tenant \<and> rl_type l = t \<and> rl_id l = i"

definition lease_end :: "time \<Rightarrow> int \<Rightarrow> time" where
  "lease_end now lease_seconds = now + seconds (max 5 lease_seconds)"

text \<open>\<open>_acquire_resource_lock_in_connection\<close> on a scope that was validated: the lock, or \<open>None\<close> when it is held.\<close>

definition take_lock :: "time \<Rightarrow> string \<Rightarrow> string \<Rightarrow> string \<Rightarrow> string \<Rightarrow> int \<Rightarrow> resource_lock list
    \<Rightarrow> resource_lock option \<times> resource_lock list" where
  "take_lock now tenant t i owner lease_seconds locks =
     (let expires = Some (lease_end now lease_seconds) in
      case fetchone (same_scope tenant t i) locks of
        None \<Rightarrow>
          (let l = \<lparr>rl_tenant = tenant, rl_type = t, rl_id = i, rl_owner = owner, rl_token = 1, rl_expires = expires,
                    rl_created = now, rl_updated = now\<rparr>
           in (Some l, locks @ [l]))
      | Some row \<Rightarrow>
          (let active = (\<not> resource_lock_expired (rl_expires row) now) in
           if active \<and> rl_owner row \<noteq> owner then (None, locks)
           else (let l = row\<lparr>rl_owner := owner,
                             rl_token := rl_token row + (if rl_owner row = owner \<and> active then 0 else 1),
                             rl_expires := expires, rl_updated := now\<rparr>
                 in (Some l, update_where (same_scope tenant t i) (\<lambda>_. l) locks))))"

definition acquire_resource_lock :: "time \<Rightarrow> string \<Rightarrow> string \<Rightarrow> string \<Rightarrow> string \<Rightarrow> int \<Rightarrow> job_db
    \<Rightarrow> job_error + resource_lock option \<times> job_db" where
  "acquire_resource_lock now tenant_id resource_type resource_id owner_id lease_seconds db =
     (let tenant = py_strip tenant_id; owner = py_strip owner_id in
      if tenant = [] \<or> owner = [] then Inl Lock_identity_required
      else case validate_resource_scope resource_type resource_id of
        Inl e \<Rightarrow> Inl e
      | Inr (t, i) \<Rightarrow>
          (case take_lock now tenant t i owner lease_seconds (jd_locks db) of
             (l, locks) \<Rightarrow> Inr (l, db\<lparr>jd_locks := locks\<rparr>)))"

definition held_lock :: "string \<Rightarrow> string \<Rightarrow> string \<Rightarrow> string \<Rightarrow> int \<Rightarrow> resource_lock \<Rightarrow> bool" where
  "held_lock tenant t i owner token l \<longleftrightarrow> same_scope tenant t i l \<and> rl_owner l = owner \<and> rl_token l = token"

definition drop_lock :: "string \<Rightarrow> string \<Rightarrow> string \<Rightarrow> string \<Rightarrow> int \<Rightarrow> resource_lock list \<Rightarrow> bool \<times> resource_lock list" where
  "drop_lock tenant t i owner token locks =
     (rowcount (held_lock tenant t i owner token) locks = 1, filter (\<lambda>l. \<not> held_lock tenant t i owner token l) locks)"

definition renew_resource_lock :: "time \<Rightarrow> string \<Rightarrow> string \<Rightarrow> string \<Rightarrow> string \<Rightarrow> int \<Rightarrow> int \<Rightarrow> job_db \<Rightarrow> job_error + resource_lock \<times> job_db" where
  "renew_resource_lock now tenant resource_type resource_id owner token lease_seconds db =
     (case validate_resource_scope resource_type resource_id of
        Inl e \<Rightarrow> Inl e
      | Inr (t, i) \<Rightarrow>
          (case fetchone (held_lock tenant t i owner token) (jd_locks db) of
             None \<Rightarrow> Inl Lock_lost
           | Some row \<Rightarrow>
               if resource_lock_expired (rl_expires row) now \<or> rowcount (held_lock tenant t i owner token) (jd_locks db) \<noteq> 1
               then Inl Lock_lost
               else (let upd = \<lambda>l. l\<lparr>rl_expires := Some (lease_end now lease_seconds), rl_updated := now\<rparr>
                     in Inr (upd row, db\<lparr>jd_locks := update_where (held_lock tenant t i owner token) upd (jd_locks db)\<rparr>))))"

definition release_resource_lock :: "string \<Rightarrow> string \<Rightarrow> string \<Rightarrow> string \<Rightarrow> int \<Rightarrow> job_db \<Rightarrow> job_error + bool \<times> job_db" where
  "release_resource_lock tenant resource_type resource_id owner token db =
     (case validate_resource_scope resource_type resource_id of
        Inl e \<Rightarrow> Inl e
      | Inr (t, i) \<Rightarrow>
          (case drop_lock tenant t i owner token (jd_locks db) of (released, locks) \<Rightarrow> Inr (released, db\<lparr>jd_locks := locks\<rparr>)))"

text \<open>The token a job expects on its lock.\<close>

definition expected_lock_token :: "job \<Rightarrow> int" where
  "expected_lock_token row = (case jb_lock_token row of Some k \<Rightarrow> k | None \<Rightarrow> jb_attempt row)"

definition release_job_resource_lock :: "job \<Rightarrow> resource_lock list \<Rightarrow> job_error + resource_lock list" where
  "release_job_resource_lock row locks =
     (case resource_scope_from_payload (jb_payload row) (jb_order row) of
        Inl e \<Rightarrow> Inl e
      | Inr None \<Rightarrow> Inr locks
      | Inr (Some (t, i)) \<Rightarrow>
          Inr (snd (drop_lock (jb_tenant row) t i (job_lock_owner (jb_id row) (jb_attempt row)) (expected_lock_token row) locks)))"

section \<open>Creating and finding jobs\<close>

definition same_key :: "string \<Rightarrow> string \<Rightarrow> string \<Rightarrow> string \<Rightarrow> string \<Rightarrow> job \<Rightarrow> bool" where
  "same_key tenant user session request operation j \<longleftrightarrow>
     jb_tenant j = tenant \<and> jb_user j = user \<and> jb_session j = session \<and> jb_request j = request \<and> jb_operation j = operation"

definition get_job :: "string \<Rightarrow> job_db \<Rightarrow> job option" where
  "get_job job_id db = fetchone (\<lambda>j. jb_id j = job_id) (jd_jobs db)"

definition set_job :: "string \<Rightarrow> (job \<Rightarrow> job) \<Rightarrow> job_db \<Rightarrow> job_db" where
  "set_job job_id f db = db\<lparr>jd_jobs := update_where (\<lambda>j. jb_id j = job_id) f (jd_jobs db)\<rparr>"

text \<open>\<open>str(task_id).strip() if task_id else None\<close>.\<close>

definition requested_task :: "string option \<Rightarrow> string option" where
  "requested_task task = (case task of None \<Rightarrow> None | Some t \<Rightarrow> if t = [] then None else Some (py_strip t))"

text \<open>How \<open>_row_to_job\<close> reads a stored task id.\<close>

definition read_task :: "string option \<Rightarrow> string option" where
  "read_task task = (case task of None \<Rightarrow> None | Some t \<Rightarrow> if t = [] then None else Some (py_strip t))"

definition new_job :: "string \<Rightarrow> time \<Rightarrow> string \<Rightarrow> string \<Rightarrow> string \<Rightarrow> string \<Rightarrow> string \<Rightarrow> job_payload \<Rightarrow> string option
    \<Rightarrow> string option \<Rightarrow> int \<Rightarrow> time \<Rightarrow> job" where
  "new_job job_id now tenant user session request operation payload order task max_attempts available =
     \<lparr>jb_id = job_id, jb_tenant = tenant, jb_user = user, jb_session = session, jb_request = request,
      jb_operation = operation, jb_order = order, jb_task = read_task (requested_task task), jb_status = ''queued'', jb_attempt = 0,
      jb_max = max_attempts, jb_available = available, jb_owner = None, jb_token = 0, jb_expires = None,
      jb_lock_token = None, jb_payload = payload, jb_result = ''{}'', jb_error = [], jb_created = now, jb_updated = now,
      jb_completed = None\<rparr>"

definition new_outbox :: "string \<Rightarrow> string \<Rightarrow> string \<Rightarrow> time \<Rightarrow> time \<Rightarrow> outbox_row" where
  "new_outbox outbox_id job_id operation available now =
     \<lparr>ob_id = outbox_id, ob_job = job_id, ob_operation = operation, ob_status = ''pending'', ob_attempt = 0,
      ob_available = available, ob_error = [], ob_created = now, ob_dispatched = None\<rparr>"

definition create_job :: "string \<Rightarrow> string \<Rightarrow> time \<Rightarrow> string \<Rightarrow> string \<Rightarrow> string \<Rightarrow> string \<Rightarrow> string \<Rightarrow> job_payload \<Rightarrow> string option
    \<Rightarrow> string option \<Rightarrow> int \<Rightarrow> time option \<Rightarrow> job_db \<Rightarrow> job_error + job \<times> job_db" where
  "create_job fresh fresh' now tenant_id user_id session_id client_request_id operation payload order task max_attempts available_at db =
     (case validate_operation operation of
        Inl e \<Rightarrow> Inl e
      | Inr op \<Rightarrow>
          (let tenant = py_strip tenant_id; user = py_strip user_id; session = py_strip session_id;
               request = clip 128 (py_strip client_request_id); attempts = max 1 (min max_attempts 20);
               available = (case available_at of Some t \<Rightarrow> t | None \<Rightarrow> now)
           in if tenant = [] \<or> user = [] \<or> session = [] \<or> request = [] then Inl Job_identity_required
              else case resource_scope_from_payload payload order of
                Inl e \<Rightarrow> Inl e
              | Inr _ \<Rightarrow>
                  (case fetchone (same_key tenant user session request op) (jd_jobs db) of
                     Some current \<Rightarrow>
                       if jb_payload current \<noteq> payload \<or> jb_order current \<noteq> order
                          \<or> (jb_task current \<noteq> None \<and> requested_task task \<noteq> None \<and> jb_task current \<noteq> requested_task task)
                       then Inl Idempotency_conflict
                       else if jb_task current = None \<and> requested_task task \<noteq> None
                       then (let current' = current\<lparr>jb_task := read_task (requested_task task), jb_updated := now\<rparr>
                             in Inr (current', set_job (jb_id current) (\<lambda>_. current') db))
                       else Inr (current, db)
                   | None \<Rightarrow>
                       (let job_id = ''document-job-'' @ fresh; outbox_id = ''document-outbox-'' @ fresh';
                            j = new_job job_id now tenant user session request op payload order task attempts available
                        in if job_id \<in> jb_id ` set (jd_jobs db) \<or> outbox_id \<in> ob_id ` set (jd_outbox db)
                              \<or> job_id \<in> ob_job ` set (jd_outbox db)
                           then Inl Duplicate_id
                           else Inr (j, db\<lparr>jd_jobs := jd_jobs db @ [j],
                                          jd_outbox := jd_outbox db @ [new_outbox outbox_id job_id op available now]\<rparr>)))))"

definition get_by_idempotency :: "string \<Rightarrow> string \<Rightarrow> string \<Rightarrow> string \<Rightarrow> string \<Rightarrow> job_db \<Rightarrow> job_error + job option" where
  "get_by_idempotency tenant user session request operation db =
     (case validate_operation operation of
        Inl e \<Rightarrow> Inl e
      | Inr op \<Rightarrow> Inr (fetchone (same_key tenant user session request op) (jd_jobs db)))"

definition newest_first :: "job list \<Rightarrow> job list" where
  "newest_first jobs = rev (sort_key jb_created (sort_key jb_id jobs))"

definition get_by_work_order :: "string \<Rightarrow> string option \<Rightarrow> string option \<Rightarrow> job_db \<Rightarrow> job option" where
  "get_by_work_order order tenant user db =
     (case newest_first (filter (\<lambda>j. jb_order j = Some order \<and> (tenant = None \<or> tenant = Some (jb_tenant j))
        \<and> (user = None \<or> user = Some (jb_user j))) (jd_jobs db)) of [] \<Rightarrow> None | j # _ \<Rightarrow> Some j)"

definition list_chat_session_jobs :: "string \<Rightarrow> string option \<Rightarrow> string option \<Rightarrow> int \<Rightarrow> job_db \<Rightarrow> job list" where
  "list_chat_session_jobs user session tenant limit db =
     take (nat (max 1 (min limit 200))) (newest_first (filter (\<lambda>j. jb_user j = user
       \<and> (tenant = None \<or> tenant = Some (jb_tenant j)) \<and> (session = None \<or> session = Some (jb_session j))) (jd_jobs db)))"

text \<open>Waiting jobs, at the whole seconds of SQLite's \<open>datetime\<close>.\<close>

definition is_pending :: "time \<Rightarrow> job \<Rightarrow> bool" where
  "is_pending now j \<longleftrightarrow>
     (jb_status j = ''queued'' \<and> sql_datetime (jb_available j) \<le> sql_datetime now)
     \<or> (jb_status j = ''running'' \<and> (case jb_expires j of None \<Rightarrow> False | Some t \<Rightarrow> sql_datetime t \<le> sql_datetime now))"

definition queue_state :: "time \<Rightarrow> job_db \<Rightarrow> nat \<times> time" where
  "queue_state now db =
     (let js = filter (is_pending now) (jd_jobs db)
      in (length js, if js = [] then 0 else max 0 (now - Min (jb_created ` set js))))"

definition list_pending :: "time \<Rightarrow> int \<Rightarrow> job_db \<Rightarrow> job list" where
  "list_pending now limit db =
     take (nat (max 1 (min limit 100))) (sort_key jb_created (sort_key jb_id (filter (is_pending now) (jd_jobs db))))"

section \<open>Leases\<close>

definition FINAL_STATUSES :: "string list" where
  "FINAL_STATUSES = [''succeeded'', ''failed'', ''cancelled'', ''dead_letter'']"

definition claimed_job :: "time \<Rightarrow> string \<Rightarrow> int \<Rightarrow> int option \<Rightarrow> job \<Rightarrow> job" where
  "claimed_job now worker lease_seconds lock_token row =
     row\<lparr>jb_status := ''running'', jb_attempt := jb_attempt row + 1, jb_owner := Some worker, jb_token := jb_token row + 1,
         jb_expires := Some (lease_end now lease_seconds), jb_lock_token := lock_token, jb_updated := now, jb_error := []\<rparr>"

definition dead_letter_job :: "time \<Rightarrow> job \<Rightarrow> job" where
  "dead_letter_job now row =
     row\<lparr>jb_status := ''dead_letter'', jb_error := ''maximum_attempts_exceeded'', jb_updated := now, jb_owner := None,
         jb_expires := None, jb_completed := Some now\<rparr>"

text \<open>The claim of a row that is due: with attempts left it needs the lock of its scope.\<close>

definition claim_due :: "time \<Rightarrow> string \<Rightarrow> int \<Rightarrow> bool \<Rightarrow> job \<Rightarrow> job_db \<Rightarrow> job_error + job option \<times> job_db" where
  "claim_due now worker lease_seconds expired row db =
     (let grant = \<lambda>lock_token db. (let row' = claimed_job now worker lease_seconds lock_token row
                                    in Inr (Some row', set_job (jb_id row) (\<lambda>_. row') db))
      in case resource_scope_from_payload (jb_payload row) (jb_order row) of
           Inl e \<Rightarrow> Inl e
         | Inr None \<Rightarrow> grant None db
         | Inr (Some (t, i)) \<Rightarrow>
             (let locks = (if expired then snd (drop_lock (jb_tenant row) t i (job_lock_owner (jb_id row) (jb_attempt row))
                                             (expected_lock_token row) (jd_locks db))
                           else jd_locks db)
              in case acquire_resource_lock now (jb_tenant row) t i (job_lock_owner (jb_id row) (jb_attempt row + 1)) lease_seconds
                        (db\<lparr>jd_locks := locks\<rparr>) of
                   Inl e \<Rightarrow> Inl e
                 | Inr (None, db') \<Rightarrow> Inr (None, db')
                 | Inr (Some l, db') \<Rightarrow> grant (Some (rl_token l)) db'))"

definition claim :: "time \<Rightarrow> string \<Rightarrow> string \<Rightarrow> int \<Rightarrow> job_db \<Rightarrow> job_error + job option \<times> job_db" where
  "claim now job_id worker_id lease_seconds db =
     (let worker = py_strip worker_id in
      if worker = [] then Inl Worker_required
      else case get_job job_id db of
        None \<Rightarrow> Inr (None, db)
      | Some row \<Rightarrow>
          (let available = (jb_status row = ''queued'' \<and> jb_available row \<le> now);
               expired = (jb_status row = ''running'' \<and> (case jb_expires row of Some t \<Rightarrow> t \<le> now | None \<Rightarrow> False))
           in if jb_status row \<in> set FINAL_STATUSES \<or> \<not> (available \<or> expired) then Inr (None, db)
              else if jb_attempt row + 1 > (if jb_max row = 0 then 1 else jb_max row) then
                (case if jb_status row = ''running'' then release_job_resource_lock row (jd_locks db) else Inr (jd_locks db) of
                   Inl e \<Rightarrow> Inl e
                 | Inr locks \<Rightarrow> Inr (None, set_job job_id (dead_letter_job now) (db\<lparr>jd_locks := locks\<rparr>)))
              else claim_due now worker lease_seconds expired row db))"

definition leased_by :: "string \<Rightarrow> string \<Rightarrow> int \<Rightarrow> job \<Rightarrow> bool" where
  "leased_by job_id worker token j \<longleftrightarrow>
     jb_id j = job_id \<and> jb_status j = ''running'' \<and> jb_owner j = Some worker \<and> jb_token j = token"

text \<open>The guarded update of heartbeat, complete and fail: the row before it, and the database after it.\<close>

definition with_lease :: "string \<Rightarrow> string \<Rightarrow> int \<Rightarrow> (job \<Rightarrow> job) \<Rightarrow> job_db \<Rightarrow> job_error + job \<times> job_db" where
  "with_lease job_id worker token f db =
     (case get_job job_id db of
        None \<Rightarrow> Inl Job_lease_lost
      | Some row \<Rightarrow>
          if rowcount (leased_by job_id worker token) (jd_jobs db) \<noteq> 1 then Inl Job_lease_lost
          else Inr (row, db\<lparr>jd_jobs := update_where (leased_by job_id worker token) f (jd_jobs db)\<rparr>))"

definition heartbeat :: "time \<Rightarrow> string \<Rightarrow> string \<Rightarrow> int \<Rightarrow> int \<Rightarrow> job_db \<Rightarrow> job_error + job option \<times> job_db" where
  "heartbeat now job_id worker token lease_seconds db =
     (let expires = Some (lease_end now lease_seconds) in
      case with_lease job_id worker token (\<lambda>j. j\<lparr>jb_expires := expires, jb_updated := now\<rparr>) db of
        Inl e \<Rightarrow> Inl e
      | Inr (row, db') \<Rightarrow>
          (case resource_scope_from_payload (jb_payload row) (jb_order row) of
             Inl e \<Rightarrow> Inl e
           | Inr None \<Rightarrow> Inr (get_job job_id db', db')
           | Inr (Some (t, i)) \<Rightarrow>
               (let mine = held_lock (jb_tenant row) t i (job_lock_owner job_id (jb_attempt row)) (expected_lock_token row) in
                if rowcount mine (jd_locks db') \<noteq> 1 then Inl Lock_lost
                else (let db'' = db'\<lparr>jd_locks := update_where mine (\<lambda>l. l\<lparr>rl_expires := expires, rl_updated := now\<rparr>) (jd_locks db')\<rparr>
                      in Inr (get_job job_id db'', db'')))))"

definition mark_outbox :: "time \<Rightarrow> string \<Rightarrow> string \<Rightarrow> string \<Rightarrow> job_db \<Rightarrow> job_db" where
  "mark_outbox now job_id status error db =
     db\<lparr>jd_outbox := update_where (\<lambda>o'. ob_job o' = job_id)
          (\<lambda>o'. o'\<lparr>ob_status := status, ob_attempt := ob_attempt o' + 1, ob_error := clip 1000 error,
                   ob_dispatched := (if status = ''sent'' then Some now else None)\<rparr>) (jd_outbox db)\<rparr>"

text \<open>Finishing a lease: the update, then the release of the job's lock.\<close>

definition finish_lease :: "string \<Rightarrow> string \<Rightarrow> int \<Rightarrow> (job \<Rightarrow> job) \<Rightarrow> job_db \<Rightarrow> job_error + job_db" where
  "finish_lease job_id worker token f db =
     (case with_lease job_id worker token f db of
        Inl e \<Rightarrow> Inl e
      | Inr (row, db') \<Rightarrow>
          (case release_job_resource_lock row (jd_locks db') of
             Inl e \<Rightarrow> Inl e
           | Inr locks \<Rightarrow> Inr (db'\<lparr>jd_locks := locks\<rparr>)))"

definition complete_job :: "time \<Rightarrow> string \<Rightarrow> string \<Rightarrow> int \<Rightarrow> string \<Rightarrow> job_db \<Rightarrow> job_error + job option \<times> job_db" where
  "complete_job now job_id worker token result db =
     (case finish_lease job_id worker token
             (\<lambda>j. j\<lparr>jb_status := ''succeeded'', jb_result := result, jb_updated := now, jb_completed := Some now,
                    jb_owner := None, jb_expires := None\<rparr>) db of
        Inl e \<Rightarrow> Inl e
      | Inr db' \<Rightarrow> Inr (get_job job_id db', mark_outbox now job_id ''sent'' [] db'))"

text \<open>What \<open>fail\<close> decides from the row it read before its transaction: status, availability, completion.\<close>

definition fail_plan :: "time \<Rightarrow> bool \<Rightarrow> int option \<Rightarrow> job \<Rightarrow> string \<times> time \<times> time option" where
  "fail_plan now retryable backoff seen =
     (if retryable \<and> jb_attempt seen < jb_max seen
      then (''queued'', now + seconds (max 1 (case backoff of Some b \<Rightarrow> b | None \<Rightarrow> min 300 (2 ^ nat (jb_attempt seen - 1)))), None)
      else (if retryable then ''dead_letter'' else ''failed'', now, Some now))"

definition fail_job :: "time \<Rightarrow> job option \<Rightarrow> string \<Rightarrow> string \<Rightarrow> int \<Rightarrow> string \<Rightarrow> bool \<Rightarrow> int option \<Rightarrow> job_db
    \<Rightarrow> job_error + job option \<times> job_db" where
  "fail_job now seen job_id worker token message retryable backoff db =
     (case seen of
        None \<Rightarrow> Inl Job_not_found
      | Some current \<Rightarrow>
          (case fail_plan now retryable backoff current of
             (status, available, completed) \<Rightarrow>
               (case finish_lease job_id worker token
                       (\<lambda>j. j\<lparr>jb_status := status, jb_available := available, jb_error := clip 1000 message, jb_updated := now,
                              jb_completed := completed, jb_owner := None, jb_expires := None\<rparr>) db of
                  Inl e \<Rightarrow> Inl e
                | Inr db' \<Rightarrow>
                    Inr (get_job job_id db',
                         if status \<noteq> ''queued'' then mark_outbox now job_id ''failed'' (clip 1000 message) db' else db'))))"

section \<open>Cancelling and cleaning up\<close>

definition cancelled_job :: "time \<Rightarrow> string \<Rightarrow> job \<Rightarrow> job" where
  "cancelled_job now reason j =
     j\<lparr>jb_status := ''cancelled'', jb_error := clip 1000 (if reason = [] then ''cancelled'' else reason), jb_updated := now,
       jb_completed := Some now, jb_owner := None, jb_expires := None\<rparr>"

definition cancel_job :: "time \<Rightarrow> string \<Rightarrow> string \<Rightarrow> job_db \<Rightarrow> job option \<times> job_db" where
  "cancel_job now job_id reason db =
     (let db' = db\<lparr>jd_jobs := update_where (\<lambda>j. jb_id j = job_id \<and> jb_status j \<in> {''queued'', ''running''})
                     (cancelled_job now reason) (jd_jobs db)\<rparr>
      in (get_job job_id db', db'))"

definition work_orders_of :: "job list \<Rightarrow> string list" where
  "work_orders_of rows = sort (remdups (filter (\<lambda>w. w \<noteq> []) (List.map_filter jb_order rows)))"

text \<open>\<open>owner_id LIKE 'document-job:<id>:%'\<close>; \<open>LIKE\<close> ignores the case of ASCII letters.\<close>

definition owner_like :: "string \<Rightarrow> string \<Rightarrow> bool" where
  "owner_like job_id owner =
     (let p = py_lower (''document-job:'' @ job_id @ '':'') in take (length p) (py_lower owner) = p)"

text \<open>Dropping what a job may still hold.\<close>

definition forget_locks :: "job \<Rightarrow> job_db \<Rightarrow> job_error + job_db" where
  "forget_locks row db =
     (case release_job_resource_lock row (jd_locks db) of
        Inl e \<Rightarrow> Inl e
      | Inr locks \<Rightarrow> Inr (db\<lparr>jd_locks := filter (\<lambda>l. \<not> owner_like (jb_id row) (rl_owner l)) locks\<rparr>))"

fun cancel_rows :: "time \<Rightarrow> string \<Rightarrow> job list \<Rightarrow> job_db \<Rightarrow> job_error + job_db" where
  "cancel_rows now reason [] db = Inr db"
| "cancel_rows now reason (row # rows) db =
     (if jb_status row \<notin> {''queued'', ''running''} then cancel_rows now reason rows db
      else case forget_locks row db of
        Inl e \<Rightarrow> Inl e
      | Inr db' \<Rightarrow>
          cancel_rows now reason rows
            ((set_job (jb_id row) (cancelled_job now reason) db')
               \<lparr>jd_outbox := update_where (\<lambda>o'. ob_job o' = jb_id row)
                  (\<lambda>o'. o'\<lparr>ob_status := ''cancelled'', ob_error := clip 1000 (if reason = [] then ''cancelled'' else reason),
                           ob_dispatched := Some now\<rparr>) (jd_outbox db')\<rparr>))"

definition cancel_session :: "time \<Rightarrow> string \<Rightarrow> string \<Rightarrow> job_db \<Rightarrow> job_error + string list \<times> job_db" where
  "cancel_session now session_id reason db =
     (let session = py_strip session_id; rows = filter (\<lambda>j. jb_session j = session) (jd_jobs db) in
      if session = [] then Inr ([], db)
      else map_sum id (\<lambda>db'. (work_orders_of rows, db')) (cancel_rows now reason rows db))"

fun forget_rows :: "job list \<Rightarrow> job_db \<Rightarrow> job_error + job_db" where
  "forget_rows [] db = Inr db"
| "forget_rows (row # rows) db = (case forget_locks row db of Inl e \<Rightarrow> Inl e | Inr db' \<Rightarrow> forget_rows rows db')"

definition cleanup_session :: "string \<Rightarrow> job_db \<Rightarrow> job_error + string list \<times> job_db" where
  "cleanup_session session_id db =
     (let session = py_strip session_id; rows = filter (\<lambda>j. jb_session j = session) (jd_jobs db) in
      if session = [] then Inr ([], db)
      else map_sum id
             (\<lambda>db'. (work_orders_of rows,
                     db'\<lparr>jd_outbox := filter (\<lambda>o'. ob_job o' \<notin> jb_id ` set rows) (jd_outbox db'),
                         jd_jobs := filter (\<lambda>j. jb_session j \<noteq> session) (jd_jobs db')\<rparr>))
             (forget_rows rows db))"

definition list_pending_outbox :: "time \<Rightarrow> int \<Rightarrow> job_db \<Rightarrow> outbox_row list" where
  "list_pending_outbox now limit db =
     take (nat (max 1 (min limit 100))) (sort_key ob_created (sort_key ob_id
       (filter (\<lambda>o'. ob_status o' = ''pending'' \<and> sql_datetime (ob_available o') \<le> sql_datetime now) (jd_outbox db))))"

end
