(* ===== verification/Job_Properties.thy ===== *)
theory Job_Properties
  imports Job_Store
begin

text \<open>
  Properties of the document job queue: the rows stay well formed under every operation, live jobs never share
  a locked resource, and jobs are found again under the identity they were created with.
\<close>

section \<open>Strings\<close>

lemma colon_split:
  assumes "a @ CHR '':'' # x = b @ CHR '':'' # y" "CHR '':'' \<notin> set x" "CHR '':'' \<notin> set y"
  shows "a = b \<and> x = y"
proof -
  have rev: "rev x @ CHR '':'' # rev a = rev y @ CHR '':'' # rev b" using arg_cong [OF assms(1), of rev] by simp
  have "dropWhile (\<lambda>c. c \<noteq> CHR '':'') (rev x @ CHR '':'' # rev a) = CHR '':'' # rev a"
    "dropWhile (\<lambda>c. c \<noteq> CHR '':'') (rev y @ CHR '':'' # rev b) = CHR '':'' # rev b"
    using assms(2,3) by (subst dropWhile_append2; auto)+
  with rev have "a = b" by simp
  with assms(1) show ?thesis by simp
qed

lemma job_lock_owner_inj: "job_lock_owner a m = job_lock_owner b n \<Longrightarrow> a = b"
  using colon_split [OF _ py_str_chars(2) py_str_chars(2), of a m b n] by (simp add: job_lock_owner_def)

lemma job_lock_owner_ne [simp]: "job_lock_owner a n \<noteq> []"
  by (simp add: job_lock_owner_def)

lemma job_lock_owner_strip [simp]: "py_strip (job_lock_owner a n) = job_lock_owner a n"
  by (rule strip_fixed) (use py_str_chars [of n] in \<open>simp add: job_lock_owner_def py_isspace_def Let_def\<close>)

section \<open>Well-formed rows\<close>

text \<open>Identifiers come from \<open>uuid4().hex\<close>: lower case and without a colon.\<close>

definition plain_id :: "string \<Rightarrow> bool" where
  "plain_id s \<longleftrightarrow> CHR '':'' \<notin> set s \<and> py_lower s = s"

definition job_ok :: "job \<Rightarrow> bool" where
  "job_ok j \<longleftrightarrow>
     jb_status j \<in> set JOB_STATUSES \<and> jb_operation j \<in> set JOB_OPERATIONS
     \<and> 0 \<le> jb_attempt j \<and> jb_attempt j \<le> jb_max j \<and> 1 \<le> jb_max j \<and> jb_max j \<le> 20
     \<and> (jb_owner j \<noteq> None \<longleftrightarrow> jb_status j = ''running'') \<and> (jb_expires j \<noteq> None \<longleftrightarrow> jb_status j = ''running'')
     \<and> jb_tenant j \<noteq> [] \<and> jb_user j \<noteq> [] \<and> jb_session j \<noteq> [] \<and> jb_request j \<noteq> []
     \<and> py_strip (jb_tenant j) = jb_tenant j \<and> plain_id (jb_id j)
     \<and> (\<exists>scope. resource_scope_from_payload (jb_payload j) (jb_order j) = Inr scope)"

definition job_key :: "job \<Rightarrow> string \<times> string \<times> string \<times> string \<times> string" where
  "job_key j = (jb_tenant j, jb_user j, jb_session j, jb_request j, jb_operation j)"

text \<open>Every job has one outbox row.\<close>

definition jobs_ok :: "job_db \<Rightarrow> bool" where
  "jobs_ok db \<longleftrightarrow>
     list_all job_ok (jd_jobs db) \<and> distinct (map jb_id (jd_jobs db)) \<and> distinct (map job_key (jd_jobs db))
     \<and> map ob_job (jd_outbox db) = map jb_id (jd_jobs db)"

lemma jobs_ok_locks [simp]: "jobs_ok (db\<lparr>jd_locks := x\<rparr>) = jobs_ok db"
  by (simp add: jobs_ok_def)

lemma jobs_ok_outbox:
  assumes "\<And>r. ob_job (f r) = ob_job r"
  shows "jobs_ok (db\<lparr>jd_outbox := update_where P f (jd_outbox db)\<rparr>) = jobs_ok db"
  using map_update_where_same [of ob_job f P "jd_outbox db", OF assms] by (simp add: jobs_ok_def)

lemma mark_outbox_ok [simp]: "jobs_ok (mark_outbox now i s e db) = jobs_ok db"
  unfolding mark_outbox_def by (rule jobs_ok_outbox) simp

text \<open>An update that keeps the identity of a job and its well-formedness.\<close>

lemma jobs_ok_update:
  assumes "jobs_ok db"
    and "\<And>j. j \<in> set (jd_jobs db) \<Longrightarrow> P j \<Longrightarrow> job_ok (f j) \<and> jb_id (f j) = jb_id j \<and> job_key (f j) = job_key j"
  shows "jobs_ok (db\<lparr>jd_jobs := update_where P f (jd_jobs db)\<rparr>)"
proof -
  have same: "map g (update_where P f (jd_jobs db)) = map g (jd_jobs db)"
    if "\<And>j. j \<in> set (jd_jobs db) \<Longrightarrow> P j \<Longrightarrow> g (f j) = g j" for g :: "job \<Rightarrow> 'a"
    using that by (simp add: update_where_def)
  have "map jb_id (update_where P f (jd_jobs db)) = map jb_id (jd_jobs db)"
    "map job_key (update_where P f (jd_jobs db)) = map job_key (jd_jobs db)"
    using assms(2) by (auto intro!: same)
  moreover have "list_all job_ok (update_where P f (jd_jobs db))"
    using assms by (auto simp: jobs_ok_def list_all_iff set_update_where)
  ultimately show ?thesis using assms(1) by (simp add: jobs_ok_def)
qed

lemma get_jobD: "get_job i db = Some j \<Longrightarrow> j \<in> set (jd_jobs db) \<and> jb_id j = i"
  by (auto simp: get_job_def dest: fetchone_SomeD)

lemma jobs_ok_get: "jobs_ok db \<Longrightarrow> get_job i db = Some j \<Longrightarrow> job_ok j"
  using get_jobD by (fastforce simp: jobs_ok_def list_all_iff)

lemma job_unique: "jobs_ok db \<Longrightarrow> get_job i db = Some row \<Longrightarrow> j \<in> set (jd_jobs db) \<Longrightarrow> jb_id j = i \<Longrightarrow> j = row"
  using get_jobD [of i db row] distinct_key_unique [of jb_id "jd_jobs db" j row] by (simp add: jobs_ok_def)

lemma set_job_ok:
  assumes "jobs_ok db" "get_job i db = Some row" "job_ok (f row)" "jb_id (f row) = jb_id row" "job_key (f row) = job_key row"
  shows "jobs_ok (set_job i f db)"
  unfolding set_job_def using assms(1)
proof (rule jobs_ok_update)
  fix j assume "j \<in> set (jd_jobs db)" "jb_id j = i"
  then have "j = row" using job_unique [OF assms(1,2)] by blast
  with assms(3-5) show "job_ok (f j) \<and> jb_id (f j) = jb_id j \<and> job_key (f j) = job_key j" by simp
qed

lemma status_facts [simp]:
  "''queued'' \<in> set JOB_STATUSES" "''running'' \<in> set JOB_STATUSES" "''succeeded'' \<in> set JOB_STATUSES"
  "''failed'' \<in> set JOB_STATUSES" "''cancelled'' \<in> set JOB_STATUSES" "''dead_letter'' \<in> set JOB_STATUSES"
  by (simp_all add: JOB_STATUSES_def)

lemma create_job_ok:
  assumes "jobs_ok db" "plain_id fresh"
    and "create_job fresh fresh' now tenant user session request operation payload order task m avail db = Inr (j, db')"
  shows "jobs_ok db'"
proof -
  obtain op where op: "validate_operation operation = Inr op"
    using assms(3) by (auto simp: create_job_def split: sum.splits)
  let ?tenant = "py_strip tenant" and ?user = "py_strip user" and ?session = "py_strip session"
    and ?request = "clip 128 (py_strip request)"
  have ne: "?tenant \<noteq> []" "?user \<noteq> []" "?session \<noteq> []" "?request \<noteq> []"
    using assms(3) op by (auto simp: create_job_def Let_def split: if_splits)
  obtain scope where scope: "resource_scope_from_payload payload order = Inr scope"
    using assms(3) op ne by (auto simp: create_job_def Let_def split: sum.splits)
  show ?thesis
  proof (cases "fetchone (same_key ?tenant ?user ?session ?request op) (jd_jobs db)")
    case (Some current)
    have cur: "current \<in> set (jd_jobs db)" using Some by (auto dest: fetchone_SomeD)
    then have ok: "job_ok current" using assms(1) by (simp add: jobs_ok_def list_all_iff)
    have "fetchone (\<lambda>j. jb_id j = jb_id current) (jd_jobs db) = Some current"
      using cur assms(1) by (simp add: fetchone_key_iff jobs_ok_def)
    then have get: "get_job (jb_id current) db = Some current" by (simp add: get_job_def)
    have "jobs_ok (set_job (jb_id current) (\<lambda>_. current\<lparr>jb_task := t, jb_updated := now\<rparr>) db)" for t
      using ok by (intro set_job_ok [OF assms(1) get]) (simp_all add: job_ok_def job_key_def)
    then show ?thesis
      using assms op ne scope Some by (auto simp: create_job_def Let_def split: if_splits)
  next
    case None
    let ?j = "new_job (''document-job-'' @ fresh) now ?tenant ?user ?session ?request op payload order task (max 1 (min m 20))
        (case avail of Some t \<Rightarrow> t | None \<Rightarrow> now)"
    have db': "j = ?j" "jb_id ?j \<notin> jb_id ` set (jd_jobs db)" "db' = db\<lparr>jd_jobs := jd_jobs db @ [?j],
        jd_outbox := jd_outbox db @ [new_outbox (''document-outbox-'' @ fresh') (jb_id ?j) op (case avail of Some t \<Rightarrow> t | None \<Rightarrow> now) now]\<rparr>"
      using assms(3) op ne scope None by (auto simp: create_job_def Let_def new_job_def split: if_splits)
    have "plain_id (''document-job-'' @ fresh)"
      using assms(2) by (simp add: plain_id_def py_lower_def py_lower_char_def Let_def)
    then have "job_ok ?j"
      using ne op scope by (auto simp: job_ok_def new_job_def validate_operation_def Let_def split: if_splits)
    moreover have "job_key ?j \<notin> job_key ` set (jd_jobs db)"
      using None by (auto simp: fetchone_None_iff same_key_def job_key_def new_job_def)
    ultimately show ?thesis
      using assms(1) db'(2) unfolding db'(3) by (simp add: jobs_ok_def new_outbox_def)
  qed
qed

lemma jd_locks_same [simp]: "db\<lparr>jd_locks := jd_locks db\<rparr> = db"
  by simp

lemma acquire_frame:
  assumes "acquire_resource_lock now tenant t i owner secs db = Inr (l, db')"
  obtains locks where "db' = db\<lparr>jd_locks := locks\<rparr>"
  using assms by (auto simp: acquire_resource_lock_def Let_def split: if_splits sum.splits prod.splits)

lemma get_job_locks [simp]: "get_job i (db\<lparr>jd_locks := x\<rparr>) = get_job i db"
  by (simp add: get_job_def)

lemma claimed_job_ok:
  assumes "job_ok row" "jb_attempt row + 1 \<le> (if jb_max row = 0 then 1 else jb_max row)"
  shows "job_ok (claimed_job now worker secs k row)" "jb_id (claimed_job now worker secs k row) = jb_id row"
    "job_key (claimed_job now worker secs k row) = job_key row"
  using assms by (auto simp: job_ok_def claimed_job_def job_key_def split: if_splits)

lemma claim_due_ok:
  assumes "jobs_ok db" "get_job (jb_id row) db = Some row" "jb_attempt row + 1 \<le> (if jb_max row = 0 then 1 else jb_max row)"
    and "claim_due now worker secs expired row db = Inr (r, db')"
  shows "jobs_ok db'"
proof -
  note row = claimed_job_ok [OF jobs_ok_get [OF assms(1,2)] assms(3)]
  have grant: "jobs_ok (set_job (jb_id row) (\<lambda>_. claimed_job now worker secs k row) (db\<lparr>jd_locks := x\<rparr>))" for k x
    using assms(1,2) row by (intro set_job_ok [where row = row]) simp_all
  have grant0: "jobs_ok (set_job (jb_id row) (\<lambda>_. claimed_job now worker secs k row) db)" for k
    using grant [of k "jd_locks db"] by simp
  show ?thesis
    using assms(1,4) grant grant0 unfolding claim_due_def Let_def
    by (auto split: sum.splits option.splits prod.splits elim!: acquire_frame)
qed

lemma claim_ok:
  assumes "jobs_ok db" "claim now i worker secs db = Inr (r, db')"
  shows "jobs_ok db'"
proof (cases "get_job i db")
  case None
  then show ?thesis using assms by (auto simp: claim_def Let_def split: if_splits)
next
  case (Some row)
  have ok: "job_ok row" and i: "jb_id row = i" using jobs_ok_get [OF assms(1) Some] get_jobD [OF Some] by auto
  have dead: "jobs_ok (set_job i (dead_letter_job now) (db\<lparr>jd_locks := x\<rparr>))" for x
    using assms(1) Some ok
    by (intro set_job_ok [where row = row]) (auto simp: dead_letter_job_def job_ok_def job_key_def)
  have dead0: "jobs_ok (set_job i (dead_letter_job now) db)" using dead [of "jd_locks db"] by simp
  have due: "jobs_ok db''" if "claim_due now (py_strip worker) secs e row db = Inr (r', db'')"
    "jb_attempt row + 1 \<le> (if jb_max row = 0 then 1 else jb_max row)" for e r' db''
    using claim_due_ok [OF assms(1) _ that(2,1)] Some i by simp
  show ?thesis
    using assms Some dead dead0 due unfolding claim_def Let_def
    by (auto simp: not_less split: if_splits sum.splits)
qed

lemma with_leaseD:
  assumes "jobs_ok db" "with_lease i worker token f db = Inr (row, db')"
  shows "get_job i db = Some row" "leased_by i worker token row"
    "db' = set_job i f db"
proof -
  show get: "get_job i db = Some row" using assms(2) by (auto simp: with_lease_def split: option.splits if_splits)
  have cnt: "rowcount (leased_by i worker token) (jd_jobs db) = 1"
    and db': "db' = db\<lparr>jd_jobs := update_where (leased_by i worker token) f (jd_jobs db)\<rparr>"
    using assms(2) get by (auto simp: with_lease_def split: if_splits)
  obtain j where "j \<in> set (jd_jobs db)" "leased_by i worker token j"
    using cnt rowcount_pos_iff [of "leased_by i worker token" "jd_jobs db"] by auto
  then show lb: "leased_by i worker token row" using job_unique [OF assms(1) get, of j] by (auto simp: leased_by_def)
  have "update_where (leased_by i worker token) f (jd_jobs db) = update_where (\<lambda>j. jb_id j = i) f (jd_jobs db)"
    unfolding update_where_def using job_unique [OF assms(1) get] lb by (intro map_cong refl) (auto simp: leased_by_def)
  then show "db' = set_job i f db" by (simp add: db' set_job_def)
qed

lemma finish_lease_ok:
  assumes "jobs_ok db" "finish_lease i worker token f db = Inr db'"
    and "\<And>j. job_ok j \<Longrightarrow> job_ok (f j) \<and> jb_id (f j) = jb_id j \<and> job_key (f j) = job_key j"
  shows "jobs_ok db'"
proof -
  obtain row db1 x where w: "with_lease i worker token f db = Inr (row, db1)" and db': "db' = db1\<lparr>jd_locks := x\<rparr>"
    using assms(2) by (auto simp: finish_lease_def split: sum.splits)
  note lease = with_leaseD [OF assms(1) w]
  have "jobs_ok db1"
    using set_job_ok [OF assms(1) lease(1)] assms(3) [OF jobs_ok_get [OF assms(1) lease(1)]] lease(3) by simp
  with db' show ?thesis by auto
qed

lemma heartbeat_ok:
  assumes "jobs_ok db" "heartbeat now i worker token secs db = Inr (r, db')"
  shows "jobs_ok db'"
proof -
  let ?f = "\<lambda>j. j\<lparr>jb_expires := Some (lease_end now secs), jb_updated := now\<rparr>"
  obtain row db1 where w: "with_lease i worker token ?f db = Inr (row, db1)"
    using assms(2) unfolding heartbeat_def Let_def by (auto split: sum.splits)
  have db': "db' = db1\<lparr>jd_locks := jd_locks db'\<rparr>"
    using assms(2) w unfolding heartbeat_def Let_def by (auto split: sum.splits option.splits if_splits)
  note lease = with_leaseD [OF assms(1) w]
  have "job_ok row" by (rule jobs_ok_get [OF assms(1) lease(1)])
  then have "jobs_ok db1"
    using set_job_ok [OF assms(1) lease(1), of ?f] lease(2,3) by (simp add: job_ok_def job_key_def leased_by_def)
  with db' show ?thesis by (metis jobs_ok_locks)
qed

lemma complete_ok:
  assumes "jobs_ok db" "complete_job now i worker token result db = Inr (r, db')"
  shows "jobs_ok db'"
proof -
  let ?f = "\<lambda>j. j\<lparr>jb_status := ''succeeded'', jb_result := result, jb_updated := now, jb_completed := Some now,
                    jb_owner := None, jb_expires := None\<rparr>"
  obtain db1 where fin: "finish_lease i worker token ?f db = Inr db1" and db': "db' = mark_outbox now i ''sent'' [] db1"
    using assms(2) by (auto simp: complete_job_def split: sum.splits)
  have "job_ok (?f j) \<and> jb_id (?f j) = jb_id j \<and> job_key (?f j) = job_key j" if "job_ok j" for j
    using that by (simp add: job_ok_def job_key_def)
  from finish_lease_ok [OF assms(1) fin this] show ?thesis by (simp add: db')
qed

lemma fail_plan_status:
  "fst (fail_plan now retryable backoff seen) \<in> {''queued'', ''dead_letter'', ''failed''}"
  by (simp add: fail_plan_def)

lemma fail_ok:
  assumes "jobs_ok db" "fail_job now seen i worker token msg retryable backoff db = Inr (r, db')"
  shows "jobs_ok db'"
proof -
  obtain current where cur: "seen = Some current" using assms(2) by (cases seen) (auto simp: fail_job_def)
  obtain status avail completed where "fail_plan now retryable backoff current = (status, avail, completed)"
    by (metis prod_cases3)
  note seen = cur this
  let ?f = "\<lambda>j. j\<lparr>jb_status := status, jb_available := avail, jb_error := clip 1000 msg, jb_updated := now,
                   jb_completed := completed, jb_owner := None, jb_expires := None\<rparr>"
  obtain db1 where fin: "finish_lease i worker token ?f db = Inr db1"
    and db': "db' = (if status \<noteq> ''queued'' then mark_outbox now i ''failed'' (clip 1000 msg) db1 else db1)"
    using assms(2) seen by (auto simp: fail_job_def split: sum.splits)
  have "status \<in> {''queued'', ''dead_letter'', ''failed''}" using fail_plan_status [of now retryable backoff current] seen(2) by simp
  then have "job_ok (?f j) \<and> jb_id (?f j) = jb_id j \<and> job_key (?f j) = job_key j" if "job_ok j" for j
    using that by (auto simp: job_ok_def job_key_def)
  from finish_lease_ok [OF assms(1) fin this] db' show ?thesis by auto
qed

lemma cancelled_ok: "job_ok j \<Longrightarrow> job_ok (cancelled_job now reason j) \<and> jb_id (cancelled_job now reason j) = jb_id j
    \<and> job_key (cancelled_job now reason j) = job_key j"
  by (simp add: job_ok_def job_key_def cancelled_job_def)

lemma cancel_ok: "jobs_ok db \<Longrightarrow> jobs_ok (snd (cancel_job now i reason db))"
  unfolding cancel_job_def Let_def snd_conv
  by (rule jobs_ok_update) (auto simp: jobs_ok_def list_all_iff dest: cancelled_ok)

lemma forget_frame:
  assumes "forget_locks row db = Inr db'"
  obtains x where "db' = db\<lparr>jd_locks := x\<rparr>"
  using assms by (auto simp: forget_locks_def split: sum.splits)

lemma cancel_rows_ok: "jobs_ok db \<Longrightarrow> cancel_rows now reason rows db = Inr db' \<Longrightarrow> jobs_ok db'"
proof (induction rows arbitrary: db)
  case (Cons row rows)
  show ?case
  proof (cases "jb_status row \<in> {''queued'', ''running''}")
    case False
    with Cons show ?thesis by simp
  next
    case True
    then obtain db1 where f: "forget_locks row db = Inr db1"
      using Cons.prems(2) by (cases "forget_locks row db") simp_all
    obtain x where "db1 = db\<lparr>jd_locks := x\<rparr>" by (rule forget_frame [OF f])
    then have ok1: "jobs_ok db1" using Cons.prems(1) by simp
    have "job_ok j" if "j \<in> set (jd_jobs db1)" for j using ok1 that by (simp add: jobs_ok_def list_all_iff)
    then have ok: "jobs_ok (set_job (jb_id row) (cancelled_job now reason) db1)"
      unfolding set_job_def using cancelled_ok by (intro jobs_ok_update [OF ok1]) blast
    have "jobs_ok ((set_job (jb_id row) (cancelled_job now reason) db1)\<lparr>jd_outbox := update_where (\<lambda>o'. ob_job o' = jb_id row)
                  (\<lambda>o'. o'\<lparr>ob_status := ''cancelled'', ob_error := clip 1000 (if reason = [] then ''cancelled'' else reason),
                           ob_dispatched := Some now\<rparr>) (jd_outbox db1)\<rparr>)"
      using ok jobs_ok_outbox [of "\<lambda>o'. o'\<lparr>ob_status := ''cancelled'', ob_error := clip 1000 (if reason = [] then ''cancelled'' else reason),
                           ob_dispatched := Some now\<rparr>" _ "set_job (jb_id row) (cancelled_job now reason) db1"]
      by (simp add: set_job_def)
    from Cons.IH [OF this] Cons.prems(2) show ?thesis
      by (simp only: cancel_rows.simps f sum.case True not_True_eq_False if_False)
  qed
qed simp

lemma forget_rows_frame:
  assumes "forget_rows rows db = Inr db'"
  obtains x where "db' = db\<lparr>jd_locks := x\<rparr>"
  using assms
proof (induction rows arbitrary: db thesis)
  case Nil
  then show ?case by (metis forget_rows.simps(1) job_db.surjective job_db.update_convs(3) old.unit.exhaust sum.inject(2))
next
  case (Cons row rows)
  obtain db1 where f: "forget_locks row db = Inr db1" using Cons.prems(2) by (auto split: sum.splits)
  obtain x where x: "db1 = db\<lparr>jd_locks := x\<rparr>" by (rule forget_frame [OF f])
  obtain y where "db' = db1\<lparr>jd_locks := y\<rparr>" using Cons.IH [of db1] Cons.prems(2) f by auto
  with x Cons.prems(1) show ?case by simp
qed

lemma cleanup_ok:
  assumes "jobs_ok db" "cleanup_session s db = Inr (r, db')"
  shows "jobs_ok db'"
proof (cases "py_strip s = []")
  case True
  with assms show ?thesis by (simp add: cleanup_session_def Let_def)
next
  case False
  let ?rows = "filter (\<lambda>j. jb_session j = py_strip s) (jd_jobs db)"
  obtain db1 where f: "forget_rows ?rows db = Inr db1"
    and db': "db' = db1\<lparr>jd_outbox := filter (\<lambda>o'. ob_job o' \<notin> jb_id ` set ?rows) (jd_outbox db1),
                       jd_jobs := filter (\<lambda>j. jb_session j \<noteq> py_strip s) (jd_jobs db1)\<rparr>"
    using assms(2) False by (cases "forget_rows ?rows db") (auto simp: cleanup_session_def Let_def)
  obtain x where x: "db1 = db\<lparr>jd_locks := x\<rparr>" by (rule forget_rows_frame [OF f])
  have ids: "map ob_job (jd_outbox db) = map jb_id (jd_jobs db)" "distinct (map jb_id (jd_jobs db))"
    using assms(1) by (simp_all add: jobs_ok_def)
  have "map ob_job (filter (\<lambda>o'. ob_job o' \<notin> jb_id ` set ?rows) (jd_outbox db)) = filter (\<lambda>i. i \<notin> jb_id ` set ?rows) (map ob_job (jd_outbox db))"
    by (simp add: filter_map comp_def)
  also have "\<dots> = filter (\<lambda>i. i \<notin> jb_id ` set ?rows) (map jb_id (jd_jobs db))" by (simp only: ids(1))
  also have "\<dots> = map jb_id (filter (\<lambda>j. jb_id j \<notin> jb_id ` set ?rows) (jd_jobs db))" by (simp add: filter_map comp_def)
  also have "filter (\<lambda>j. jb_id j \<notin> jb_id ` set ?rows) (jd_jobs db) = filter (\<lambda>j. jb_session j \<noteq> py_strip s) (jd_jobs db)"
    using distinct_key_unique [OF ids(2)] by (intro filter_cong) auto
  finally show ?thesis
    using assms(1) by (auto simp: db' x jobs_ok_def list_all_iff distinct_map_filter)
qed

section \<open>Histories\<close>

datatype job_op =
    J_create string string string string string string string job_payload "string option" "string option" int "time option"
  | J_claim string string int
  | J_heartbeat string string int int
  | J_complete string string int string
  | J_fail "job option" string string int string bool "int option"
  | J_cancel string string
  | J_cancel_session string string
  | J_cleanup string
  | J_acquire string string string string int
  | J_renew string string string string int int
  | J_release string string string string int

text \<open>The database after a call: unchanged when it raised.\<close>

definition jdb_after :: "job_error + 'a \<times> job_db \<Rightarrow> job_db \<Rightarrow> job_db" where
  "jdb_after res db = (case res of Inl e \<Rightarrow> db | Inr (x, db') \<Rightarrow> db')"

fun job_step :: "job_db \<Rightarrow> time \<times> job_op \<Rightarrow> job_db" where
  "job_step db (now, J_create fresh fresh' tenant user session request operation payload order task m avail) =
     jdb_after (create_job fresh fresh' now tenant user session request operation payload order task m avail db) db"
| "job_step db (now, J_claim i worker secs) = jdb_after (claim now i worker secs db) db"
| "job_step db (now, J_heartbeat i worker token secs) = jdb_after (heartbeat now i worker token secs db) db"
| "job_step db (now, J_complete i worker token result) = jdb_after (complete_job now i worker token result db) db"
| "job_step db (now, J_fail seen i worker token msg retryable backoff) =
     jdb_after (fail_job now seen i worker token msg retryable backoff db) db"
| "job_step db (now, J_cancel i reason) = snd (cancel_job now i reason db)"
| "job_step db (now, J_cancel_session s reason) = jdb_after (cancel_session now s reason db) db"
| "job_step db (now, J_cleanup s) = jdb_after (cleanup_session s db) db"
| "job_step db (now, J_acquire tenant t i owner secs) = jdb_after (acquire_resource_lock now tenant t i owner secs db) db"
| "job_step db (now, J_renew tenant t i owner token secs) = jdb_after (renew_resource_lock now tenant t i owner token secs db) db"
| "job_step db (now, J_release tenant t i owner token) = jdb_after (release_resource_lock tenant t i owner token db) db"

text \<open>Direct users of the lock operations do not pose as jobs, and fresh identifiers are plain.\<close>

definition external :: "string \<Rightarrow> bool" where
  "external owner \<longleftrightarrow> take 13 owner \<noteq> ''document-job:''"

fun op_ok :: "job_op \<Rightarrow> bool" where
  "op_ok (J_create fresh fresh' tenant user session request operation payload order task m avail) = plain_id fresh"
| "op_ok (J_acquire tenant t i owner secs) = external (py_strip owner)"
| "op_ok (J_renew tenant t i owner token secs) = external owner"
| "op_ok (J_release tenant t i owner token) = external owner"
| "op_ok _ = True"

lemma jdb_afterI: "P db \<Longrightarrow> (\<And>x db'. res = Inr (x, db') \<Longrightarrow> P db') \<Longrightarrow> P (jdb_after res db)"
  by (auto simp: jdb_after_def split: sum.splits)

lemma renew_frame: "renew_resource_lock now tenant t i owner token secs db = Inr (l, db') \<Longrightarrow> \<exists>x. db' = db\<lparr>jd_locks := x\<rparr>"
  by (auto simp: renew_resource_lock_def Let_def split: sum.splits option.splits if_splits)

lemma release_frame: "release_resource_lock tenant t i owner token db = Inr (b, db') \<Longrightarrow> \<exists>x. db' = db\<lparr>jd_locks := x\<rparr>"
  by (auto simp: release_resource_lock_def drop_lock_def split: sum.splits prod.splits)

lemma cancel_session_ok:
  assumes "jobs_ok db" "cancel_session now s reason db = Inr (r, db')"
  shows "jobs_ok db'"
proof (cases "py_strip s = []")
  case True
  with assms show ?thesis by (simp add: cancel_session_def Let_def)
next
  case False
  let ?rows = "filter (\<lambda>j. jb_session j = py_strip s) (jd_jobs db)"
  have "cancel_rows now reason ?rows db = Inr db'"
    using assms(2) False by (cases "cancel_rows now reason ?rows db") (auto simp: cancel_session_def Let_def)
  then show ?thesis by (rule cancel_rows_ok [OF assms(1)])
qed

lemma job_step_ok:
  assumes "jobs_ok db" "op_ok op"
  shows "jobs_ok (job_step db (now, op))"
proof -
  note after = jdb_afterI [of jobs_ok, OF assms(1)]
  have locks: "jobs_ok db'" if "\<exists>x. db' = db\<lparr>jd_locks := x\<rparr>" for db' using that assms(1) by auto
  show ?thesis
  proof (cases op)
    case J_create
    with assms(2) show ?thesis by (simp, intro after) (rule create_job_ok [OF assms(1)])
  next
    case J_claim
    then show ?thesis by (simp, intro after) (rule claim_ok [OF assms(1)])
  next
    case J_heartbeat
    then show ?thesis by (simp, intro after) (rule heartbeat_ok [OF assms(1)])
  next
    case J_complete
    then show ?thesis by (simp, intro after) (rule complete_ok [OF assms(1)])
  next
    case J_fail
    then show ?thesis by (simp, intro after) (rule fail_ok [OF assms(1)])
  next
    case J_cancel
    then show ?thesis using cancel_ok [OF assms(1)] by simp
  next
    case J_cancel_session
    then show ?thesis by (simp, intro after) (rule cancel_session_ok [OF assms(1)])
  next
    case J_cleanup
    then show ?thesis by (simp, intro after) (rule cleanup_ok [OF assms(1)])
  next
    case J_acquire
    then show ?thesis by (simp, intro after locks) (metis acquire_frame)
  next
    case J_renew
    then show ?thesis by (simp, intro after locks) (rule renew_frame)
  next
    case J_release
    then show ?thesis by (simp, intro after locks) (rule release_frame)
  qed
qed

text \<open>C19. Under any sequence of operations the queue stays well formed: statuses and operations are known
  ones, attempts never exceed the budget of at most 20, exactly the running jobs have an owner and a lease,
  no two jobs share an id or an idempotency key, and every job has exactly one outbox row.\<close>

theorem jobs_well_formed:
  assumes "jobs_ok db" "\<forall>(now, op) \<in> set ops. op_ok op"
  shows "jobs_ok (foldl job_step db ops)"
  using assms
proof (induction ops arbitrary: db)
  case (Cons e ops)
  obtain now op where e: "e = (now, op)" by fastforce
  with Cons have "jobs_ok (job_step db e)" by (auto intro: job_step_ok)
  with Cons show ?case by simp
qed simp

section \<open>Locks\<close>

definition job_scope :: "job \<Rightarrow> (string \<times> string) option" where
  "job_scope j = (case resource_scope_from_payload (jb_payload j) (jb_order j) of Inr s \<Rightarrow> s | Inl e \<Rightarrow> None)"

definition lock_scope :: "resource_lock \<Rightarrow> string \<times> string \<times> string" where
  "lock_scope l = (rl_tenant l, rl_type l, rl_id l)"

text \<open>The lock row a job believes to hold.\<close>

definition my_lock :: "job \<Rightarrow> resource_lock \<Rightarrow> bool" where
  "my_lock j l \<longleftrightarrow>
     (\<exists>t i. job_scope j = Some (t, i)
        \<and> held_lock (jb_tenant j) t i (job_lock_owner (jb_id j) (jb_attempt j)) (expected_lock_token j) l)"

definition lease_over :: "time \<Rightarrow> job \<Rightarrow> bool" where
  "lease_over now j \<longleftrightarrow> (case jb_expires j of Some t \<Rightarrow> t \<le> now | None \<Rightarrow> False)"

text \<open>A running job with a scope has its lock row, expiring with its lease, unless the lease is over.\<close>

definition covered :: "time \<Rightarrow> resource_lock list \<Rightarrow> job \<Rightarrow> bool" where
  "covered now locks j \<longleftrightarrow>
     (jb_status j = ''running'' \<and> job_scope j \<noteq> None \<longrightarrow>
        (\<exists>l \<in> set locks. my_lock j l \<and> rl_expires l = jb_expires j) \<or> lease_over now j)"

definition locks_ok :: "time \<Rightarrow> job_db \<Rightarrow> bool" where
  "locks_ok now db \<longleftrightarrow> distinct (map lock_scope (jd_locks db)) \<and> (\<forall>j \<in> set (jd_jobs db). covered now (jd_locks db) j)"

lemma covered_mono: "covered now locks j \<Longrightarrow> now \<le> now' \<Longrightarrow> covered now' locks j"
  by (auto simp: covered_def lease_over_def split: option.splits)

lemma locks_ok_mono: "locks_ok now db \<Longrightarrow> now \<le> now' \<Longrightarrow> locks_ok now' db"
  using covered_mono by (auto simp: locks_ok_def)

lemma covered_keep:
  assumes "covered now locks j" "\<And>l. l \<in> set locks \<Longrightarrow> my_lock j l \<Longrightarrow> l \<in> set locks'"
  shows "covered now locks' j"
  using assms unfolding covered_def by blast

lemma covered_not_running: "jb_status j \<noteq> ''running'' \<Longrightarrow> covered now locks j"
  by (simp add: covered_def)

lemma my_lock_owner: "my_lock j l \<Longrightarrow> rl_owner l = job_lock_owner (jb_id j) (jb_attempt j)"
  by (auto simp: my_lock_def held_lock_def)

lemma external_not_job: "external owner \<Longrightarrow> owner \<noteq> job_lock_owner i n"
  by (auto simp: external_def job_lock_owner_def)

text \<open>Dropping a lock row of another owner.\<close>

lemma covered_drop:
  assumes "covered now locks j" "owner \<noteq> job_lock_owner (jb_id j) (jb_attempt j)"
  shows "covered now (snd (drop_lock tenant t i owner token locks)) j"
  using assms(1) by (rule covered_keep) (use assms(2) my_lock_owner in \<open>auto simp: drop_lock_def held_lock_def\<close>)

lemma distinct_drop: "distinct (map lock_scope locks) \<Longrightarrow> distinct (map lock_scope (snd (drop_lock tenant t i owner token locks)))"
  by (simp add: drop_lock_def distinct_map_filter)

text \<open>Taking a lock: only a row whose lease is over, or the caller's own, is overwritten.\<close>

lemma same_scope_iff: "same_scope tenant t i l \<longleftrightarrow> lock_scope l = (tenant, t, i)"
  by (auto simp: same_scope_def lock_scope_def)

lemma take_lock_distinct:
  assumes "distinct (map lock_scope locks)"
  shows "distinct (map lock_scope (snd (take_lock now tenant t i owner secs locks)))"
proof (cases "fetchone (same_scope tenant t i) locks")
  case None
  then have "(tenant, t, i) \<notin> lock_scope ` set locks"
    by (auto simp: fetchone_None_iff same_scope_iff)
  with None assms show ?thesis by (simp add: take_lock_def Let_def lock_scope_def)
next
  case (Some row)
  then have row: "lock_scope row = (tenant, t, i)" by (auto simp: same_scope_iff dest: fetchone_SomeD)
  have "map lock_scope (update_where (same_scope tenant t i) (\<lambda>_. row\<lparr>rl_owner := a, rl_token := b, rl_expires := c, rl_updated := d\<rparr>) locks)
      = map lock_scope locks" for a b c d
    using row by (auto simp: update_where_def same_scope_iff lock_scope_def)
  with Some assms show ?thesis by (simp add: take_lock_def Let_def)
qed

lemma covered_take:
  assumes "covered now locks j" "distinct (map lock_scope locks)" "owner \<noteq> job_lock_owner (jb_id j) (jb_attempt j)"
  shows "covered now (snd (take_lock now tenant t i owner secs locks)) j"
proof (cases "fetchone (same_scope tenant t i) locks")
  case None
  then show ?thesis using covered_keep [OF assms(1)] by (simp add: take_lock_def Let_def)
next
  case (Some row)
  note row = fetchone_SomeD [OF Some]
  show ?thesis
  proof (cases "my_lock j row \<and> rl_expires row = jb_expires j")
    case True
    then have "rl_owner row \<noteq> owner" using my_lock_owner [of j row] assms(3) by metis
    show ?thesis
    proof (cases "resource_lock_expired (rl_expires row) now")
      case expired: True
      then have "lease_over now j" using True by (auto simp: resource_lock_expired_def lease_over_def split: option.splits)
      then show ?thesis by (simp add: covered_def)
    next
      case False
      with Some \<open>rl_owner row \<noteq> owner\<close> assms(1) show ?thesis by (simp add: take_lock_def Let_def)
    qed
  next
    case False
    have only: "l = row" if "l \<in> set locks" "same_scope tenant t i l" for l
      using that row distinct_key_unique [OF assms(2), of l row] by (simp add: same_scope_iff)
    have "(\<exists>l \<in> set (snd (take_lock now tenant t i owner secs locks)). my_lock j l \<and> rl_expires l = jb_expires j)"
      if "l \<in> set locks" "my_lock j l" "rl_expires l = jb_expires j" for l
    proof -
      have "\<not> same_scope tenant t i l" using only [OF that(1)] that(2,3) False by auto
      then have "l \<in> set (snd (take_lock now tenant t i owner secs locks))"
        using Some that(1) by (auto simp: take_lock_def Let_def intro: update_where_untouched)
      with that(2,3) show ?thesis by blast
    qed
    with assms(1) show ?thesis by (auto simp: covered_def)
  qed
qed

lemma taken_lock:
  assumes "take_lock now tenant t i owner secs locks = (Some l, locks')"
  shows "l \<in> set locks'" "held_lock tenant t i owner (rl_token l) l" "rl_expires l = Some (lease_end now secs)"
proof -
  have "l \<in> set locks' \<and> held_lock tenant t i owner (rl_token l) l \<and> rl_expires l = Some (lease_end now secs)"
  proof (cases "fetchone (same_scope tenant t i) locks")
    case None
    with assms show ?thesis by (auto simp: take_lock_def Let_def held_lock_def same_scope_def)
  next
    case (Some row)
    note row = fetchone_SomeD [OF Some]
    with Some assms show ?thesis
      by (auto simp: take_lock_def Let_def held_lock_def same_scope_def split: if_splits intro!: update_where_touched [of row])
  qed
  then show "l \<in> set locks'" "held_lock tenant t i owner (rl_token l) l" "rl_expires l = Some (lease_end now secs)" by simp_all
qed

lemma set_job_jobs:
  assumes "jobs_ok db" "get_job i db = Some row" "j \<in> set (jd_jobs (set_job i f db))"
  shows "(j \<in> set (jd_jobs db) \<and> jb_id j \<noteq> i) \<or> j = f row"
proof -
  obtain j0 where j0: "j0 \<in> set (jd_jobs db)" "j = (if jb_id j0 = i then f j0 else j0)"
    using assms(3) by (auto simp: set_job_def set_update_where)
  then show ?thesis using job_unique [OF assms(1,2), of j0] by (auto split: if_splits)
qed

lemma set_job_locks [simp]: "jd_locks (set_job i f db) = jd_locks db"
  by (simp add: set_job_def)

text \<open>Replacing one job, with the lock table changed at most where the others do not look.\<close>

lemma locks_ok_set_job:
  assumes "jobs_ok db" "get_job i db = Some row" "distinct (map lock_scope locks)"
    and "\<And>j. j \<in> set (jd_jobs db) \<Longrightarrow> jb_id j \<noteq> i \<Longrightarrow> covered now locks j" "covered now locks (f row)"
  shows "locks_ok now (set_job i f (db\<lparr>jd_locks := locks\<rparr>))"
  unfolding locks_ok_def
proof (intro conjI ballI)
  fix j assume "j \<in> set (jd_jobs (set_job i f (db\<lparr>jd_locks := locks\<rparr>)))"
  then have "(j \<in> set (jd_jobs db) \<and> jb_id j \<noteq> i) \<or> j = f row"
    using set_job_jobs [of "db\<lparr>jd_locks := locks\<rparr>" i row j f] assms(1,2) by simp
  with assms(4,5) show "covered now (jd_locks (set_job i f (db\<lparr>jd_locks := locks\<rparr>))) j" by auto
qed (simp add: assms(3))

lemma validated_scope:
  assumes "resource_scope_from_payload p w = Inr (Some (t, i))"
  shows "validate_resource_scope t i = Inr (t, i)"
proof -
  have "\<exists>a b. validate_resource_scope a b = Inr (t, i)"
    using assms by (auto simp: resource_scope_from_payload_def Let_def map_sum_def split: explicit_lock.splits if_splits sum.splits)
  then obtain a b where v: "validate_resource_scope a b = Inr (t, i)" by blast
  then have "t \<in> set RESOURCE_LOCK_TYPES" "py_strip i = i" "i \<noteq> []" "length i \<le> 300"
    by (auto simp: validate_resource_scope_def Let_def split: if_splits)
  moreover have "py_lower (py_strip t) = t"
  proof -
    have "list_all (\<lambda>t. py_lower (py_strip t) = t) RESOURCE_LOCK_TYPES" by code_simp
    then show ?thesis using \<open>t \<in> set RESOURCE_LOCK_TYPES\<close> by (simp add: list_all_iff)
  qed
  ultimately show ?thesis by (simp add: validate_resource_scope_def)
qed

lemma acquire_normal:
  assumes "validate_resource_scope t i = Inr (t, i)" "py_strip tenant = tenant" "tenant \<noteq> []" "py_strip owner = owner" "owner \<noteq> []"
  shows "acquire_resource_lock now tenant t i owner secs db =
    Inr (fst (take_lock now tenant t i owner secs (jd_locks db)), db\<lparr>jd_locks := snd (take_lock now tenant t i owner secs (jd_locks db))\<rparr>)"
  using assms by (simp add: acquire_resource_lock_def split: prod.split)

lemma release_job_keeps:
  assumes "release_job_resource_lock row locks = Inr locks'" "distinct (map lock_scope locks)"
  shows "distinct (map lock_scope locks')" "\<And>j. covered now locks j \<Longrightarrow> jb_id j \<noteq> jb_id row \<Longrightarrow> covered now locks' j"
proof -
  show "distinct (map lock_scope locks')"
    using assms distinct_drop by (auto simp: release_job_resource_lock_def split: sum.splits option.splits prod.splits)
  fix j assume "covered now locks j" "jb_id j \<noteq> jb_id row"
  moreover have "job_lock_owner (jb_id row) n \<noteq> job_lock_owner (jb_id j) m" for n m
    using job_lock_owner_inj \<open>jb_id j \<noteq> jb_id row\<close> by metis
  ultimately show "covered now locks' j"
    using assms(1) covered_drop by (auto simp: release_job_resource_lock_def split: sum.splits option.splits prod.splits)
qed

lemma claim_due_locks:
  assumes inv: "jobs_ok db" "locks_ok now db" and get: "get_job (jb_id row) db = Some row"
    and due: "expired \<longrightarrow> lease_over now row" "\<not> expired \<longrightarrow> jb_status row \<noteq> ''running''"
    and res: "claim_due now worker secs expired row db = Inr (r, db')"
  shows "locks_ok now db'"
proof -
  have ok: "job_ok row" by (rule jobs_ok_get [OF inv(1) get])
  have dist: "distinct (map lock_scope (jd_locks db))" and cov: "\<And>j. j \<in> set (jd_jobs db) \<Longrightarrow> covered now (jd_locks db) j"
    using inv(2) by (auto simp: locks_ok_def)
  obtain scope where scope: "resource_scope_from_payload (jb_payload row) (jb_order row) = Inr scope"
    using ok by (auto simp: job_ok_def)
  show ?thesis
  proof (cases scope)
    case None
    have "covered now (jd_locks db) (claimed_job now worker secs None row)"
      using scope None by (simp add: covered_def job_scope_def claimed_job_def)
    from locks_ok_set_job [OF inv(1) get dist cov, of "\<lambda>_. claimed_job now worker secs None row"] this
    show ?thesis using res scope None by (simp add: claim_due_def Let_def)
  next
    case (Some s)
    obtain t i where s: "s = (t, i)" by fastforce
    define locks1 where "locks1 = (if expired then snd (drop_lock (jb_tenant row) t i (job_lock_owner (jb_id row) (jb_attempt row))
        (expected_lock_token row) (jd_locks db)) else jd_locks db)"
    let ?owner = "job_lock_owner (jb_id row) (jb_attempt row + 1)"
    let ?take = "take_lock now (jb_tenant row) t i ?owner secs locks1"
    have other: "job_lock_owner (jb_id row) n \<noteq> job_lock_owner (jb_id j) m" if "jb_id j \<noteq> jb_id row" for j n m
      using that job_lock_owner_inj by metis
    have dist1: "distinct (map lock_scope locks1)" using dist distinct_drop by (simp add: locks1_def)
    have cov1: "covered now locks1 j" if "j \<in> set (jd_jobs db)" "jb_id j \<noteq> jb_id row" for j
      using cov [OF that(1)] covered_drop other [OF that(2)] by (simp add: locks1_def)
    have cov2: "covered now (snd ?take) j" if "j \<in> set (jd_jobs db)" "jb_id j \<noteq> jb_id row" for j
      by (rule covered_take [OF cov1 [OF that] dist1 other [OF that(2)]])
    have dist2: "distinct (map lock_scope (snd ?take))" by (rule take_lock_distinct [OF dist1])
    have acq: "acquire_resource_lock now (jb_tenant row) t i ?owner secs (db\<lparr>jd_locks := locks1\<rparr>) =
        Inr (fst ?take, db\<lparr>jd_locks := snd ?take\<rparr>)"
      using acquire_normal [OF validated_scope [OF scope [unfolded Some s]], of "jb_tenant row" ?owner now secs] ok
      by (simp add: job_ok_def)
    have res': "(case acquire_resource_lock now (jb_tenant row) t i ?owner secs (db\<lparr>jd_locks := locks1\<rparr>) of
                   Inl e \<Rightarrow> Inl e
                 | Inr (None, db') \<Rightarrow> Inr (None, db')
                 | Inr (Some l, db') \<Rightarrow> (let row' = claimed_job now worker secs (Some (rl_token l)) row
                                       in Inr (Some row', set_job (jb_id row) (\<lambda>_. row') db'))) = Inr (r, db')"
      using res scope Some s unfolding claim_due_def Let_def locks1_def by simp
    show ?thesis
    proof (cases "fst ?take")
      case None
      have db': "db' = db\<lparr>jd_locks := snd ?take\<rparr>"
        using res' acq None by simp
      have "covered now (snd ?take) row"
        using due by (auto simp: covered_def)
      then have "covered now (snd ?take) j" if "j \<in> set (jd_jobs db)" for j
        using cov2 that job_unique [OF inv(1) get that] by (cases "jb_id j = jb_id row") auto
      then show ?thesis using dist2 by (simp add: locks_ok_def db')
    next
      case (Some l)
      let ?row' = "claimed_job now worker secs (Some (rl_token l)) row"
      have db': "db' = set_job (jb_id row) (\<lambda>_. ?row') (db\<lparr>jd_locks := snd ?take\<rparr>)"
        using res' acq Some by (simp add: Let_def)
      have "?take = (Some l, snd ?take)" using Some by (metis prod.collapse)
      note taken = taken_lock [OF this]
      have "job_scope ?row' = Some (t, i)" using scope \<open>scope = Some s\<close> s by (simp add: job_scope_def claimed_job_def)
      then have "my_lock ?row' l \<and> rl_expires l = jb_expires ?row'"
        using taken by (simp add: my_lock_def claimed_job_def expected_lock_token_def)
      then have "covered now (snd ?take) ?row'" using taken(1) by (auto simp: covered_def)
      from locks_ok_set_job [OF inv(1) get dist2 cov2, of "\<lambda>_. ?row'"] this show ?thesis by (simp add: db')
    qed
  qed
qed

lemma claim_locks:
  assumes "jobs_ok db" "locks_ok now db" "claim now i worker secs db = Inr (r, db')"
  shows "locks_ok now db'"
proof (cases "get_job i db")
  case None
  then show ?thesis using assms by (auto simp: claim_def Let_def split: if_splits)
next
  case (Some row)
  have i: "jb_id row = i" using get_jobD [OF Some] by simp
  have dist: "distinct (map lock_scope (jd_locks db))" and cov: "\<And>j. j \<in> set (jd_jobs db) \<Longrightarrow> covered now (jd_locks db) j"
    using assms(2) by (auto simp: locks_ok_def)
  have dead: "locks_ok now (set_job i (dead_letter_job now) (db\<lparr>jd_locks := locks\<rparr>))"
    if "locks = jd_locks db \<or> release_job_resource_lock row (jd_locks db) = Inr locks" for locks
  proof (rule locks_ok_set_job [OF assms(1) Some])
    show "distinct (map lock_scope locks)" using that dist release_job_keeps(1) by blast
    show "covered now locks j" if "j \<in> set (jd_jobs db)" "jb_id j \<noteq> i" for j
      using \<open>locks = jd_locks db \<or> _\<close> cov [OF that(1)] release_job_keeps(2) [OF _ dist] that(2) i by blast
    show "covered now locks (dead_letter_job now row)" by (simp add: covered_not_running dead_letter_job_def)
  qed
  have due: "locks_ok now db''"
    if "claim_due now (py_strip worker) secs e row db = Inr (r', db'')" "e \<longrightarrow> lease_over now row" "\<not> e \<longrightarrow> jb_status row \<noteq> ''running''"
    for e r' db''
    by (rule claim_due_locks [OF assms(1,2) _ that(2,3,1)]) (simp add: Some i)
  consider (idle) "db' = db" | (dead0) "db' = set_job i (dead_letter_job now) db"
    | (dead) locks where "db' = set_job i (dead_letter_job now) (db\<lparr>jd_locks := locks\<rparr>)"
      "release_job_resource_lock row (jd_locks db) = Inr locks"
    | (due) e where "claim_due now (py_strip worker) secs e row db = Inr (r, db')" "e \<longrightarrow> lease_over now row"
      "\<not> e \<longrightarrow> jb_status row \<noteq> ''running''"
    using assms(3) Some unfolding claim_def Let_def
    by (auto simp: lease_over_def split: if_splits sum.splits)
  then show ?thesis
  proof cases
    case dead0
    then show ?thesis using dead [of "jd_locks db"] by simp
  qed (use assms(2) dead due in auto)
qed

lemma finish_lease_locks:
  assumes "jobs_ok db" "locks_ok now db" "finish_lease i worker token f db = Inr db'" "\<And>j. jb_status (f j) \<noteq> ''running''"
  shows "locks_ok now db'"
proof -
  obtain row db1 locks where w: "with_lease i worker token f db = Inr (row, db1)"
    and rel: "release_job_resource_lock row (jd_locks db1) = Inr locks" and db': "db' = db1\<lparr>jd_locks := locks\<rparr>"
    using assms(3) by (auto simp: finish_lease_def split: sum.splits)
  note lease = with_leaseD [OF assms(1) w]
  have i: "jb_id row = i" using get_jobD [OF lease(1)] by simp
  have dist: "distinct (map lock_scope (jd_locks db))" and cov: "\<And>j. j \<in> set (jd_jobs db) \<Longrightarrow> covered now (jd_locks db) j"
    using assms(2) by (auto simp: locks_ok_def)
  note keep = release_job_keeps [OF rel [unfolded lease(3) set_job_locks] dist]
  have "locks_ok now (set_job i f (db\<lparr>jd_locks := locks\<rparr>))"
    using keep cov assms(4) i by (intro locks_ok_set_job [OF assms(1) lease(1)]) (auto simp: covered_not_running)
  then show ?thesis by (simp add: db' lease(3) set_job_def locks_ok_def)
qed

lemma locks_ok_outbox [simp]: "locks_ok now (mark_outbox t i s e db) = locks_ok now db"
  by (simp add: locks_ok_def mark_outbox_def)

lemma complete_locks:
  assumes "jobs_ok db" "locks_ok now db" "complete_job now i worker token result db = Inr (r, db')"
  shows "locks_ok now db'"
proof -
  obtain db1 where fin: "finish_lease i worker token (\<lambda>j. j\<lparr>jb_status := ''succeeded'', jb_result := result, jb_updated := now,
      jb_completed := Some now, jb_owner := None, jb_expires := None\<rparr>) db = Inr db1" and db': "db' = mark_outbox now i ''sent'' [] db1"
    using assms(3) by (auto simp: complete_job_def split: sum.splits)
  have "locks_ok now db1" by (rule finish_lease_locks [OF assms(1,2) fin]) simp
  then show ?thesis by (simp add: db')
qed

lemma fail_locks:
  assumes "jobs_ok db" "locks_ok now db" "fail_job now seen i worker token msg retryable backoff db = Inr (r, db')"
  shows "locks_ok now db'"
proof -
  obtain current where cur: "seen = Some current" using assms(3) by (cases seen) (auto simp: fail_job_def)
  obtain status avail completed where plan: "fail_plan now retryable backoff current = (status, avail, completed)"
    by (metis prod_cases3)
  obtain db1 where fin: "finish_lease i worker token (\<lambda>j. j\<lparr>jb_status := status, jb_available := avail, jb_error := clip 1000 msg,
      jb_updated := now, jb_completed := completed, jb_owner := None, jb_expires := None\<rparr>) db = Inr db1"
    and db': "db' = (if status \<noteq> ''queued'' then mark_outbox now i ''failed'' (clip 1000 msg) db1 else db1)"
    using assms(3) cur plan by (auto simp: fail_job_def split: sum.splits)
  have "status \<noteq> ''running''" using fail_plan_status [of now retryable backoff current] plan by auto
  then have "locks_ok now db1" by (intro finish_lease_locks [OF assms(1,2) fin]) simp
  then show ?thesis by (simp add: db')
qed

lemma heartbeat_locks:
  assumes "jobs_ok db" "locks_ok now db" "heartbeat now i worker token secs db = Inr (r, db')"
  shows "locks_ok now db'"
proof -
  let ?e = "Some (lease_end now secs)"
  let ?f = "\<lambda>j. j\<lparr>jb_expires := ?e, jb_updated := now\<rparr>"
  obtain row db1 where w: "with_lease i worker token ?f db = Inr (row, db1)"
    using assms(3) unfolding heartbeat_def Let_def by (auto split: sum.splits)
  note lease = with_leaseD [OF assms(1) w]
  have i: "jb_id row = i" using get_jobD [OF lease(1)] by simp
  have dist: "distinct (map lock_scope (jd_locks db))" and cov: "\<And>j. j \<in> set (jd_jobs db) \<Longrightarrow> covered now (jd_locks db) j"
    using assms(2) by (auto simp: locks_ok_def)
  obtain scope where scope: "resource_scope_from_payload (jb_payload row) (jb_order row) = Inr scope"
    using jobs_ok_get [OF assms(1) lease(1)] by (auto simp: job_ok_def)
  show ?thesis
  proof (cases scope)
    case None
    have "covered now (jd_locks db) (?f row)" using scope None by (simp add: covered_def job_scope_def)
    then have "locks_ok now (set_job i ?f db)"
      using locks_ok_set_job [OF assms(1) lease(1) dist cov, of ?f] by simp
    then show ?thesis using assms(3) w scope None lease(3) unfolding heartbeat_def Let_def by simp
  next
    case (Some s)
    obtain t k where s: "s = (t, k)" by fastforce
    define mine where "mine = held_lock (jb_tenant row) t k (job_lock_owner i (jb_attempt row)) (expected_lock_token row)"
    define locks where "locks = update_where mine (\<lambda>l. l\<lparr>rl_expires := ?e, rl_updated := now\<rparr>) (jd_locks db)"
    have cnt: "rowcount mine (jd_locks db) = 1" and db': "db' = set_job i ?f (db\<lparr>jd_locks := locks\<rparr>)"
      using assms(3) w scope Some s lease(3) unfolding heartbeat_def Let_def mine_def locks_def
      by (auto simp: set_job_def split: if_splits)
    obtain l where l: "l \<in> set (jd_locks db)" "mine l" using cnt rowcount_pos_iff [of mine "jd_locks db"] by auto
    have "map lock_scope locks = map lock_scope (jd_locks db)"
      unfolding locks_def by (rule map_update_where_same) (simp add: lock_scope_def)
    then have dist': "distinct (map lock_scope locks)" using dist by simp
    have "job_scope (?f row) = Some (t, k)" using scope Some s by (simp add: job_scope_def)
    then have "my_lock (?f row) (l\<lparr>rl_expires := ?e, rl_updated := now\<rparr>)"
      using l(2) i by (simp add: my_lock_def mine_def held_lock_def same_scope_def expected_lock_token_def split: option.split)
    moreover have "l\<lparr>rl_expires := ?e, rl_updated := now\<rparr> \<in> set locks"
      using update_where_touched [of l "jd_locks db" mine "\<lambda>l. l\<lparr>rl_expires := ?e, rl_updated := now\<rparr>"] l by (simp add: locks_def)
    ultimately have mine_ok: "covered now locks (?f row)" by (fastforce simp: covered_def)
    have others: "covered now locks j" if "j \<in> set (jd_jobs db)" "jb_id j \<noteq> i" for j
    proof (rule covered_keep [OF cov [OF that(1)]])
      fix l assume "l \<in> set (jd_locks db)" "my_lock j l"
      moreover have "\<not> mine l" using my_lock_owner [OF \<open>my_lock j l\<close>] that(2) job_lock_owner_inj
        by (metis held_lock_def mine_def)
      ultimately show "l \<in> set locks" unfolding locks_def by (intro update_where_untouched)
    qed
    show ?thesis unfolding db' using others mine_ok by (intro locks_ok_set_job [OF assms(1) lease(1) dist']) simp_all
  qed
qed

lemma create_locks:
  assumes "jobs_ok db" "locks_ok now db"
    and "create_job fresh fresh' now tenant user session request operation payload order task m avail db = Inr (j, db')"
  shows "locks_ok now db'"
proof -
  have "locks_ok now (set_job (jb_id current) (\<lambda>_. current\<lparr>jb_task := t, jb_updated := now\<rparr>) db)"
    if "fetchone P (jd_jobs db) = Some current" for P current t
  proof -
    have cur: "current \<in> set (jd_jobs db)" using that by (auto dest: fetchone_SomeD)
    then have get: "get_job (jb_id current) db = Some current"
      using assms(1) by (simp add: get_job_def fetchone_key_iff jobs_ok_def)
    have "covered now (jd_locks db) current" "distinct (map lock_scope (jd_locks db))" using assms(2) cur by (auto simp: locks_ok_def)
    moreover have "covered now (jd_locks db) (current\<lparr>jb_task := t, jb_updated := now\<rparr>) = covered now (jd_locks db) current"
      by (simp add: covered_def my_lock_def job_scope_def lease_over_def expected_lock_token_def split: option.split)
    ultimately have "locks_ok now (set_job (jb_id current) (\<lambda>_. current\<lparr>jb_task := t, jb_updated := now\<rparr>) (db\<lparr>jd_locks := jd_locks db\<rparr>))"
      using assms(2) by (intro locks_ok_set_job [OF assms(1) get]) (auto simp: locks_ok_def)
    then show ?thesis by simp
  qed
  moreover have "locks_ok now (db\<lparr>jd_jobs := jd_jobs db @ [x], jd_outbox := y\<rparr>)" if "jb_status x \<noteq> ''running''" for x y
    using assms(2) covered_not_running [OF that] by (auto simp: locks_ok_def)
  ultimately show ?thesis
    using assms(2,3) unfolding create_job_def Let_def
    by (auto split: sum.splits option.splits if_splits simp: new_job_def)
qed

lemma cancel_locks: "locks_ok now db \<Longrightarrow> locks_ok now (snd (cancel_job now' i reason db))"
  by (auto simp: locks_ok_def cancel_job_def Let_def set_update_where covered_not_running cancelled_job_def)

text \<open>The \<open>LIKE\<close> pattern of a job matches its own locks only.\<close>

lemma owner_like_own:
  assumes "owner_like a (job_lock_owner b n)" "plain_id a" "plain_id b"
  shows "a = b"
proof -
  have low: "py_lower (''document-job:'' @ s) = ''document-job:'' @ py_lower s" for s
    by (simp add: py_lower_def py_lower_char_def Let_def)
  have colon: "py_lower (s @ '':'' @ u) = py_lower s @ '':'' @ py_lower u" for s u
    by (simp add: py_lower_def py_lower_char_def Let_def)
  define y where "y = py_lower (py_str n)"
  have "take (length (''document-job:'' @ a @ '':'')) (''document-job:'' @ b @ '':'' @ y) = ''document-job:'' @ a @ '':''"
    using assms unfolding owner_like_def Let_def job_lock_owner_def low colon y_def
    by (simp add: plain_id_def py_lower_def py_lower_char_def Let_def)
  then have "take (Suc (length a)) (b @ CHR '':'' # y) = a @ [CHR '':'']" by simp
  then obtain z where eq: "b @ CHR '':'' # y = a @ CHR '':'' # z"
    by (metis append.assoc append_Cons append_Nil append_take_drop_id)
  have "takeWhile (\<lambda>c. c \<noteq> CHR '':'') (b @ CHR '':'' # y) = b" "takeWhile (\<lambda>c. c \<noteq> CHR '':'') (a @ CHR '':'' # z) = a"
    using assms(2,3) by (subst takeWhile_append2; auto simp: plain_id_def)+
  with eq show ?thesis by simp
qed

lemma forget_keeps:
  assumes "forget_locks row db = Inr db'" "distinct (map lock_scope (jd_locks db))" "plain_id (jb_id row)"
  shows "distinct (map lock_scope (jd_locks db'))"
    "\<And>j. covered now (jd_locks db) j \<Longrightarrow> jb_id j \<noteq> jb_id row \<Longrightarrow> plain_id (jb_id j) \<Longrightarrow> covered now (jd_locks db') j"
proof -
  obtain locks where rel: "release_job_resource_lock row (jd_locks db) = Inr locks"
    and db': "db' = db\<lparr>jd_locks := filter (\<lambda>l. \<not> owner_like (jb_id row) (rl_owner l)) locks\<rparr>"
    using assms(1) by (auto simp: forget_locks_def split: sum.splits)
  note keep = release_job_keeps [OF rel assms(2)]
  show "distinct (map lock_scope (jd_locks db'))" using keep(1) by (simp add: db' distinct_map_filter)
  fix j assume j: "covered now (jd_locks db) j" "jb_id j \<noteq> jb_id row" "plain_id (jb_id j)"
  from keep(2) [OF j(1,2)] show "covered now (jd_locks db') j"
  proof (rule covered_keep)
    fix l assume "l \<in> set locks" "my_lock j l"
    then show "l \<in> set (jd_locks db')"
      using owner_like_own [OF _ assms(3) j(3)] j(2) my_lock_owner [of j l] by (auto simp: db')
  qed
qed

lemma cancel_rows_locks:
  assumes "jobs_ok db" "locks_ok now db" "cancel_rows now' reason rows db = Inr db'" "\<forall>r \<in> set rows. plain_id (jb_id r)"
  shows "locks_ok now db'"
  using assms
proof (induction rows arbitrary: db)
  case (Cons row rows)
  show ?case
  proof (cases "jb_status row \<in> {''queued'', ''running''}")
    case False
    with Cons show ?thesis by simp
  next
    case True
    then obtain db1 where f: "forget_locks row db = Inr db1"
      using Cons.prems(3) by (cases "forget_locks row db") simp_all
    obtain x where x: "db1 = db\<lparr>jd_locks := x\<rparr>" by (rule forget_frame [OF f])
    have dist: "distinct (map lock_scope (jd_locks db))" and cov: "\<And>j. j \<in> set (jd_jobs db) \<Longrightarrow> covered now (jd_locks db) j"
      using Cons.prems(2) by (auto simp: locks_ok_def)
    have plain: "plain_id (jb_id j)" if "j \<in> set (jd_jobs db)" for j
      using Cons.prems(1) that by (auto simp: jobs_ok_def job_ok_def list_all_iff)
    note keep = forget_keeps [OF f dist, unfolded x, simplified]
    let ?db2 = "(set_job (jb_id row) (cancelled_job now' reason) db1)
               \<lparr>jd_outbox := update_where (\<lambda>o'. ob_job o' = jb_id row)
                  (\<lambda>o'. o'\<lparr>ob_status := ''cancelled'', ob_error := clip 1000 (if reason = [] then ''cancelled'' else reason),
                           ob_dispatched := Some now'\<rparr>) (jd_outbox db1)\<rparr>"
    have "covered now x j" if "j \<in> set (jd_jobs (set_job (jb_id row) (cancelled_job now' reason) db1))" for j
      using that keep(2) [of now] cov plain Cons.prems(4) x
      by (auto simp: set_job_def set_update_where cancelled_job_def covered_not_running split: if_splits)
    then have "locks_ok now ?db2" using keep(1) Cons.prems(4) x by (simp add: locks_ok_def set_job_def)
    moreover have "cancel_rows now' reason (row # rows) db = cancel_rows now' reason rows ?db2"
      by (simp only: cancel_rows.simps f sum.case True not_True_eq_False if_False)
    moreover have "cancel_rows now' reason [row] db = Inr ?db2"
      by (simp only: cancel_rows.simps f sum.case True not_True_eq_False if_False)
    then have "jobs_ok ?db2" by (rule cancel_rows_ok [OF Cons.prems(1)])
    ultimately show ?thesis using Cons.IH [of ?db2] Cons.prems(3,4) by simp
  qed
qed simp

lemma forget_rows_locks:
  assumes "forget_rows rows db = Inr db'" "distinct (map lock_scope (jd_locks db))" "\<forall>r \<in> set rows. plain_id (jb_id r)"
  shows "distinct (map lock_scope (jd_locks db'))
    \<and> (\<forall>j. covered now (jd_locks db) j \<longrightarrow> jb_id j \<notin> jb_id ` set rows \<longrightarrow> plain_id (jb_id j) \<longrightarrow> covered now (jd_locks db') j)"
  using assms
proof (induction rows arbitrary: db)
  case (Cons row rows)
  obtain db1 where f: "forget_locks row db = Inr db1" using Cons.prems(1) by (cases "forget_locks row db") simp_all
  note keep = forget_keeps [OF f Cons.prems(2)]
  from Cons.IH [of db1] keep Cons.prems f show ?case by fastforce
qed simp

lemma cancel_session_locks:
  assumes "jobs_ok db" "locks_ok now db" "cancel_session now' s reason db = Inr (r, db')"
  shows "locks_ok now db'"
proof (cases "py_strip s = []")
  case True
  with assms show ?thesis by (simp add: cancel_session_def Let_def)
next
  case False
  let ?rows = "filter (\<lambda>j. jb_session j = py_strip s) (jd_jobs db)"
  have res: "cancel_rows now' reason ?rows db = Inr db'"
    using assms(3) False by (cases "cancel_rows now' reason ?rows db") (auto simp: cancel_session_def Let_def)
  show ?thesis
    by (rule cancel_rows_locks [OF assms(1,2) res]) (use assms(1) in \<open>auto simp: jobs_ok_def job_ok_def list_all_iff\<close>)
qed

lemma cleanup_locks:
  assumes "jobs_ok db" "locks_ok now db" "cleanup_session s db = Inr (r, db')"
  shows "locks_ok now db'"
proof (cases "py_strip s = []")
  case True
  with assms show ?thesis by (simp add: cleanup_session_def Let_def)
next
  case False
  let ?rows = "filter (\<lambda>j. jb_session j = py_strip s) (jd_jobs db)"
  obtain db1 where f: "forget_rows ?rows db = Inr db1"
    and db': "db' = db1\<lparr>jd_outbox := filter (\<lambda>o'. ob_job o' \<notin> jb_id ` set ?rows) (jd_outbox db1),
                       jd_jobs := filter (\<lambda>j. jb_session j \<noteq> py_strip s) (jd_jobs db1)\<rparr>"
    using assms(3) False by (cases "forget_rows ?rows db") (auto simp: cleanup_session_def Let_def)
  obtain x where x: "db1 = db\<lparr>jd_locks := x\<rparr>" by (rule forget_rows_frame [OF f])
  have plain: "plain_id (jb_id j)" if "j \<in> set (jd_jobs db)" for j
    using assms(1) that by (auto simp: jobs_ok_def job_ok_def list_all_iff)
  have "distinct (map lock_scope (jd_locks db1))
    \<and> (\<forall>j. covered now (jd_locks db) j \<longrightarrow> jb_id j \<notin> jb_id ` set ?rows \<longrightarrow> plain_id (jb_id j) \<longrightarrow> covered now (jd_locks db1) j)"
    by (rule forget_rows_locks [OF f]) (use assms(2) plain in \<open>auto simp: locks_ok_def\<close>)
  then have keep: "distinct (map lock_scope x)"
    "\<And>j. covered now (jd_locks db) j \<Longrightarrow> jb_id j \<notin> jb_id ` set ?rows \<Longrightarrow> plain_id (jb_id j) \<Longrightarrow> covered now x j"
    by (simp_all add: x)
  have "covered now x j" if "j \<in> set (jd_jobs db)" "jb_session j \<noteq> py_strip s" for j
  proof (rule keep(2))
    show "covered now (jd_locks db) j" using assms(2) that(1) by (simp add: locks_ok_def)
    have "distinct (map jb_id (jd_jobs db))" using assms(1) by (simp add: jobs_ok_def)
    then show "jb_id j \<notin> jb_id ` set ?rows" using that distinct_key_unique [of jb_id "jd_jobs db" j] by auto
  qed (rule plain [OF that(1)])
  with keep(1) show ?thesis by (auto simp: locks_ok_def db' x)
qed

lemma acquire_locks:
  assumes "locks_ok now db" "external (py_strip owner)" "acquire_resource_lock now tenant t i owner secs db = Inr (l, db')"
  shows "locks_ok now db'"
proof -
  obtain t' i' where db': "db' = db\<lparr>jd_locks := snd (take_lock now (py_strip tenant) t' i' (py_strip owner) secs (jd_locks db))\<rparr>"
    using assms(3) by (fastforce simp: acquire_resource_lock_def Let_def case_prod_beta split: if_splits sum.splits)
  have "distinct (map lock_scope (jd_locks db))" using assms(1) by (simp add: locks_ok_def)
  from take_lock_distinct [OF this] covered_take [OF _ this external_not_job [OF assms(2)]] assms(1)
  show ?thesis by (auto simp: locks_ok_def db')
qed

lemma renew_locks:
  assumes "locks_ok now db" "external owner" "renew_resource_lock now' tenant t i owner token secs db = Inr (l, db')"
  shows "locks_ok now db'"
proof -
  obtain t' i' where db': "db' = db\<lparr>jd_locks := update_where (held_lock tenant t' i' owner token)
      (\<lambda>l. l\<lparr>rl_expires := Some (lease_end now' secs), rl_updated := now'\<rparr>) (jd_locks db)\<rparr>"
    using assms(3) by (auto simp: renew_resource_lock_def Let_def split: sum.splits option.splits if_splits)
  have "map lock_scope (jd_locks db') = map lock_scope (jd_locks db)"
    unfolding db' by (simp add: map_update_where_same lock_scope_def)
  moreover have "covered now (jd_locks db') j" if "covered now (jd_locks db) j" for j
    using that
  proof (rule covered_keep)
    fix l assume "l \<in> set (jd_locks db)" "my_lock j l"
    moreover have "\<not> held_lock tenant t' i' owner token l"
      using my_lock_owner [OF \<open>my_lock j l\<close>] external_not_job [OF assms(2)] by (auto simp: held_lock_def)
    ultimately show "l \<in> set (jd_locks db')" by (simp add: db' update_where_untouched)
  qed
  ultimately show ?thesis using assms(1) by (simp add: locks_ok_def) (simp add: db')
qed

lemma release_locks:
  assumes "locks_ok now db" "external owner" "release_resource_lock tenant t i owner token db = Inr (b, db')"
  shows "locks_ok now db'"
proof -
  obtain t' i' where db': "db' = db\<lparr>jd_locks := snd (drop_lock tenant t' i' owner token (jd_locks db))\<rparr>"
    using assms(3) by (fastforce simp: release_resource_lock_def case_prod_beta split: sum.splits)
  show ?thesis
    using assms(1) distinct_drop covered_drop [OF _ external_not_job [OF assms(2)]] by (auto simp: locks_ok_def db')
qed

lemma job_step_locks:
  assumes "jobs_ok db" "locks_ok now db" "op_ok op"
  shows "locks_ok now (job_step db (now, op))"
proof -
  note after = jdb_afterI [of "locks_ok now", OF assms(2)]
  show ?thesis
  proof (cases op)
    case J_create
    then show ?thesis by (simp, intro after) (rule create_locks [OF assms(1,2)])
  next
    case J_claim
    then show ?thesis by (simp, intro after) (rule claim_locks [OF assms(1,2)])
  next
    case J_heartbeat
    then show ?thesis by (simp, intro after) (rule heartbeat_locks [OF assms(1,2)])
  next
    case J_complete
    then show ?thesis by (simp, intro after) (rule complete_locks [OF assms(1,2)])
  next
    case J_fail
    then show ?thesis by (simp, intro after) (rule fail_locks [OF assms(1,2)])
  next
    case J_cancel
    then show ?thesis using cancel_locks [OF assms(2)] by simp
  next
    case J_cancel_session
    then show ?thesis by (simp, intro after) (rule cancel_session_locks [OF assms(1,2)])
  next
    case J_cleanup
    then show ?thesis by (simp, intro after) (rule cleanup_locks [OF assms(1,2)])
  next
    case J_acquire
    with assms(3) show ?thesis by (simp, intro after) (rule acquire_locks [OF assms(2)])
  next
    case J_renew
    with assms(3) show ?thesis by (simp, intro after) (rule renew_locks [OF assms(2)])
  next
    case J_release
    with assms(3) show ?thesis by (simp, intro after) (rule release_locks [OF assms(2)])
  qed
qed

lemma job_run_locks:
  assumes "jobs_ok db" "locks_ok t0 db" "sorted (t0 # map fst ops @ [now])" "\<forall>(t, op) \<in> set ops. op_ok op"
  shows "jobs_ok (foldl job_step db ops) \<and> locks_ok now (foldl job_step db ops)"
  using assms
proof (induction ops arbitrary: db t0)
  case Nil
  then show ?case by (auto intro: locks_ok_mono)
next
  case (Cons e ops)
  obtain t op where e: "e = (t, op)" by fastforce
  have le: "t0 \<le> t" and srt: "sorted (t # map fst ops @ [now])" using Cons.prems(3) by (simp_all add: e)
  have op: "op_ok op" using Cons.prems(4) by (simp add: e)
  have "jobs_ok (job_step db e)" unfolding e by (rule job_step_ok [OF Cons.prems(1) op])
  moreover have "locks_ok t (job_step db e)"
    unfolding e by (rule job_step_locks [OF Cons.prems(1) locks_ok_mono [OF Cons.prems(2) le] op])
  moreover have "\<forall>(t, op) \<in> set ops. op_ok op" using Cons.prems(4) by simp
  ultimately have "jobs_ok (foldl job_step (job_step db e) ops) \<and> locks_ok now (foldl job_step (job_step db e) ops)"
    using srt by (intro Cons.IH [of "job_step db e" t])
  then show ?case by simp
qed

lemma shared_lock_same_job:
  assumes "distinct (map lock_scope locks)" "l \<in> set locks" "l' \<in> set locks" "my_lock j l" "my_lock j' l'"
    and "jb_tenant j = jb_tenant j'" "job_scope j = job_scope j'"
  shows "jb_id j = jb_id j'"
proof -
  have "lock_scope l = lock_scope l'"
    using assms(4-7) by (auto simp: my_lock_def held_lock_def same_scope_iff)
  with assms(1-3) have "l = l'" by (simp add: distinct_map inj_on_def)
  then have "job_lock_owner (jb_id j) (jb_attempt j) = job_lock_owner (jb_id j') (jb_attempt j')"
    using my_lock_owner [OF assms(4)] my_lock_owner [OF assms(5)] by simp
  then show ?thesis by (rule job_lock_owner_inj)
qed

text \<open>C18. However workers, cancellations, cleanups and direct lock users interleave on one clock, two running
  jobs of a tenant that are scoped to the same resource never both hold a lease that is still valid: they are
  the same job.\<close>

theorem live_jobs_exclusive:
  assumes "jobs_ok db" "locks_ok t0 db" "sorted (t0 # map fst ops @ [now])" "\<forall>(t, op) \<in> set ops. op_ok op"
    and "j \<in> set (jd_jobs (foldl job_step db ops))" "j' \<in> set (jd_jobs (foldl job_step db ops))"
    and "jb_status j = ''running''" "jb_status j' = ''running''" "\<not> lease_over now j" "\<not> lease_over now j'"
    and "jb_tenant j = jb_tenant j'" "job_scope j = Some s" "job_scope j' = Some s"
  shows "j = j'"
proof -
  let ?db = "foldl job_step db ops"
  have inv: "jobs_ok ?db" "locks_ok now ?db" using job_run_locks [OF assms(1-4)] by simp_all
  have held: "\<exists>l \<in> set (jd_locks ?db). my_lock x l"
    if "x \<in> set (jd_jobs ?db)" "jb_status x = ''running''" "\<not> lease_over now x" "job_scope x = Some s" for x
    using inv(2) that by (auto simp: locks_ok_def covered_def)
  obtain l l' where "l \<in> set (jd_locks ?db)" "my_lock j l" "l' \<in> set (jd_locks ?db)" "my_lock j' l'"
    using held [OF assms(5,7,9,12)] held [OF assms(6,8,10,13)] by blast
  then have "jb_id j = jb_id j'"
    using inv(2) assms(11-13) by (intro shared_lock_same_job [of "jd_locks ?db" l l']) (simp_all add: locks_ok_def)
  then show ?thesis using inv(1) assms(5,6) by (auto simp: jobs_ok_def distinct_map inj_on_def)
qed

section \<open>Finding jobs again\<close>

lemma validated_operation: "validate_operation operation = Inr op \<Longrightarrow> validate_operation op = Inr op"
  by (auto simp: validate_operation_def Let_def split: if_splits)

text \<open>A successful creation returns the row stored under the key, with a task id filled in, or a new row.\<close>

lemma create_job_cases:
  assumes "create_job fresh fresh' now tenant user session request operation payload order task m avail db = Inr (j, db')"
  obtains (present) op current where "validate_operation operation = Inr op"
      "fetchone (same_key (py_strip tenant) (py_strip user) (py_strip session) (clip 128 (py_strip request)) op) (jd_jobs db) = Some current"
      "jb_payload current = payload" "jb_order current = order"
      "jb_task current \<noteq> None \<Longrightarrow> requested_task task \<noteq> None \<Longrightarrow> jb_task current = requested_task task"
      "j = (if jb_task current = None \<and> requested_task task \<noteq> None
            then current\<lparr>jb_task := read_task (requested_task task), jb_updated := now\<rparr> else current)"
      "db' = set_job (jb_id current) (\<lambda>_. j) db \<or> db' = db \<and> j = current"
    | (new) op m' available row where "validate_operation operation = Inr op"
      "j = new_job (''document-job-'' @ fresh) now (py_strip tenant) (py_strip user) (py_strip session) (clip 128 (py_strip request)) op
         payload order task m' available"
      "db' = db\<lparr>jd_jobs := jd_jobs db @ [j], jd_outbox := jd_outbox db @ [row]\<rparr>"
proof -
  obtain op where op: "validate_operation operation = Inr op" using assms by (auto simp: create_job_def split: sum.splits)
  let ?P = "same_key (py_strip tenant) (py_strip user) (py_strip session) (clip 128 (py_strip request)) op"
  show thesis
  proof (cases "fetchone ?P (jd_jobs db)")
    case (Some current)
    show thesis
    proof (rule present [OF op Some])
      show "jb_payload current = payload" "jb_order current = order"
        "jb_task current \<noteq> None \<Longrightarrow> requested_task task \<noteq> None \<Longrightarrow> jb_task current = requested_task task"
        using assms op Some by (simp_all add: create_job_def Let_def split: if_splits sum.splits)
      show "j = (if jb_task current = None \<and> requested_task task \<noteq> None
            then current\<lparr>jb_task := read_task (requested_task task), jb_updated := now\<rparr> else current)"
        "db' = set_job (jb_id current) (\<lambda>_. j) db \<or> db' = db \<and> j = current"
        using assms op Some by (auto simp: create_job_def Let_def split: if_splits sum.splits)
    qed
  next
    case None
    then show thesis
      using assms op by (intro new [OF op]) (auto simp: create_job_def Let_def split: if_splits sum.splits)
  qed
qed

lemma create_job_found:
  assumes "jobs_ok db" "plain_id fresh"
    and "create_job fresh fresh' now tenant user session request operation payload order task m avail db = Inr (j, db')"
  shows "j \<in> set (jd_jobs db') \<and> jobs_ok db'"
proof -
  have "j \<in> set (jd_jobs db')"
    using assms(3)
  proof (cases rule: create_job_cases)
    case (present op current)
    then show ?thesis by (auto simp: set_job_def update_where_def dest: fetchone_SomeD)
  qed simp
  with create_job_ok [OF assms] show ?thesis by simp
qed

lemma find_job:
  assumes "jobs_ok db" "j \<in> set (jd_jobs db)"
  shows "get_job (jb_id j) db = Some j"
    and "fetchone (same_key (jb_tenant j) (jb_user j) (jb_session j) (jb_request j) (jb_operation j)) (jd_jobs db) = Some j"
proof -
  show "get_job (jb_id j) db = Some j" using assms by (simp add: get_job_def fetchone_key_iff jobs_ok_def)
  have "same_key (jb_tenant j) (jb_user j) (jb_session j) (jb_request j) (jb_operation j) = (\<lambda>x. job_key x = job_key j)"
    by (auto simp: same_key_def job_key_def)
  then show "fetchone (same_key (jb_tenant j) (jb_user j) (jb_session j) (jb_request j) (jb_operation j)) (jd_jobs db) = Some j"
    using assms by (simp add: fetchone_key_iff jobs_ok_def)
qed

lemma create_job_fields:
  assumes "create_job fresh fresh' now tenant user session request operation payload order task m avail db = Inr (j, db')"
  shows "validate_operation operation = Inr (jb_operation j)"
    and "jb_tenant j = py_strip tenant" "jb_user j = py_strip user" "jb_session j = py_strip session"
    and "jb_request j = clip 128 (py_strip request)" "jb_payload j = payload" "jb_order j = order"
    and "jb_task j \<noteq> None \<Longrightarrow> requested_task task \<noteq> None \<Longrightarrow> jb_task j = requested_task task"
    and "requested_task task \<noteq> Some [] \<Longrightarrow> jb_task j = None \<Longrightarrow> requested_task task = None"
proof -
  have task: "read_task (requested_task task) \<noteq> None \<Longrightarrow> read_task (requested_task task) = requested_task task"
    "requested_task task \<noteq> Some [] \<Longrightarrow> read_task (requested_task task) = None \<Longrightarrow> requested_task task = None"
    by (auto simp: read_task_def requested_task_def split: option.splits if_splits)
  from assms have "validate_operation operation = Inr (jb_operation j) \<and> jb_tenant j = py_strip tenant \<and> jb_user j = py_strip user
      \<and> jb_session j = py_strip session \<and> jb_request j = clip 128 (py_strip request) \<and> jb_payload j = payload \<and> jb_order j = order
      \<and> (jb_task j \<noteq> None \<longrightarrow> requested_task task \<noteq> None \<longrightarrow> jb_task j = requested_task task)
      \<and> (requested_task task \<noteq> Some [] \<longrightarrow> jb_task j = None \<longrightarrow> requested_task task = None)"
  proof (cases rule: create_job_cases)
    case (present op current)
    then have "same_key (py_strip tenant) (py_strip user) (py_strip session) (clip 128 (py_strip request)) op current"
      by (auto dest: fetchone_SomeD)
    then show ?thesis using present(1,3-6) task by (cases "jb_task current") (simp_all add: same_key_def)
  next
    case (new op m' available)
    then show ?thesis using task by (simp add: new_job_def)
  qed
  then show "validate_operation operation = Inr (jb_operation j)"
    and "jb_tenant j = py_strip tenant" "jb_user j = py_strip user" "jb_session j = py_strip session"
    and "jb_request j = clip 128 (py_strip request)" "jb_payload j = payload" "jb_order j = order"
    and "jb_task j \<noteq> None \<Longrightarrow> requested_task task \<noteq> None \<Longrightarrow> jb_task j = requested_task task"
    and "requested_task task \<noteq> Some [] \<Longrightarrow> jb_task j = None \<Longrightarrow> requested_task task = None"
    by blast+
qed

lemma create_job_checked:
  assumes "create_job fresh fresh' now tenant user session request operation payload order task m avail db = Inr (j, db')"
  shows "py_strip tenant \<noteq> []" "py_strip user \<noteq> []" "py_strip session \<noteq> []" "clip 128 (py_strip request) \<noteq> []"
    and "\<exists>scope. resource_scope_from_payload payload order = Inr scope"
  using assms by (auto simp: create_job_def Let_def split: sum.splits if_splits)


text \<open>A lookup that passes the request id as the client sent it misses the job, when the stored form differs.\<close>

theorem raw_request_not_found:
  assumes "create_job fresh fresh' now tenant user session request operation payload order task m avail db = Inr (j, db')"
    and "request \<noteq> clip 128 (py_strip request)"
  shows "get_by_idempotency t u s request operation db' \<noteq> Inr (Some j)"
  using create_job_fields(5) [OF assms(1)] assms(2)
  by (auto simp: get_by_idempotency_def same_key_def dest!: fetchone_SomeD split: sum.splits)

section \<open>A concrete history\<close>

definition empty_jobs :: job_db where
  "empty_jobs = \<lparr>jd_jobs = [], jd_outbox = [], jd_locks = []\<rparr>"

definition demo_payload :: job_payload where
  "demo_payload = \<lparr>pl_lock = No_lock, pl_project = ''p1'', pl_kb = [], pl_template = [], pl_rest = []\<rparr>"

definition demo_ops :: "(time \<times> job_op) list" where
  "demo_ops =
     [(1, J_create ''a'' ''b'' ''t'' ''u'' ''s'' ''r1'' ''convert_artifact'' demo_payload None None 3 None),
      (2, J_create ''c'' ''d'' ''t'' ''u'' ''s'' ''r2'' ''convert_artifact'' demo_payload None None 3 None),
      (3, J_claim ''document-job-a'' ''w1'' 60), (4, J_claim ''document-job-c'' ''w2'' 60)]"


lemma demo_facts:
  "jobs_ok empty_jobs" "locks_ok 0 empty_jobs" "sorted (0 # map fst demo_ops @ [5])" "\<forall>(t, op) \<in> set demo_ops. op_ok op"
  by (simp_all add: jobs_ok_def locks_ok_def empty_jobs_def demo_ops_def plain_id_def py_lower_def py_lower_char_def Let_def)


theorem jobs_well_formed_witness:
  "jobs_ok (foldl job_step empty_jobs demo_ops) \<and> length (jd_jobs (foldl job_step empty_jobs demo_ops)) = 2"
  using jobs_well_formed [OF demo_facts(1,4)] by (rule conjI) code_simp

text \<open>The first job of the history runs, the second one waits for the lock.\<close>

definition demo_db :: job_db where
  "demo_db = foldl job_step empty_jobs demo_ops"

lemma demo_run:
  "hd (jd_jobs demo_db) \<in> set (jd_jobs demo_db)" "the (get_job ''document-job-a'' demo_db) \<in> set (jd_jobs demo_db)"
  "jb_status (hd (jd_jobs demo_db)) = ''running''" "jb_status (the (get_job ''document-job-a'' demo_db)) = ''running''"
  "\<not> lease_over 5 (hd (jd_jobs demo_db))" "\<not> lease_over 5 (the (get_job ''document-job-a'' demo_db))"
  "jb_tenant (hd (jd_jobs demo_db)) = jb_tenant (the (get_job ''document-job-a'' demo_db))"
  "job_scope (hd (jd_jobs demo_db)) = Some (''project'', ''p1'')"
  "job_scope (the (get_job ''document-job-a'' demo_db)) = Some (''project'', ''p1'')"
  by code_simp+

theorem live_jobs_exclusive_witness:
  "hd (jd_jobs demo_db) = the (get_job ''document-job-a'' demo_db)
   \<and> jb_status (last (jd_jobs demo_db)) = ''queued'' \<and> job_scope (last (jd_jobs demo_db)) = Some (''project'', ''p1'')"
proof (intro conjI)
  show "hd (jd_jobs demo_db) = the (get_job ''document-job-a'' demo_db)"
    by (rule live_jobs_exclusive [OF demo_facts, folded demo_db_def, OF demo_run])
qed code_simp+

definition demo_create :: "time \<Rightarrow> job_db \<Rightarrow> job_error + job \<times> job_db" where
  "demo_create now = create_job ''a'' ''b'' now '' t'' ''u'' ''s'' '' r1 '' ''convert_artifact'' demo_payload None (Some ''k'') 3 None"


theorem raw_request_not_found_witness:
  "get_by_idempotency ''t'' ''u'' ''s'' '' r1 '' ''convert_artifact'' (snd (projr (demo_create 1 empty_jobs)))
     \<noteq> Inr (Some (fst (projr (demo_create 1 empty_jobs))))"
proof -
  have created: "demo_create 1 empty_jobs = Inr (fst (projr (demo_create 1 empty_jobs)), snd (projr (demo_create 1 empty_jobs)))"
    and raw: "'' r1 '' \<noteq> clip 128 (py_strip '' r1 '')" by code_simp+
  show ?thesis by (rule raw_request_not_found [OF created [unfolded demo_create_def] raw, folded demo_create_def])
qed

text \<open>Cancelling one running job leaves its resource lock in place: the job that waits for the same project is not
  granted a claim before the lease of the cancelled one is over, although nothing runs.\<close>

theorem cancel_leaves_lock:
  "map_sum id fst (claim 6 ''document-job-c'' ''w2'' 60 (snd (cancel_job 5 ''document-job-a'' [] demo_db))) = Inr None
   \<and> list_all (\<lambda>j. jb_status j \<noteq> ''running'') (jd_jobs (snd (cancel_job 5 ''document-job-a'' [] demo_db)))"
  by code_simp

end
