(* ===== verification/Release_Policy.thy ===== *)
theory Release_Policy
  imports Prelude "HOL-Library.List_Lexorder" "HOL-Library.Char_ord" "HOL-Library.Product_Lexorder"
begin

text \<open>
  The release decision for a generated document: \<open>document_authoring/planning/release.py\<close> and the content hash
  of \<open>document_authoring/planning/models.py\<close>.  An approval policy names two gates, the roles that must sign and
  whether a tenant may release without a signature; \<open>ReleasePolicyService.evaluate\<close> decides on the gate facts,
  the lineage of the artifact and the signatures.

  The records are the Pydantic models after the check of their fields; the validators that run afterwards are
  functions.  SHA-256 over canonical JSON is the parameter \<open>sha\<close>, a function of the JSON value, and
  \<open>isoformat\<close> is a parameter.
\<close>

section \<open>Content hashes\<close>

datatype json =
    J_null | J_bool bool | J_int int | J_float string | J_str string | J_arr "json list" | J_obj "(string \<times> json) list"

definition HASH_EXCLUDED_FIELDS :: "string list" where
  "HASH_EXCLUDED_FIELDS =
     [''accepted_at'', ''confirmed_at'', ''confirmed_by'', ''created_at'', ''plan_hash'', ''stale_at'', ''status'', ''updated_at'']"

fun strip_hash_excluded :: "string list \<Rightarrow> json \<Rightarrow> json" where
  "strip_hash_excluded excluded (J_obj entries) =
     J_obj (map (\<lambda>(k, v). (k, strip_hash_excluded excluded v)) (filter (\<lambda>(k, v). k \<notin> set excluded) entries))"
| "strip_hash_excluded excluded (J_arr values) = J_arr (map (strip_hash_excluded excluded) values)"
| "strip_hash_excluded excluded v = v"

definition planning_content_hash :: "(json \<Rightarrow> string) \<Rightarrow> string list \<Rightarrow> json \<Rightarrow> string" where
  "planning_content_hash sha exclude v = ''sha256:'' @ sha (strip_hash_excluded (HASH_EXCLUDED_FIELDS @ exclude) v)"

definition j_opt :: "string option \<Rightarrow> json" where
  "j_opt v = (case v of None \<Rightarrow> J_null | Some s \<Rightarrow> J_str s)"

definition j_strs :: "string list \<Rightarrow> json" where
  "j_strs vs = J_arr (map J_str vs)"

section \<open>Models and their validators\<close>

record approval_policy =
  ap_id :: string
  ap_version :: string
  ap_risk :: string
  ap_types :: "string list"
  ap_gate1 :: bool
  ap_gate2 :: bool
  ap_roles :: "string list"
  ap_auto :: bool
  ap_max_issues :: int
  ap_status :: string
  ap_unavailable :: "string option"
  ap_hash :: "string option"

record gate_fact =
  gf_id :: string
  gf_gate :: string
  gf_status :: string
  gf_plan :: string
  gf_plan_version :: int
  gf_plan_hash :: string
  gf_artifact :: "string option"
  gf_actor :: "string option"
  gf_role :: "string option"
  gf_issues :: "string list"
  gf_evidence :: "(string \<times> json) list"
  gf_hash :: "string option"

record release_signature =
  rs_id :: string
  rs_gate :: string
  rs_actor :: string
  rs_role :: string
  rs_subject :: string
  rs_signed_at :: time
  rs_signature :: "string option"

record artifact_lineage =
  al_id :: string
  al_hash :: string
  al_parent :: "string option"
  al_revision :: "string option"
  al_plan :: string
  al_plan_version :: int
  al_plan_hash :: string
  al_snapshot :: string
  al_snapshot_hash :: string
  al_strategy :: string
  al_strategy_version :: string
  al_strategy_hash :: string
  al_policy :: string
  al_policy_version :: string
  al_policy_hash :: string
  al_manifest_hash :: string
  al_lineage_hash :: "string option"

record tenant_policy =
  tp_tenant :: string
  tp_type :: string
  tp_policy :: string
  tp_version :: string
  tp_auto :: bool
  tp_formats :: "string list"
  tp_recipes :: "string list"
  tp_threshold :: "string option"

record release_decision =
  rd_status :: string
  rd_allowed :: bool
  rd_tenant :: string
  rd_type :: string
  rd_policy :: string
  rd_version :: string
  rd_plan :: string
  rd_plan_hash :: string
  rd_artifact_hash :: string
  rd_fact_ids :: "string list"
  rd_signature_ids :: "string list"
  rd_lineage_hash :: "string option"
  rd_reasons :: "string list"
  rd_hash :: "string option"

datatype release_error =
    Empty_entry | Duplicate_entry | Reason_required | Auto_release_risk | Hash_mismatch | Passed_with_issues
  | Threshold_required | Duplicate_policy | Policy_not_registered | Policy_unavailable
  | Lineage_not_found | Lineage_cycle | Lineage_parent_missing

definition unique_entries :: "string list \<Rightarrow> release_error + string list" where
  "unique_entries values =
     (let normalized = map py_strip values in
      if [] \<in> set normalized then Inl Empty_entry
      else if \<not> distinct normalized then Inl Duplicate_entry
      else Inr normalized)"

text \<open>The last step of a validator: a stored hash must be the computed one.\<close>

definition check_hash :: "string option \<Rightarrow> string \<Rightarrow> release_error + string option" where
  "check_hash stored expected = (if stored \<noteq> None \<and> stored \<noteq> Some expected then Inl Hash_mismatch else Inr (Some expected))"

definition policy_json :: "approval_policy \<Rightarrow> json" where
  "policy_json p = J_obj
     [(''policy_id'', J_str (ap_id p)), (''version'', J_str (ap_version p)), (''risk_level'', J_str (ap_risk p)),
      (''supported_document_types'', j_strs (ap_types p)), (''gate1_required'', J_bool (ap_gate1 p)),
      (''gate2_required'', J_bool (ap_gate2 p)), (''required_signer_roles'', j_strs (ap_roles p)),
      (''auto_release_allowed'', J_bool (ap_auto p)), (''max_issue_count'', J_int (ap_max_issues p)),
      (''status'', J_str (ap_status p)), (''unavailable_reason'', j_opt (ap_unavailable p)), (''policy_hash'', j_opt (ap_hash p))]"

definition normalize_policy :: "(json \<Rightarrow> string) \<Rightarrow> approval_policy \<Rightarrow> release_error + approval_policy" where
  "normalize_policy sha p =
     (case unique_entries (ap_types p) of
        Inl e \<Rightarrow> Inl e
      | Inr types \<Rightarrow>
          (case unique_entries (ap_roles p) of
             Inl e \<Rightarrow> Inl e
           | Inr roles \<Rightarrow>
               (let q = p\<lparr>ap_types := types, ap_roles := roles\<rparr> in
                if ap_status q \<noteq> ''available'' \<and> (ap_unavailable q = None \<or> ap_unavailable q = Some []) then Inl Reason_required
                else if ap_auto q \<and> ap_risk q \<noteq> ''low'' then Inl Auto_release_risk
                else map_sum id (\<lambda>h. q\<lparr>ap_hash := h\<rparr>)
                       (check_hash (ap_hash q) (planning_content_hash sha [''policy_hash''] (policy_json q))))))"

definition fact_json :: "gate_fact \<Rightarrow> json" where
  "fact_json f = J_obj
     [(''fact_id'', J_str (gf_id f)), (''gate'', J_str (gf_gate f)), (''status'', J_str (gf_status f)),
      (''plan_id'', J_str (gf_plan f)), (''plan_version'', J_int (gf_plan_version f)), (''plan_hash'', J_str (gf_plan_hash f)),
      (''artifact_hash'', j_opt (gf_artifact f)), (''actor_id'', j_opt (gf_actor f)), (''actor_role'', j_opt (gf_role f)),
      (''issue_codes'', j_strs (gf_issues f)), (''evidence'', J_obj (gf_evidence f)), (''fact_hash'', j_opt (gf_hash f))]"

definition normalize_fact :: "(json \<Rightarrow> string) \<Rightarrow> gate_fact \<Rightarrow> release_error + gate_fact" where
  "normalize_fact sha f =
     (case unique_entries (gf_issues f) of
        Inl e \<Rightarrow> Inl e
      | Inr issues \<Rightarrow>
          (let g = f\<lparr>gf_issues := issues\<rparr> in
           if gf_status g = ''passed'' \<and> gf_issues g \<noteq> [] then Inl Passed_with_issues
           else map_sum id (\<lambda>h. g\<lparr>gf_hash := h\<rparr>) (check_hash (gf_hash g) (planning_content_hash sha [''fact_hash''] (fact_json g)))))"

definition normalize_signature :: "(json \<Rightarrow> string) \<Rightarrow> (time \<Rightarrow> string) \<Rightarrow> release_signature \<Rightarrow> release_signature" where
  "normalize_signature sha isoformat s =
     (if rs_signature s \<noteq> None then s
      else s\<lparr>rs_signature := Some (planning_content_hash sha [] (J_obj
        [(''signature_id'', J_str (rs_id s)), (''gate'', J_str (rs_gate s)), (''actor_id'', J_str (rs_actor s)),
         (''actor_role'', J_str (rs_role s)), (''subject_hash'', J_str (rs_subject s)), (''signed_at'', J_str (isoformat (rs_signed_at s)))]))\<rparr>)"

definition lineage_json :: "artifact_lineage \<Rightarrow> json" where
  "lineage_json a = J_obj
     [(''artifact_id'', J_str (al_id a)), (''artifact_hash'', J_str (al_hash a)), (''parent_artifact_id'', j_opt (al_parent a)),
      (''revision_id'', j_opt (al_revision a)), (''plan_id'', J_str (al_plan a)), (''plan_version'', J_int (al_plan_version a)),
      (''plan_hash'', J_str (al_plan_hash a)), (''source_snapshot_id'', J_str (al_snapshot a)),
      (''source_snapshot_hash'', J_str (al_snapshot_hash a)), (''strategy_id'', J_str (al_strategy a)),
      (''strategy_version'', J_str (al_strategy_version a)), (''strategy_hash'', J_str (al_strategy_hash a)),
      (''policy_id'', J_str (al_policy a)), (''policy_version'', J_str (al_policy_version a)),
      (''policy_hash'', J_str (al_policy_hash a)), (''run_manifest_hash'', J_str (al_manifest_hash a)),
      (''lineage_hash'', j_opt (al_lineage_hash a))]"

definition normalize_lineage :: "(json \<Rightarrow> string) \<Rightarrow> artifact_lineage \<Rightarrow> release_error + artifact_lineage" where
  "normalize_lineage sha a =
     map_sum id (\<lambda>h. a\<lparr>al_lineage_hash := h\<rparr>)
       (check_hash (al_lineage_hash a) (planning_content_hash sha [''lineage_hash''] (lineage_json a)))"

definition normalize_tenant_policy :: "tenant_policy \<Rightarrow> release_error + tenant_policy" where
  "normalize_tenant_policy t =
     (case unique_entries (tp_formats t) of
        Inl e \<Rightarrow> Inl e
      | Inr formats \<Rightarrow>
          (case unique_entries (tp_recipes t) of
             Inl e \<Rightarrow> Inl e
           | Inr recipes \<Rightarrow>
               if tp_auto t \<and> (tp_threshold t = None \<or> tp_threshold t = Some []) then Inl Threshold_required
               else Inr (t\<lparr>tp_formats := formats, tp_recipes := recipes\<rparr>)))"

definition decision_json :: "release_decision \<Rightarrow> json" where
  "decision_json d = J_obj
     [(''status'', J_str (rd_status d)), (''release_allowed'', J_bool (rd_allowed d)), (''tenant_id'', J_str (rd_tenant d)),
      (''document_type'', J_str (rd_type d)), (''policy_id'', J_str (rd_policy d)), (''policy_version'', J_str (rd_version d)),
      (''plan_id'', J_str (rd_plan d)), (''plan_hash'', J_str (rd_plan_hash d)), (''artifact_hash'', J_str (rd_artifact_hash d)),
      (''gate_fact_ids'', j_strs (rd_fact_ids d)), (''signature_ids'', j_strs (rd_signature_ids d)),
      (''lineage_hash'', j_opt (rd_lineage_hash d)), (''reasons'', j_strs (rd_reasons d)), (''decision_hash'', j_opt (rd_hash d))]"

definition normalize_decision :: "(json \<Rightarrow> string) \<Rightarrow> release_decision \<Rightarrow> release_error + release_decision" where
  "normalize_decision sha d =
     (case unique_entries (rd_fact_ids d) of
        Inl e \<Rightarrow> Inl e
      | Inr facts \<Rightarrow>
          (case unique_entries (rd_signature_ids d) of
             Inl e \<Rightarrow> Inl e
           | Inr sigs \<Rightarrow>
               (case unique_entries (rd_reasons d) of
                  Inl e \<Rightarrow> Inl e
                | Inr reasons \<Rightarrow>
                    (let e = d\<lparr>rd_fact_ids := facts, rd_signature_ids := sigs, rd_reasons := reasons\<rparr>
                     in map_sum id (\<lambda>h. e\<lparr>rd_hash := h\<rparr>)
                          (check_hash (rd_hash e) (planning_content_hash sha [''decision_hash''] (decision_json e)))))))"

section \<open>Approval policies\<close>

type_synonym policy_registry = "approval_policy list"

definition policy_key :: "approval_policy \<Rightarrow> string \<times> string" where
  "policy_key p = (ap_id p, ap_version p)"

definition register_policy :: "approval_policy \<Rightarrow> policy_registry \<Rightarrow> release_error + policy_registry" where
  "register_policy p reg = (if policy_key p \<in> policy_key ` set reg then Inl Duplicate_policy else Inr (reg @ [p]))"

definition lookup_policy :: "string \<Rightarrow> string \<Rightarrow> policy_registry \<Rightarrow> approval_policy option" where
  "lookup_policy pid version reg = fetchone (\<lambda>p. policy_key p = (py_strip pid, py_strip version)) reg"

definition resolve_policy :: "string \<Rightarrow> string \<Rightarrow> policy_registry \<Rightarrow> release_error + approval_policy" where
  "resolve_policy pid version reg =
     (case lookup_policy pid version reg of
        None \<Rightarrow> Inl Policy_not_registered
      | Some p \<Rightarrow> if ap_status p \<noteq> ''available'' then Inl Policy_unavailable else Inr p)"

definition list_policies :: "policy_registry \<Rightarrow> approval_policy list" where
  "list_policies reg = sort_key policy_key reg"

definition builtin_policy :: "string \<Rightarrow> string \<Rightarrow> string list \<Rightarrow> string list \<Rightarrow> bool \<Rightarrow> approval_policy" where
  "builtin_policy pid risk types roles auto_release =
     \<lparr>ap_id = pid, ap_version = ''1'', ap_risk = risk, ap_types = types, ap_gate1 = True, ap_gate2 = True, ap_roles = roles,
      ap_auto = auto_release, ap_max_issues = 0, ap_status = ''available'', ap_unavailable = None, ap_hash = None\<rparr>"

fun register_all :: "(json \<Rightarrow> string) \<Rightarrow> approval_policy list \<Rightarrow> policy_registry \<Rightarrow> release_error + policy_registry" where
  "register_all sha [] reg = Inr reg"
| "register_all sha (p # ps) reg =
     (case normalize_policy sha p of
        Inl e \<Rightarrow> Inl e
      | Inr q \<Rightarrow> (case register_policy q reg of Inl e \<Rightarrow> Inl e | Inr reg' \<Rightarrow> register_all sha ps reg'))"

definition build_builtin_approval_policy_registry :: "(json \<Rightarrow> string) \<Rightarrow> release_error + policy_registry" where
  "build_builtin_approval_policy_registry sha =
     register_all sha
       [builtin_policy ''default-document-v1'' ''high''
          [''generic'', ''generic_report'', ''report'', ''icd'', ''fpt'', ''requirements''] [''document_owner''] False,
        builtin_policy ''low-risk-document-v1'' ''low'' [''generic'', ''generic_report'', ''report''] [] True,
        builtin_policy ''formal-engineering-v1'' ''high'' [''icd'', ''fpt'', ''requirements''] [''document_owner'', ''reviewer''] False] []"

section \<open>The decision\<close>

text \<open>\<open>list(dict.fromkeys(values))\<close>.\<close>

definition first_occurrences :: "'a list \<Rightarrow> 'a list" where
  "first_occurrences values = rev (remdups (rev values))"

text \<open>A dictionary built from a list: the last entry of a key stays.\<close>

definition last_with :: "('a \<Rightarrow> bool) \<Rightarrow> 'a list \<Rightarrow> 'a option" where
  "last_with P xs = fetchone P (rev xs)"

definition fact_reasons :: "artifact_lineage \<Rightarrow> gate_fact \<Rightarrow> string list" where
  "fact_reasons lin f =
     (if gf_plan f \<noteq> al_plan lin \<or> gf_plan_version f \<noteq> al_plan_version lin \<or> gf_plan_hash f \<noteq> al_plan_hash lin
      then [''gate_fact_plan_mismatch''] else []) @
     (if gf_artifact f \<noteq> None \<and> gf_artifact f \<noteq> Some (al_hash lin) then [''gate_fact_artifact_mismatch''] else []) @
     (if gf_gate f = ''gate2'' \<and> gf_status f = ''passed'' \<and> (gf_artifact f = None \<or> gf_artifact f = Some [])
      then [''gate2_artifact_missing''] else [])"

definition binding_reasons :: "approval_policy \<Rightarrow> string \<Rightarrow> artifact_lineage \<Rightarrow> gate_fact list \<Rightarrow> string list" where
  "binding_reasons p doc_type lin facts = first_occurrences (
     (if ap_types p \<noteq> [] \<and> doc_type \<notin> set (ap_types p) then [''policy_document_type_unsupported''] else []) @
     (if al_plan lin = [] \<or> al_plan_hash lin = [] \<or> al_hash lin = [] then [''lineage_invalid''] else []) @
     (if al_policy lin \<noteq> ap_id p \<or> al_policy_version lin \<noteq> ap_version p then [''policy_lineage_mismatch''] else []) @
     (if al_policy_hash lin \<noteq> (case ap_hash p of None \<Rightarrow> [] | Some h \<Rightarrow> h) then [''policy_hash_mismatch''] else []) @
     (if card (gf_gate ` set facts) \<noteq> length facts then [''duplicate_gate_fact''] else []) @
     concat (map (fact_reasons lin) facts))"

definition fact_of_gate :: "string \<Rightarrow> gate_fact list \<Rightarrow> gate_fact option" where
  "fact_of_gate gate facts = last_with (\<lambda>f. gf_gate f = gate) facts"

definition gate_reasons :: "string \<Rightarrow> bool \<Rightarrow> gate_fact list \<Rightarrow> string list" where
  "gate_reasons gate required facts =
     (if required \<and> (case fact_of_gate gate facts of None \<Rightarrow> True | Some f \<Rightarrow> gf_status f \<noteq> ''passed'')
      then [gate @ ''_not_passed''] else [])"

definition tenant_entry :: "tenant_policy list \<Rightarrow> string \<Rightarrow> string \<Rightarrow> approval_policy \<Rightarrow> tenant_policy option" where
  "tenant_entry entries tenant doc_type p =
     last_with (\<lambda>t. (tp_tenant t, tp_type t, tp_policy t, tp_version t) = (tenant, doc_type, ap_id p, ap_version p)) entries"

text \<open>The tenant's permission, and whether the supplied threshold evidence contradicts the configured one.\<close>

definition auto_permitted :: "approval_policy \<Rightarrow> tenant_policy option \<Rightarrow> string \<Rightarrow> string \<Rightarrow> bool" where
  "auto_permitted p entry output_format recipe \<longleftrightarrow>
     ap_auto p \<and> (case entry of None \<Rightarrow> False | Some t \<Rightarrow>
        tp_auto t \<and> (tp_formats t = [] \<or> output_format \<in> set (tp_formats t)) \<and> (tp_recipes t = [] \<or> recipe \<in> set (tp_recipes t)))"

definition threshold_mismatch :: "tenant_policy option \<Rightarrow> string option \<Rightarrow> bool" where
  "threshold_mismatch entry supplied =
     (case entry of None \<Rightarrow> False | Some t \<Rightarrow>
        tp_auto t \<and> (let s = py_strip (case supplied of None \<Rightarrow> [] | Some x \<Rightarrow> x);
                         c = py_strip (case tp_threshold t of None \<Rightarrow> [] | Some x \<Rightarrow> x)
                     in s \<noteq> [] \<and> s \<noteq> c))"

definition subject_hash :: "gate_fact list \<Rightarrow> artifact_lineage \<Rightarrow> string option" where
  "subject_hash facts lin = (case fact_of_gate ''gate2'' facts of Some f \<Rightarrow> gf_hash f | None \<Rightarrow> al_lineage_hash lin)"

definition valid_signatures :: "gate_fact list \<Rightarrow> artifact_lineage \<Rightarrow> release_signature list \<Rightarrow> release_signature list" where
  "valid_signatures facts lin signed =
     filter (\<lambda>s. Some (rs_subject s) = subject_hash facts lin \<and> rs_gate s = ''gate2'') signed"

definition evaluate :: "(json \<Rightarrow> string) \<Rightarrow> policy_registry \<Rightarrow> tenant_policy list \<Rightarrow> string \<Rightarrow> string \<Rightarrow> string \<Rightarrow> string
    \<Rightarrow> gate_fact list \<Rightarrow> artifact_lineage \<Rightarrow> release_signature list \<Rightarrow> int \<Rightarrow> string \<Rightarrow> string \<Rightarrow> string option
    \<Rightarrow> release_error + release_decision" where
  "evaluate sha reg entries tenant_id document_type pid version facts lin signed issue_count output_format recipe threshold =
     (case resolve_policy pid version reg of
        Inl e \<Rightarrow> Inl e
      | Inr p \<Rightarrow>
          (let tenant = py_strip tenant_id; doc_type = py_strip document_type;
               entry = tenant_entry entries tenant doc_type p;
               mismatch = threshold_mismatch entry threshold;
               auto_allowed = (auto_permitted p entry output_format recipe \<and> \<not> mismatch);
               valid = valid_signatures facts lin signed;
               reasons = first_occurrences (
                 binding_reasons p doc_type lin facts
                 @ gate_reasons ''gate1'' (ap_gate1 p) facts @ gate_reasons ''gate2'' (ap_gate2 p) facts
                 @ (if issue_count > ap_max_issues p then [''issue_threshold_exceeded''] else [])
                 @ (if \<not> auto_allowed \<and> \<not> set (ap_roles p) \<subseteq> rs_role ` set valid then [''required_signer_missing''] else []));
               verdict =
                 (if reasons \<noteq> [] then (''blocked'', False, reasons)
                  else if auto_allowed \<or> valid \<noteq> [] then (''released'', True, [])
                  else (''needs_review'', False,
                        if mismatch then [''threshold_evidence_mismatch''] else [''human_release_signature_required'']))
           in normalize_decision sha
                \<lparr>rd_status = fst verdict, rd_allowed = fst (snd verdict), rd_tenant = tenant, rd_type = doc_type,
                 rd_policy = ap_id p, rd_version = ap_version p, rd_plan = al_plan lin, rd_plan_hash = al_plan_hash lin,
                 rd_artifact_hash = al_hash lin, rd_fact_ids = map gf_id facts, rd_signature_ids = map rs_id valid,
                 rd_lineage_hash = al_lineage_hash lin, rd_reasons = snd (snd verdict), rd_hash = None\<rparr>))"

section \<open>Lineage\<close>

definition lineage_by_id :: "artifact_lineage list \<Rightarrow> string \<Rightarrow> artifact_lineage option" where
  "lineage_by_id records i = last_with (\<lambda>a. al_id a = i) records"

definition parent_of :: "artifact_lineage \<Rightarrow> string" where
  "parent_of a = (case al_parent a of None \<Rightarrow> [] | Some i \<Rightarrow> i)"

text \<open>The loop of \<open>reconstruct_artifact_lineage\<close>, from the newest record to the oldest.\<close>

function lineage_loop :: "artifact_lineage list \<Rightarrow> string \<Rightarrow> string list \<Rightarrow> release_error + artifact_lineage list" where
  "lineage_loop records current seen =
     (if current = [] then Inr []
      else if current \<in> set seen then Inl Lineage_cycle
      else case lineage_by_id records current of
        None \<Rightarrow> Inl Lineage_parent_missing
      | Some a \<Rightarrow> map_sum id (\<lambda>older. a # older) (lineage_loop records (parent_of a) (current # seen)))"
  by auto

lemma last_withD: "last_with P xs = Some x \<Longrightarrow> x \<in> set xs \<and> P x"
  unfolding last_with_def by (drule fetchone_SomeD) simp

lemma last_with_None: "last_with P xs = None \<longleftrightarrow> (\<forall>x \<in> set xs. \<not> P x)"
  by (simp add: last_with_def fetchone_None_iff)

termination lineage_loop
proof (relation "measure (\<lambda>(records, current, seen). card (al_id ` set records - set seen))")
  fix records current seen a
  assume new: "current \<notin> set seen" and found: "lineage_by_id records current = Some a"
  have "a \<in> set records" "al_id a = current" using found by (auto simp: lineage_by_id_def dest: last_withD)
  then have mem: "current \<in> al_id ` set records - set seen" using new by auto
  have "al_id ` set records - set (current # seen) = (al_id ` set records - set seen) - {current}" by auto
  then show "((records, parent_of a, current # seen), records, current, seen)
      \<in> measure (\<lambda>(records, current, seen). card (al_id ` set records - set seen))"
    using card_Diff1_less [OF _ mem] by simp
qed simp

declare lineage_loop.simps [simp del]

definition reconstruct_artifact_lineage :: "artifact_lineage list \<Rightarrow> string \<Rightarrow> release_error + artifact_lineage list" where
  "reconstruct_artifact_lineage records artifact_id =
     (let current = py_strip artifact_id in
      if lineage_by_id records current = None then Inl Lineage_not_found
      else map_sum id rev (lineage_loop records current []))"

section \<open>The decision is exact\<close>

text \<open>What must hold for a release, stated on its own.  First the facts: they belong to the artifact, one for each
  gate, and every gate the policy requires is passed.\<close>

definition facts_bound :: "artifact_lineage \<Rightarrow> gate_fact list \<Rightarrow> bool" where
  "facts_bound lin facts \<longleftrightarrow>
     distinct (map gf_gate facts)
     \<and> (\<forall>f \<in> set facts. gf_plan f = al_plan lin \<and> gf_plan_version f = al_plan_version lin \<and> gf_plan_hash f = al_plan_hash lin
          \<and> (gf_artifact f = None \<or> gf_artifact f = Some (al_hash lin))
          \<and> (gf_gate f = ''gate2'' \<and> gf_status f = ''passed'' \<longrightarrow> gf_artifact f = Some (al_hash lin)))"

definition gate_passed :: "string \<Rightarrow> gate_fact list \<Rightarrow> bool" where
  "gate_passed gate facts \<longleftrightarrow> (\<exists>f \<in> set facts. gf_gate f = gate \<and> gf_status f = ''passed'')"

definition policy_bound :: "approval_policy \<Rightarrow> string \<Rightarrow> artifact_lineage \<Rightarrow> bool" where
  "policy_bound p doc_type lin \<longleftrightarrow>
     (ap_types p = [] \<or> doc_type \<in> set (ap_types p))
     \<and> al_plan lin \<noteq> [] \<and> al_plan_hash lin \<noteq> [] \<and> al_hash lin \<noteq> []
     \<and> al_policy lin = ap_id p \<and> al_policy_version lin = ap_version p
     \<and> al_policy_hash lin = (case ap_hash p of None \<Rightarrow> [] | Some h \<Rightarrow> h)"

text \<open>Then the authority: the tenant's standing permission, or signatures of every required role and at least one.\<close>

definition authorised :: "approval_policy \<Rightarrow> tenant_policy option \<Rightarrow> string \<Rightarrow> string \<Rightarrow> string option
    \<Rightarrow> release_signature list \<Rightarrow> bool" where
  "authorised p entry output_format recipe threshold valid \<longleftrightarrow>
     auto_permitted p entry output_format recipe \<and> \<not> threshold_mismatch entry threshold
     \<or> valid \<noteq> [] \<and> set (ap_roles p) \<subseteq> rs_role ` set valid"

lemma first_occurrences_Nil [simp]: "first_occurrences xs = [] \<longleftrightarrow> xs = []"
  by (simp add: first_occurrences_def)

lemma binding_reasons_empty:
  "binding_reasons p doc_type lin facts = [] \<longleftrightarrow> policy_bound p doc_type lin \<and> facts_bound lin facts" (is "?l \<longleftrightarrow> ?r")
proof
  have gates: "card (gf_gate ` set facts) = length facts \<longleftrightarrow> distinct (map gf_gate facts)"
    using distinct_card [of "map gf_gate facts"] card_distinct [of "map gf_gate facts"] by auto
  show "?r" if "?l"
    using that by (auto simp: binding_reasons_def policy_bound_def facts_bound_def fact_reasons_def gates split: if_splits)
  show "?l" if "?r"
    using that by (auto simp: binding_reasons_def policy_bound_def facts_bound_def fact_reasons_def gates)
qed

lemma gate_reasons_empty:
  assumes "distinct (map gf_gate facts)"
  shows "gate_reasons gate required facts = [] \<longleftrightarrow> (required \<longrightarrow> gate_passed gate facts)"
proof (cases "fact_of_gate gate facts")
  case None
  then have "\<not> gate_passed gate facts" by (auto simp: gate_passed_def fact_of_gate_def last_with_None)
  with None show ?thesis by (simp add: gate_reasons_def)
next
  case (Some f)
  then have "f \<in> set facts" "gf_gate f = gate" by (auto simp: fact_of_gate_def dest: last_withD)
  then have "gate_passed gate facts \<longleftrightarrow> gf_status f = ''passed''"
    using assms by (auto simp: gate_passed_def distinct_map inj_on_def)
  with Some show ?thesis by (simp add: gate_reasons_def)
qed

lemma normalize_decision_keeps:
  "normalize_decision sha d = Inr e \<Longrightarrow> rd_allowed e = rd_allowed d \<and> rd_status e = rd_status d"
  by (auto simp: normalize_decision_def Let_def check_hash_def split: sum.splits if_splits)


section \<open>What a signature covers\<close>

lemma stripped_fact:
  "strip_hash_excluded (HASH_EXCLUDED_FIELDS @ [''fact_hash'']) (fact_json (f\<lparr>gf_status := s, gf_plan_hash := h\<rparr>))
   = strip_hash_excluded (HASH_EXCLUDED_FIELDS @ [''fact_hash'']) (fact_json f)"
  by (simp add: fact_json_def HASH_EXCLUDED_FIELDS_def)

lemma normalize_plain_fact:
  assumes "gf_hash f = None" "gf_issues f = []"
  shows "normalize_fact sha f = Inr (f\<lparr>gf_hash := Some (planning_content_hash sha [''fact_hash''] (fact_json f))\<rparr>)"
  using assms by (cases f) (simp add: normalize_fact_def unique_entries_def check_hash_def Let_def)

text \<open>The hash of a gate fact covers neither its verdict nor its plan hash: a fact without issue codes has the same
  hash with every status and every plan hash.  Signatures name a fact by this hash, so one that was given on a pending
  or failed fact, or for another plan content, is valid for the passed fact of the released artifact.\<close>

theorem signature_ignores_verdict:
  assumes "normalize_fact sha f = Inr g" "gf_hash f = None" "gf_issues f = []"
  shows "normalize_fact sha (f\<lparr>gf_status := s, gf_plan_hash := h\<rparr>) = Inr (g\<lparr>gf_status := s, gf_plan_hash := h\<rparr>)
    \<and> (gf_gate f = ''gate2'' \<longrightarrow>
        valid_signatures [g\<lparr>gf_status := s, gf_plan_hash := h\<rparr>] lin signed = valid_signatures [g] lin signed)"
proof -
  have g: "g = f\<lparr>gf_hash := Some (planning_content_hash sha [''fact_hash''] (fact_json f))\<rparr>"
    using assms(1) normalize_plain_fact [of f sha] assms(2,3) by simp
  have "normalize_fact sha (f\<lparr>gf_status := s, gf_plan_hash := h\<rparr>) = Inr (g\<lparr>gf_status := s, gf_plan_hash := h\<rparr>)"
    using normalize_plain_fact [of "f\<lparr>gf_status := s, gf_plan_hash := h\<rparr>" sha] assms(2,3)
    by (simp add: g planning_content_hash_def stripped_fact)
  moreover have "valid_signatures [g\<lparr>gf_status := s, gf_plan_hash := h\<rparr>] lin signed = valid_signatures [g] lin signed"
    if "gf_gate f = ''gate2''"
    using that by (simp add: valid_signatures_def subject_hash_def fact_of_gate_def last_with_def g)
  ultimately show ?thesis by blast
qed

section \<open>Lineage chains\<close>

text \<open>A chain from the newest record to one without a parent.\<close>

fun ancestry :: "artifact_lineage list \<Rightarrow> string \<Rightarrow> artifact_lineage list \<Rightarrow> bool" where
  "ancestry records current [] \<longleftrightarrow> current = []"
| "ancestry records current (a # older) \<longleftrightarrow>
     current \<noteq> [] \<and> lineage_by_id records current = Some a \<and> ancestry records (parent_of a) older"

lemma lineage_by_idD: "lineage_by_id records i = Some a \<Longrightarrow> a \<in> set records \<and> al_id a = i"
  unfolding lineage_by_id_def by (rule last_withD)

lemma lineage_loop_iff:
  "lineage_loop records current seen = Inr chain \<longleftrightarrow>
   ancestry records current chain \<and> distinct (map al_id chain) \<and> set (map al_id chain) \<inter> set seen = {}"
proof (induction records current seen arbitrary: chain rule: lineage_loop.induct)
  case (1 records current seen)
  show ?case
  proof (cases "current = [] \<or> current \<in> set seen \<or> lineage_by_id records current = None")
    case True
    then show ?thesis
      by (cases chain) (auto simp: lineage_loop.simps [of records current seen] dest: lineage_by_idD)
  next
    case False
    then obtain a where a: "lineage_by_id records current = Some a" by blast
    have id: "al_id a = current" using lineage_by_idD [OF a] by simp
    have step: "lineage_loop records current seen = map_sum id (\<lambda>older. a # older) (lineage_loop records (parent_of a) (current # seen))"
      using False a by (simp add: lineage_loop.simps [of records current seen])
    have IH: "lineage_loop records (parent_of a) (current # seen) = Inr older \<longleftrightarrow>
        ancestry records (parent_of a) older \<and> distinct (map al_id older) \<and> set (map al_id older) \<inter> set (current # seen) = {}" for older
      using False a by (intro "1.IH") auto
    show ?thesis
    proof (cases chain)
      case Nil
      then show ?thesis using False by (cases "lineage_loop records (parent_of a) (current # seen)") (auto simp: step)
    next
      case (Cons b older)
      have "lineage_loop records current seen = Inr chain \<longleftrightarrow> b = a \<and> lineage_loop records (parent_of a) (current # seen) = Inr older"
        by (cases "lineage_loop records (parent_of a) (current # seen)") (auto simp: step Cons)
      then show ?thesis using False a id by (auto simp: IH Cons)
    qed
  qed
qed

text \<open>With every parent recorded and a rank that decreases towards the parents, there is a chain.\<close>

lemma ranked_ancestry:
  assumes "\<And>j a. lineage_by_id records j = Some a \<Longrightarrow> parent_of a \<noteq> [] \<Longrightarrow>
      lineage_by_id records (parent_of a) \<noteq> None \<and> (rank (parent_of a) :: nat) < rank j"
    and "current \<noteq> []" "lineage_by_id records current \<noteq> None"
  shows "\<exists>chain. ancestry records current chain \<and> distinct (map al_id chain) \<and> (\<forall>a \<in> set chain. rank (al_id a) \<le> rank current)"
  using assms(2,3)
proof (induction "rank current" arbitrary: current rule: less_induct)
  case less
  then obtain a where a: "lineage_by_id records current = Some a" by blast
  then have id: "al_id a = current" by (auto dest: lineage_by_idD)
  show ?case
  proof (cases "parent_of a = []")
    case True
    with a id less.prems show ?thesis by (intro exI [of _ "[a]"]) simp
  next
    case False
    then have up: "lineage_by_id records (parent_of a) \<noteq> None" "rank (parent_of a) < rank current"
      using assms(1) [OF a] by auto
    obtain older where o: "ancestry records (parent_of a) older" "distinct (map al_id older)"
      "\<forall>b \<in> set older. rank (al_id b) \<le> rank (parent_of a)"
      using less.hyps [OF up(2) False up(1)] by blast
    have low: "rank (al_id b) < rank current" if "b \<in> set older" for b
      using o(3) up(2) that by fastforce
    then have "current \<notin> al_id ` set older" by auto
    with a id o less.prems low show ?thesis
      by (intro exI [of _ "a # older"]) (auto simp: less_imp_le)
  qed
qed

text \<open>C22. The reconstruction of a lineage always ends.  It returns a chain exactly when following the parents from a
  recorded artifact ends at a record without a parent, with no record met twice, and the chain is those records from
  the oldest to the newest; and it does return one when every parent is recorded and no record is its own ancestor.\<close>

theorem lineage_reconstructed:
  "(reconstruct_artifact_lineage records i = Inr chain \<longleftrightarrow>
      lineage_by_id records (py_strip i) \<noteq> None \<and> ancestry records (py_strip i) (rev chain) \<and> distinct (map al_id chain))
   \<and> ((\<forall>j a. lineage_by_id records j = Some a \<and> parent_of a \<noteq> [] \<longrightarrow>
          lineage_by_id records (parent_of a) \<noteq> None \<and> (rank (parent_of a) :: nat) < rank j)
      \<and> py_strip i \<noteq> [] \<and> lineage_by_id records (py_strip i) \<noteq> None \<longrightarrow> (\<exists>c. reconstruct_artifact_lineage records i = Inr c))"
proof -
  have exact: "reconstruct_artifact_lineage records i = Inr c \<longleftrightarrow>
      lineage_by_id records (py_strip i) \<noteq> None \<and> ancestry records (py_strip i) (rev c) \<and> distinct (map al_id c)" for c
  proof -
    have "reconstruct_artifact_lineage records i = Inr c \<longleftrightarrow>
        lineage_by_id records (py_strip i) \<noteq> None \<and> lineage_loop records (py_strip i) [] = Inr (rev c)"
      by (cases "lineage_loop records (py_strip i) []") (auto simp: reconstruct_artifact_lineage_def Let_def)
    then show ?thesis by (auto simp: lineage_loop_iff rev_map [symmetric])
  qed
  moreover have "\<exists>c. reconstruct_artifact_lineage records i = Inr c"
    if ranks: "\<forall>j a. lineage_by_id records j = Some a \<and> parent_of a \<noteq> [] \<longrightarrow>
          lineage_by_id records (parent_of a) \<noteq> None \<and> (rank (parent_of a) :: nat) < rank j"
      and found: "py_strip i \<noteq> []" "lineage_by_id records (py_strip i) \<noteq> None"
  proof -
    obtain c where "ancestry records (py_strip i) c" "distinct (map al_id c)"
      using ranked_ancestry [of records rank "py_strip i"] ranks found by blast
    then have "reconstruct_artifact_lineage records i = Inr (rev c)"
      using found(2) unfolding exact by (simp flip: rev_map)
    then show ?thesis by blast
  qed
  ultimately show ?thesis by blast
qed

section \<open>Concrete decisions\<close>

definition demo_sha :: "json \<Rightarrow> string" where
  "demo_sha v = (case v of J_obj entries \<Rightarrow> concat (map (\<lambda>(k, x). case x of J_str s \<Rightarrow> s | _ \<Rightarrow> k) entries) | _ \<Rightarrow> [])"

definition demo_registry :: policy_registry where
  "demo_registry = (case build_builtin_approval_policy_registry demo_sha of Inr r \<Rightarrow> r | Inl e \<Rightarrow> [])"

definition demo_lineage :: "string \<Rightarrow> string option \<Rightarrow> artifact_lineage" where
  "demo_lineage i parent =
     \<lparr>al_id = i, al_hash = ''art'', al_parent = parent, al_revision = None, al_plan = ''plan'', al_plan_version = 1,
      al_plan_hash = ''ph2'', al_snapshot = ''s'', al_snapshot_hash = ''sh'', al_strategy = ''st'', al_strategy_version = ''1'',
      al_strategy_hash = ''sth'', al_policy = ''default-document-v1'', al_policy_version = ''1'',
      al_policy_hash = (case resolve_policy ''default-document-v1'' ''1'' demo_registry of Inr p \<Rightarrow> the (ap_hash p) | Inl e \<Rightarrow> []),
      al_manifest_hash = ''m'', al_lineage_hash = None\<rparr>"

definition demo_fact :: "string \<Rightarrow> string \<Rightarrow> string \<Rightarrow> string option \<Rightarrow> gate_fact" where
  "demo_fact gate status plan_hash artifact =
     (case normalize_fact demo_sha
        \<lparr>gf_id = gate, gf_gate = gate, gf_status = status, gf_plan = ''plan'', gf_plan_version = 1, gf_plan_hash = plan_hash,
         gf_artifact = artifact, gf_actor = None, gf_role = None, gf_issues = [], gf_evidence = [], gf_hash = None\<rparr>
      of Inr f \<Rightarrow> f | Inl e \<Rightarrow> undefined)"

text \<open>A signature on the pending gate-2 fact of an earlier plan content.\<close>

definition demo_signature :: release_signature where
  "demo_signature =
     \<lparr>rs_id = ''sig'', rs_gate = ''gate2'', rs_actor = ''u'', rs_role = ''document_owner'',
      rs_subject = the (gf_hash (demo_fact ''gate2'' ''pending'' ''ph1'' (Some ''art''))), rs_signed_at = 0, rs_signature = None\<rparr>"

definition demo_decision :: "release_signature list \<Rightarrow> release_error + release_decision" where
  "demo_decision signed = evaluate demo_sha demo_registry [] ''t'' ''report'' ''default-document-v1'' ''1''
     [demo_fact ''gate1'' ''passed'' ''ph2'' None, demo_fact ''gate2'' ''passed'' ''ph2'' (Some ''art'')]
     (demo_lineage ''a'' None) signed 0 '''' '''' None"


theorem signature_ignores_verdict_witness:
  "valid_signatures [demo_fact ''gate2'' ''passed'' ''ph2'' (Some ''art'')] (demo_lineage ''a'' None) [demo_signature] = [demo_signature]
   \<and> rd_status (projr (demo_decision [demo_signature])) = ''released''"
proof -
  let ?raw = "\<lparr>gf_id = ''gate2'', gf_gate = ''gate2'', gf_status = ''pending'', gf_plan = ''plan'', gf_plan_version = 1, gf_plan_hash = ''ph1'',
         gf_artifact = Some ''art'', gf_actor = None, gf_role = None, gf_issues = [], gf_evidence = [], gf_hash = None\<rparr>"
  let ?pending = "demo_fact ''gate2'' ''pending'' ''ph1'' (Some ''art'')"
  have f: "normalize_fact demo_sha ?raw = Inr ?pending" by code_simp
  have "valid_signatures [?pending\<lparr>gf_status := ''passed'', gf_plan_hash := ''ph2''\<rparr>] (demo_lineage ''a'' None) [demo_signature]
      = valid_signatures [?pending] (demo_lineage ''a'' None) [demo_signature]"
    using signature_ignores_verdict [OF f, of "''ph2''" "''passed''" "demo_lineage ''a'' None" "[demo_signature]"] by simp
  moreover have "?pending\<lparr>gf_status := ''passed'', gf_plan_hash := ''ph2''\<rparr> = demo_fact ''gate2'' ''passed'' ''ph2'' (Some ''art'')"
    "valid_signatures [?pending] (demo_lineage ''a'' None) [demo_signature] = [demo_signature]"
    "rd_status (projr (demo_decision [demo_signature])) = ''released''" by code_simp+
  ultimately show ?thesis by (simp only: simp_thms)
qed

theorem lineage_reconstructed_witness:
  "reconstruct_artifact_lineage [demo_lineage ''b'' (Some ''a''), demo_lineage ''a'' None] '' b '' =
     Inr [demo_lineage ''a'' None, demo_lineage ''b'' (Some ''a'')]"
proof -
  let ?records = "[demo_lineage ''b'' (Some ''a''), demo_lineage ''a'' None]"
  let ?chain = "[demo_lineage ''a'' None, demo_lineage ''b'' (Some ''a'')]"
  have "lineage_by_id ?records (py_strip '' b '') \<noteq> None \<and> ancestry ?records (py_strip '' b '') (rev ?chain) \<and> distinct (map al_id ?chain)"
    by code_simp
  then show ?thesis using lineage_reconstructed [of ?records "'' b ''" ?chain "\<lambda>_. 0"] by blast
qed

end
