(* ===== verification/Tool_Policy.thy ===== *)
theory Tool_Policy
  imports Prelude "HOL-Library.List_Lexorder" "HOL-Library.Char_ord" "HOL-Library.Product_Lexorder"
begin

text \<open>
  Which external tools a turn may use: \<open>agents/mcp/policy.py\<close>, with the server record of \<open>agents/mcp/models.py\<close>
  and the slugs of \<open>agents/mcp/validation.py\<close>.  \<open>resolve_visible_servers\<close> chooses the servers from the
  enabled ones, the user's subscriptions and departments; \<open>load_tools\<close> filters what the servers offer and binds
  each tool to a name.

  The rows the store returns and the tools discovery returns are arguments, with failures as values.  Metrics and
  the wording of the prompt are left out.
\<close>

section \<open>Names\<close>

definition MCP_TOOL_PREFIX :: string where
  "MCP_TOOL_PREFIX = ''mcp__''"

definition slug_start :: "char \<Rightarrow> bool" where
  "slug_start c = (let n = (of_char c :: nat) in (97 \<le> n \<and> n \<le> 122) \<or> (48 \<le> n \<and> n \<le> 57))"

definition slug_char :: "char \<Rightarrow> bool" where
  "slug_char c \<longleftrightarrow> slug_start c \<or> c = CHR ''_'' \<or> c = CHR ''-''"

text \<open>\<open>SLUG_PATTERN\<close>: a letter or digit, then 1 to 49 letters, digits, underscores or hyphens.\<close>

fun slug_pattern :: "string \<Rightarrow> bool" where
  "slug_pattern [] \<longleftrightarrow> False"
| "slug_pattern (c # cs) \<longleftrightarrow> slug_start c \<and> 1 \<le> length cs \<and> length cs \<le> 49 \<and> list_all slug_char cs"

definition normalize_slug :: "string \<Rightarrow> string option" where
  "normalize_slug raw = (let slug = py_lower (py_strip raw) in if slug_pattern slug then Some slug else None)"

definition mcp_tool_name :: "string \<Rightarrow> string \<Rightarrow> string" where
  "mcp_tool_name slug tool = MCP_TOOL_PREFIX @ slug @ ''__'' @ tool"

definition is_mcp_tool_name :: "string \<Rightarrow> bool" where
  "is_mcp_tool_name name \<longleftrightarrow> take (length MCP_TOOL_PREFIX) name = MCP_TOOL_PREFIX"

text \<open>\<open>text.split("__", 1)\<close>, \<open>None\<close> when the separator does not occur.\<close>

fun split_dunder :: "string \<Rightarrow> (string \<times> string) option" where
  "split_dunder (a # b # cs) =
     (if a = CHR ''_'' \<and> b = CHR ''_'' then Some ([], cs)
      else map_option (\<lambda>(l, r). (a # l, r)) (split_dunder (b # cs)))"
| "split_dunder _ = None"

definition parse_mcp_tool_name :: "string \<Rightarrow> (string \<times> string) option" where
  "parse_mcp_tool_name name =
     (if \<not> is_mcp_tool_name name then None
      else case split_dunder (drop (length MCP_TOOL_PREFIX) name) of
        None \<Rightarrow> None
      | Some (slug, tool) \<Rightarrow> if slug = [] \<or> tool = [] then None else Some (slug, tool))"

section \<open>Servers and subscriptions\<close>

record mcp_server =
  ms_id :: int
  ms_slug :: string
  ms_scope :: string
  ms_departments :: "int list"
  ms_disabled :: "string list"
  ms_write :: "string list"
  ms_headers_error :: string
  ms_updated :: string

record mcp_subscription =
  sb_slug :: string
  sb_allow_write :: bool

text \<open>A department id in the request metadata: a number, or a text with what \<open>int\<close> reads from it.\<close>

datatype department = Dept_number int | Dept_text string "int option"

definition dept_truthy :: "department option \<Rightarrow> bool" where
  "dept_truthy d = (case d of None \<Rightarrow> False | Some (Dept_number n) \<Rightarrow> n \<noteq> 0 | Some (Dept_text s r) \<Rightarrow> s \<noteq> [])"

definition dept_int :: "department option \<Rightarrow> int option" where
  "dept_int d = (case d of None \<Rightarrow> None | Some (Dept_number n) \<Rightarrow> Some n | Some (Dept_text s r) \<Rightarrow> r)"

text \<open>The request context; \<open>None\<close> as administrator flag is a context that cannot answer, no metadata a failing read.\<close>

record turn_context =
  tc_admin :: "bool option"
  tc_metadata :: "(department option \<times> department option) option"

record mcp_settings =
  st_enabled :: bool
  st_unified_tools :: bool
  st_governor :: bool
  st_write_enabled :: bool
  st_max_servers :: int

definition credentials_ok :: "mcp_server \<Rightarrow> bool" where
  "credentials_ok r \<longleftrightarrow> ms_headers_error r = []"

definition department_allows :: "department option \<Rightarrow> mcp_server \<Rightarrow> bool" where
  "department_allows d r =
     (if ms_scope r = ''all'' then True
      else if ms_scope r \<noteq> ''departments'' then False
      else case dept_int d of None \<Rightarrow> False | Some n \<Rightarrow> n \<in> set (ms_departments r))"

definition mcp_prerequisites_met :: "mcp_settings \<Rightarrow> bool \<times> string" where
  "mcp_prerequisites_met st =
     (if \<not> st_enabled st then (False, ''disabled'')
      else if \<not> st_unified_tools st then (False, ''unified_tools_disabled'')
      else if \<not> st_governor st then (False, ''governor_disabled'')
      else (True, []))"

record server_snapshot =
  ss_servers :: "mcp_server list"
  ss_skipped :: "(string \<times> string) list"
  ss_reason :: string
  ss_allow_write :: "string list"

definition no_servers :: "string \<Rightarrow> server_snapshot" where
  "no_servers reason = \<lparr>ss_servers = [], ss_skipped = [], ss_reason = reason, ss_allow_write = []\<rparr>"

definition turn_department :: "turn_context \<Rightarrow> department option" where
  "turn_department ctx = (case tc_metadata ctx of None \<Rightarrow> None | Some (res, dep) \<Rightarrow> if dept_truthy res then res else dep)"

text \<open>A dictionary by slug: the last subscription of a slug stays.\<close>

definition subscription_of :: "mcp_subscription list \<Rightarrow> string \<Rightarrow> mcp_subscription option" where
  "subscription_of subs slug = fetchone (\<lambda>s. sb_slug s = slug) (rev subs)"

fun split_visible :: "department option \<Rightarrow> mcp_subscription list \<Rightarrow> mcp_server list \<Rightarrow> mcp_server list \<times> (string \<times> string) list" where
  "split_visible d subs [] = ([], [])"
| "split_visible d subs (r # rs) =
     (case split_visible d subs rs of (visible, skipped) \<Rightarrow>
        if ms_slug r \<notin> sb_slug ` set subs then (visible, (ms_slug r, ''not_subscribed'') # skipped)
        else if \<not> department_allows d r then (visible, (ms_slug r, ''department'') # skipped)
        else if \<not> credentials_ok r then (visible, (ms_slug r, ''credentials'') # skipped)
        else (r # visible, skipped))"

text \<open>\<open>sort(key=..., reverse=True)\<close> keeps the order of equal keys.\<close>

definition newest_servers :: "mcp_server list \<Rightarrow> mcp_server list" where
  "newest_servers rs = rev (sort_key (\<lambda>r. (ms_updated r, ms_id r)) (rev rs))"

definition server_limit :: "mcp_settings \<Rightarrow> nat" where
  "server_limit st = nat (max 1 (if st_max_servers st = 0 then 5 else st_max_servers st))"

text \<open>The store's answer is \<open>None\<close> when it raises.\<close>

definition resolve_visible_servers :: "mcp_settings \<Rightarrow> turn_context option \<Rightarrow> int option
    \<Rightarrow> (mcp_server list \<times> mcp_subscription list) option \<Rightarrow> server_snapshot" where
  "resolve_visible_servers st ctx user_id store =
     (if \<not> fst (mcp_prerequisites_met st) then no_servers (snd (mcp_prerequisites_met st))
      else case ctx of
        None \<Rightarrow> no_servers ''missing_context''
      | Some c \<Rightarrow>
          (case tc_admin c of
             None \<Rightarrow> no_servers ''missing_context''
           | Some True \<Rightarrow> no_servers ''governance_role''
           | Some False \<Rightarrow>
               if user_id = None then no_servers ''missing_user_id''
               else case store of
                 None \<Rightarrow> no_servers ''store_error''
               | Some (enabled, subs) \<Rightarrow>
                   (case split_visible (turn_department c) subs enabled of
                      (visible, skipped) \<Rightarrow>
                        (let sorted_visible = newest_servers visible; kept = take (server_limit st) sorted_visible in
                         \<lparr>ss_servers = kept,
                          ss_skipped = skipped @ map (\<lambda>r. (ms_slug r, ''server_limit'')) (drop (server_limit st) sorted_visible),
                          ss_reason = [],
                          ss_allow_write = map ms_slug (filter (\<lambda>r. ms_write r \<noteq> []
                             \<and> (case subscription_of subs (ms_slug r) of None \<Rightarrow> False | Some s \<Rightarrow> sb_allow_write s)) kept)\<rparr>))))"

section \<open>Tools of a turn\<close>

record raw_tool =
  rt_name :: string
  rt_read_only :: bool

record tool_binding =
  tb_server :: mcp_server
  tb_tool :: string
  tb_safe :: string
  tb_read_only :: bool
  tb_write :: bool

datatype skip = Server_skip string string | Tool_skip string string string

record run_plan =
  rp_servers :: "mcp_server list"
  rp_bindings :: "tool_binding list"
  rp_skipped :: "skip list"
  rp_errors :: "(string \<times> string) list"
  rp_reason :: string

definition CAPABILITY_INVOKE :: string where
  "CAPABILITY_INVOKE = ''external_tool.invoke''"

definition CAPABILITY_WRITE :: string where
  "CAPABILITY_WRITE = ''external_tool.write''"

text \<open>Why a tool is not offered, in the order of the checks.\<close>

definition tool_blocked :: "bool \<Rightarrow> bool \<Rightarrow> mcp_server \<Rightarrow> raw_tool \<Rightarrow> string option" where
  "tool_blocked may_write consent r t =
     (let name = py_strip (rt_name t) in
      if rt_read_only t then (if name \<in> set (ms_disabled r) then Some ''disabled'' else None)
      else if name \<notin> set (ms_write r) then Some ''not_read_only''
      else if \<not> may_write then Some ''write_disabled''
      else if name \<in> set (ms_disabled r) then Some ''disabled''
      else if \<not> consent then Some ''not_allowed_write''
      else None)"

fun bind_tools :: "bool \<Rightarrow> bool \<Rightarrow> mcp_server \<Rightarrow> raw_tool list \<Rightarrow> string set \<Rightarrow> tool_binding list \<times> skip list \<times> string set" where
  "bind_tools may_write consent r [] used = ([], [], used)"
| "bind_tools may_write consent r (t # ts) used =
     (let name = py_strip (rt_name t); safe = mcp_tool_name (ms_slug r) name;
          skip = \<lambda>reason. (case bind_tools may_write consent r ts used of
                            (bs, sk, u) \<Rightarrow> (bs, Tool_skip (ms_slug r) name reason # sk, u))
      in if name = [] then bind_tools may_write consent r ts used
         else case tool_blocked may_write consent r t of
           Some reason \<Rightarrow> skip reason
         | None \<Rightarrow>
             if safe \<in> used then skip ''name_conflict''
             else (case bind_tools may_write consent r ts (insert safe used) of
                     (bs, sk, u) \<Rightarrow>
                       (\<lparr>tb_server = r, tb_tool = name, tb_safe = safe, tb_read_only = rt_read_only t,
                         tb_write = (\<not> rt_read_only t)\<rparr> # bs, sk, u)))"

text \<open>What discovery returned for one server: its tools, or the kind of its error.\<close>

fun bind_servers :: "bool \<Rightarrow> string list \<Rightarrow> (mcp_server \<times> (string + raw_tool list)) list \<Rightarrow> string set
    \<Rightarrow> tool_binding list \<times> skip list \<times> (string \<times> string) list" where
  "bind_servers may_write consents [] used = ([], [], [])"
| "bind_servers may_write consents ((r, Inl kind) # rest) used =
     (case bind_servers may_write consents rest used of (bs, sk, errs) \<Rightarrow> (bs, sk, (ms_slug r, kind) # errs))"
| "bind_servers may_write consents ((r, Inr tools) # rest) used =
     (case bind_tools may_write (ms_slug r \<in> set consents) r tools used of
        (bs, sk, used') \<Rightarrow>
          (case bind_servers may_write consents rest used' of
             (bs', sk', errs) \<Rightarrow> (bs @ bs', sk @ sk', errs)))"

definition load_tools :: "mcp_settings \<Rightarrow> server_snapshot \<Rightarrow> string list \<Rightarrow> string list
    \<Rightarrow> string + (string + raw_tool list) list \<Rightarrow> run_plan" where
  "load_tools st snapshot effective_capabilities local_names discovered =
     (let plan = \<lparr>rp_servers = ss_servers snapshot, rp_bindings = [],
                  rp_skipped = map (\<lambda>(slug, reason). Server_skip slug reason) (ss_skipped snapshot), rp_errors = [], rp_reason = []\<rparr>;
          capabilities = map py_strip effective_capabilities
      in if ss_servers snapshot = [] then plan\<lparr>rp_reason := ss_reason snapshot\<rparr>
         else if CAPABILITY_INVOKE \<notin> set capabilities then plan\<lparr>rp_reason := ''capability''\<rparr>
         else case discovered of
           Inl kind \<Rightarrow> plan\<lparr>rp_reason := ''discovery'', rp_errors := [(''*'', kind)]\<rparr>
         | Inr results \<Rightarrow>
             (case bind_servers (st_write_enabled st \<and> CAPABILITY_WRITE \<in> set capabilities) (ss_allow_write snapshot)
                     (zip (ss_servers snapshot) results) (set local_names) of
                (bs, sk, errs) \<Rightarrow> plan\<lparr>rp_bindings := bs, rp_skipped := rp_skipped plan @ sk, rp_errors := errs\<rparr>))"

section \<open>Names are read back\<close>

lemma split_dunder_short [simp]: "split_dunder [] = None" "split_dunder [a] = None"
  by simp_all

lemma split_dunder_exact:
  "split_dunder (s @ CHR ''_'' # CHR ''_'' # t) = Some (s, t) \<longleftrightarrow> split_dunder (s @ [CHR ''_'']) = None"
proof (induction s)
  case (Cons a s)
  show ?case
  proof (cases s)
    case Nil
    then show ?thesis by simp
  next
    case (Cons b u)
    then show ?thesis using Cons.IH
      by (cases "split_dunder (b # u @ CHR ''_'' # CHR ''_'' # t)") auto
  qed
qed simp

text \<open>The name of a tool is read back as its server and tool exactly when both are non-empty and the slug, followed
  by an underscore, contains no double underscore.\<close>

theorem tool_name_roundtrip:
  "parse_mcp_tool_name (mcp_tool_name slug tool) = Some (slug, tool) \<longleftrightarrow>
   slug \<noteq> [] \<and> tool \<noteq> [] \<and> split_dunder (slug @ ''_'') = None"
  using split_dunder_exact [of slug tool]
  by (auto simp: parse_mcp_tool_name_def is_mcp_tool_name_def mcp_tool_name_def MCP_TOOL_PREFIX_def split: option.splits if_splits)

text \<open>The slug pattern admits slugs whose tools are read back wrongly, and two tools of different servers that share one
  name.\<close>

theorem slugs_not_parseable:
  "normalize_slug ''ab_'' = Some ''ab_'' \<and> parse_mcp_tool_name (mcp_tool_name ''ab_'' ''t'') = Some (''ab'', ''_t'')
   \<and> normalize_slug ''ab__c'' = Some ''ab__c'' \<and> mcp_tool_name ''ab__c'' ''d'' = mcp_tool_name ''ab'' ''c__d''"
  by code_simp

section \<open>What a turn may call\<close>

lemma split_visible_fst:
  "fst (split_visible d subs rs) = filter (\<lambda>r. ms_slug r \<in> sb_slug ` set subs \<and> department_allows d r \<and> credentials_ok r) rs"
  by (induction rs) (auto simp: case_prod_beta)

lemma newest_servers_set [simp]: "set (newest_servers rs) = set rs"
  by (simp add: newest_servers_def)

text \<open>Every server of a snapshot passed the visibility checks, and consents come from the user's own subscriptions.\<close>

lemma visible_server:
  assumes "r \<in> set (ss_servers (resolve_visible_servers st ctx user_id store))"
  obtains c enabled subs where "ctx = Some c" "tc_admin c = Some False" "user_id \<noteq> None" "store = Some (enabled, subs)"
    "fst (mcp_prerequisites_met st)" "r \<in> set enabled" "ms_slug r \<in> sb_slug ` set subs"
    "department_allows (turn_department c) r" "credentials_ok r"
    "length (ss_servers (resolve_visible_servers st ctx user_id store)) \<le> server_limit st"
    "\<forall>slug \<in> set (ss_allow_write (resolve_visible_servers st ctx user_id store)).
       \<exists>s. subscription_of subs slug = Some s \<and> sb_allow_write s"
proof -
  obtain c enabled subs where ctx: "ctx = Some c" "tc_admin c = Some False" "user_id \<noteq> None" "store = Some (enabled, subs)"
    and pre: "fst (mcp_prerequisites_met st)"
    using assms by (auto simp: resolve_visible_servers_def no_servers_def split: if_splits option.splits bool.splits)
  define kept where "kept = take (server_limit st) (newest_servers (fst (split_visible (turn_department c) subs enabled)))"
  have snap: "ss_servers (resolve_visible_servers st ctx user_id store) = kept"
    "ss_allow_write (resolve_visible_servers st ctx user_id store) = map ms_slug (filter (\<lambda>r. ms_write r \<noteq> []
       \<and> (case subscription_of subs (ms_slug r) of None \<Rightarrow> False | Some s \<Rightarrow> sb_allow_write s)) kept)"
    using ctx pre by (auto simp: resolve_visible_servers_def kept_def Let_def case_prod_beta)
  have "r \<in> set (fst (split_visible (turn_department c) subs enabled))"
    using assms in_set_takeD unfolding snap kept_def by fastforce
  then have r: "r \<in> set enabled" "ms_slug r \<in> sb_slug ` set subs" "department_allows (turn_department c) r" "credentials_ok r"
    by (auto simp: split_visible_fst)
  show thesis
  proof (rule that [OF ctx pre r])
    show "length (ss_servers (resolve_visible_servers st ctx user_id store)) \<le> server_limit st" by (simp add: snap kept_def)
    show "\<forall>slug \<in> set (ss_allow_write (resolve_visible_servers st ctx user_id store)).
       \<exists>s. subscription_of subs slug = Some s \<and> sb_allow_write s"
      by (auto simp: snap split: option.splits)
  qed
qed

text \<open>A bound tool passed the checks of its server.\<close>

definition binding_ok :: "bool \<Rightarrow> string list \<Rightarrow> tool_binding \<Rightarrow> bool" where
  "binding_ok may_write consents b \<longleftrightarrow>
     tb_safe b = mcp_tool_name (ms_slug (tb_server b)) (tb_tool b) \<and> tb_tool b \<noteq> [] \<and> tb_tool b \<notin> set (ms_disabled (tb_server b))
     \<and> tb_write b = (\<not> tb_read_only b)
     \<and> (tb_write b \<longrightarrow> may_write \<and> tb_tool b \<in> set (ms_write (tb_server b)) \<and> ms_slug (tb_server b) \<in> set consents)"

text \<open>Names given out so far stay used, and new ones are new.\<close>

lemma bind_tools_ok:
  assumes "bind_tools may_write (ms_slug r \<in> set consents) r ts used = (bs, sk, used')"
  shows "list_all (\<lambda>b. tb_server b = r \<and> binding_ok may_write consents b) bs
    \<and> distinct (map tb_safe bs) \<and> tb_safe ` set bs \<inter> used = {} \<and> used' = used \<union> tb_safe ` set bs"
  using assms
proof (induction ts arbitrary: used bs sk used')
  case (Cons t ts)
  let ?name = "py_strip (rt_name t)"
  let ?safe = "mcp_tool_name (ms_slug r) ?name"
  let ?consent = "ms_slug r \<in> set consents"
  show ?case
  proof (cases "?name = [] \<or> tool_blocked may_write ?consent r t \<noteq> None \<or> ?safe \<in> used")
    case True
    obtain bs0 sk0 u0 where rest: "bind_tools may_write ?consent r ts used = (bs0, sk0, u0)" by (metis prod_cases3)
    have "bs = bs0 \<and> used' = u0"
      using Cons.prems True rest by (auto simp: Let_def split: if_splits option.splits)
    with Cons.IH [OF rest] show ?thesis by simp
  next
    case False
    obtain bs0 sk0 u0 where rest: "bind_tools may_write ?consent r ts (insert ?safe used) = (bs0, sk0, u0)" by (metis prod_cases3)
    let ?b = "\<lparr>tb_server = r, tb_tool = ?name, tb_safe = ?safe, tb_read_only = rt_read_only t, tb_write = (\<not> rt_read_only t)\<rparr>"
    have bs: "bs = ?b # bs0 \<and> used' = u0" using Cons.prems False rest by (simp add: Let_def)
    have "binding_ok may_write consents ?b"
      using False by (auto simp: binding_ok_def tool_blocked_def Let_def split: if_splits)
    with Cons.IH [OF rest] bs False show ?thesis by auto
  qed
qed simp

lemma bind_servers_ok:
  assumes "bind_servers may_write consents rs used = (bs, sk, errs)"
  shows "list_all (\<lambda>b. tb_server b \<in> fst ` set rs \<and> binding_ok may_write consents b) bs
    \<and> distinct (map tb_safe bs) \<and> tb_safe ` set bs \<inter> used = {}"
  using assms
proof (induction may_write consents rs used arbitrary: bs sk errs rule: bind_servers.induct)
  case (2 may_write consents r kind rest used)
  obtain bs0 sk0 e0 where rest: "bind_servers may_write consents rest used = (bs0, sk0, e0)" by (metis prod_cases3)
  with "2.IH" [OF rest] "2.prems" show ?case by (auto simp: list_all_iff)
next
  case (3 may_write consents r tools rest used)
  obtain bs1 sk1 u1 where one: "bind_tools may_write (ms_slug r \<in> set consents) r tools used = (bs1, sk1, u1)" by (metis prod_cases3)
  obtain bs0 sk0 e0 where rest: "bind_servers may_write consents rest u1 = (bs0, sk0, e0)" by (metis prod_cases3)
  have "bs = bs1 @ bs0" using "3.prems" one rest by simp
  with bind_tools_ok [OF one] "3.IH" [OF one [symmetric] _ rest] show ?case by (auto simp: list_all_iff)
qed simp

text \<open>The gates in full, for the property below and for the composition with the registry of servers.\<close>

lemma bound_tool_gates:
  assumes "plan = load_tools st (resolve_visible_servers st ctx user_id store) caps local_names discovered"
    and "b \<in> set (rp_bindings plan)"
  shows "(\<exists>c enabled subs. ctx = Some c \<and> tc_admin c = Some False \<and> user_id \<noteq> None \<and> store = Some (enabled, subs)
      \<and> st_enabled st \<and> st_unified_tools st \<and> st_governor st \<and> CAPABILITY_INVOKE \<in> set (map py_strip caps)
      \<and> tb_server b \<in> set enabled \<and> ms_slug (tb_server b) \<in> sb_slug ` set subs
      \<and> department_allows (turn_department c) (tb_server b) \<and> credentials_ok (tb_server b)
      \<and> tb_tool b \<notin> set (ms_disabled (tb_server b)) \<and> tb_safe b = mcp_tool_name (ms_slug (tb_server b)) (tb_tool b)
      \<and> (tb_read_only b \<or> st_write_enabled st \<and> CAPABILITY_WRITE \<in> set (map py_strip caps)
          \<and> tb_tool b \<in> set (ms_write (tb_server b))
          \<and> (\<exists>s. subscription_of subs (ms_slug (tb_server b)) = Some s \<and> sb_allow_write s)))
    \<and> distinct (map tb_safe (rp_bindings plan)) \<and> tb_safe ` set (rp_bindings plan) \<inter> set local_names = {}
    \<and> length (rp_servers plan) \<le> server_limit st"
proof -
  define snapshot where "snapshot = resolve_visible_servers st ctx user_id store"
  have plan: "plan = load_tools st snapshot caps local_names discovered" using assms(1) by (simp add: snapshot_def)
  have invoke: "CAPABILITY_INVOKE \<in> set (map py_strip caps)"
    using assms(2) unfolding plan by (auto simp: load_tools_def Let_def split: if_splits)
  have servers: "rp_servers plan = ss_servers snapshot"
    unfolding plan by (simp add: load_tools_def Let_def split: sum.split prod.split)
  let ?may = "st_write_enabled st \<and> CAPABILITY_WRITE \<in> set (map py_strip caps)"
  obtain results bs sk errs where binds:
    "bind_servers ?may (ss_allow_write snapshot) (zip (ss_servers snapshot) results) (set local_names) = (bs, sk, errs)"
    and bs: "rp_bindings plan = bs"
    using assms(2) unfolding plan
    by (cases discovered) (auto simp: load_tools_def Let_def split: if_splits prod.splits)
  note ok = bind_servers_ok [OF binds]
  have b: "tb_server b \<in> set (ss_servers snapshot)" "binding_ok ?may (ss_allow_write snapshot) b"
    using ok assms(2) bs by (fastforce simp: list_all_iff dest: set_zip_leftD)+
  obtain c enabled subs where vis: "ctx = Some c" "tc_admin c = Some False" "user_id \<noteq> None" "store = Some (enabled, subs)"
    "fst (mcp_prerequisites_met st)" "tb_server b \<in> set enabled" "ms_slug (tb_server b) \<in> sb_slug ` set subs"
    "department_allows (turn_department c) (tb_server b)" "credentials_ok (tb_server b)"
    "length (ss_servers snapshot) \<le> server_limit st"
    "\<forall>slug \<in> set (ss_allow_write snapshot). \<exists>s. subscription_of subs slug = Some s \<and> sb_allow_write s"
    using b(1) unfolding snapshot_def by (rule visible_server)
  have on: "st_enabled st" "st_unified_tools st" "st_governor st"
    using vis(5) by (auto simp: mcp_prerequisites_met_def split: if_splits)
  have writes: "tb_read_only b \<or> ?may \<and> tb_tool b \<in> set (ms_write (tb_server b))
      \<and> (\<exists>s. subscription_of subs (ms_slug (tb_server b)) = Some s \<and> sb_allow_write s)"
    using b(2) vis(11) by (auto simp: binding_ok_def)
  have tool: "tb_tool b \<notin> set (ms_disabled (tb_server b))" "tb_safe b = mcp_tool_name (ms_slug (tb_server b)) (tb_tool b)"
    using b(2) by (simp_all add: binding_ok_def)
  have names: "distinct (map tb_safe (rp_bindings plan))" "tb_safe ` set (rp_bindings plan) \<inter> set local_names = {}"
    "length (rp_servers plan) \<le> server_limit st"
    using ok vis(10) by (simp_all add: bs servers)
  show ?thesis
    by (intro conjI exI [of _ c] exI [of _ enabled] exI [of _ subs])
      (fact vis on invoke tool names writes [unfolded conj_assoc])+
qed

text \<open>C23. Every tool a turn may call was let through by every gate: MCP, the unified tools and the governor are on, the
  user is known and no administrator, holds the invoke capability, subscribed the tool's enabled server, and their
  department and the server's credentials allow it; the tool is not disabled and keeps its namespaced name.  A tool that
  is not declared read-only also needs the write switch, the write capability, the server's whitelist and the
  user's write consent.  Names are unique and never those of local tools, and the servers stay within the limit.\<close>

theorem bound_tools_permitted:
  assumes "plan = load_tools st (resolve_visible_servers st ctx user_id store) caps local_names discovered"
    and "b \<in> set (rp_bindings plan)"
  shows "(\<exists>c enabled subs. ctx = Some c \<and> tc_admin c = Some False \<and> user_id \<noteq> None \<and> store = Some (enabled, subs)
      \<and> st_enabled st \<and> st_unified_tools st \<and> st_governor st \<and> CAPABILITY_INVOKE \<in> set (map py_strip caps)
      \<and> tb_server b \<in> set enabled \<and> ms_slug (tb_server b) \<in> sb_slug ` set subs
      \<and> department_allows (turn_department c) (tb_server b) \<and> credentials_ok (tb_server b)
      \<and> tb_tool b \<notin> set (ms_disabled (tb_server b)) \<and> tb_safe b = mcp_tool_name (ms_slug (tb_server b)) (tb_tool b)
      \<and> (tb_read_only b \<or> st_write_enabled st \<and> CAPABILITY_WRITE \<in> set (map py_strip caps)
          \<and> tb_tool b \<in> set (ms_write (tb_server b))
          \<and> (\<exists>s. subscription_of subs (ms_slug (tb_server b)) = Some s \<and> sb_allow_write s)))
    \<and> distinct (map tb_safe (rp_bindings plan)) \<and> tb_safe ` set (rp_bindings plan) \<inter> set local_names = {}
    \<and> length (rp_servers plan) \<le> server_limit st"
  by (rule bound_tool_gates [OF assms])

section \<open>A concrete turn\<close>

definition demo_settings :: mcp_settings where
  "demo_settings = \<lparr>st_enabled = True, st_unified_tools = True, st_governor = True, st_write_enabled = True, st_max_servers = 0\<rparr>"

definition demo_server :: mcp_server where
  "demo_server = \<lparr>ms_id = 1, ms_slug = ''cad'', ms_scope = ''departments'', ms_departments = [7], ms_disabled = [''purge''],
     ms_write = [''edit'', ''purge''], ms_headers_error = [], ms_updated = ''2025''\<rparr>"

definition demo_plan :: "bool \<Rightarrow> run_plan" where
  "demo_plan consent = load_tools demo_settings
     (resolve_visible_servers demo_settings (Some \<lparr>tc_admin = Some False, tc_metadata = Some (None, Some (Dept_number 7))\<rparr>) (Some 42)
        (Some ([demo_server], [\<lparr>sb_slug = ''cad'', sb_allow_write = consent\<rparr>])))
     [''external_tool.invoke'', ''external_tool.write''] [''mcp__cad__zoom'']
     (Inr [Inr [\<lparr>rt_name = ''view'', rt_read_only = True\<rparr>, \<lparr>rt_name = ''edit'', rt_read_only = False\<rparr>,
                \<lparr>rt_name = ''purge'', rt_read_only = False\<rparr>, \<lparr>rt_name = ''zoom'', rt_read_only = True\<rparr>]])"

theorem bound_tools_permitted_witness:
  "map tb_safe (rp_bindings (demo_plan True)) = [''mcp__cad__view'', ''mcp__cad__edit'']
   \<and> map tb_safe (rp_bindings (demo_plan False)) = [''mcp__cad__view'']
   \<and> distinct (map tb_safe (rp_bindings (demo_plan True)))"
proof (intro conjI)
  have "last (rp_bindings (demo_plan True)) \<in> set (rp_bindings (demo_plan True))" by code_simp
  from bound_tools_permitted [OF demo_plan_def this]
  show "distinct (map tb_safe (rp_bindings (demo_plan True)))" by blast
qed code_simp+

end
