(* ===== verification/Mcp_Registry.thy ===== *)
theory Mcp_Registry
  imports Tool_Policy "HOL-Library.AList"
begin

text \<open>
  The registry of external tool servers: the SQLite store \<open>SqliteMcpServerStore\<close> (\<open>agents/mcp/store.py\<close>).

  A store operation is one transaction on a clock reading \<open>now\<close>, an ISO text as in the columns; only the toggle of a
  tool reads in one and writes in another, and is their composition here.  A dictionary of headers is the list of its
  entries in key order, the form in which it is encrypted and hashed.  Encryption with Fernet and the two hashes are the
  \<open>vault\<close>.  Lists of strings are stored in the normal form in which they are read.
\<close>

section \<open>Rows and parameters\<close>

type_synonym headers = "(string \<times> string) list"

record connection =
  cn_transport :: string
  cn_url :: string
  cn_timeout :: "int option"
  cn_sse :: "int option"
  cn_headers :: headers

text \<open>The configured key, Fernet under it (\<open>None\<close> for a failure) and the two digests of a connection.\<close>

record vault =
  va_key :: string
  va_encrypt :: "headers \<Rightarrow> string option"
  va_decrypt :: "string \<Rightarrow> headers option"
  va_hmac :: "connection \<Rightarrow> string"
  va_sha :: "connection \<Rightarrow> string"

record server_row =
  sv_id :: int
  sv_slug :: string
  sv_name :: string
  sv_description :: string
  sv_transport :: string
  sv_url :: string
  sv_cipher :: string
  sv_timeout :: "int option"
  sv_sse :: "int option"
  sv_enabled :: bool
  sv_scope :: string
  sv_departments :: "int list"
  sv_disabled :: "string list"
  sv_write :: "string list"
  sv_tags :: "string list"
  sv_icon :: string
  sv_fingerprint :: string
  sv_test_fingerprint :: string
  sv_test_ok_at :: string
  sv_test_error :: string
  sv_created_by :: string
  sv_updated_by :: string
  sv_created :: string
  sv_updated :: string

record subscription_row =
  su_user :: int
  su_slug :: string
  su_write :: bool
  su_created :: string
  su_updated :: string

record registry =
  rg_servers :: "server_row list"
  rg_subscriptions :: "subscription_row list"
  rg_next_id :: int

text \<open>The errors of the store, and those of the service with their HTTP status.\<close>

datatype registry_error =
    Slug_empty | Server_exists | Server_missing | Credential_failure | Tool_name_empty | Service_error int

section \<open>Normal forms, credentials and fingerprints\<close>

definition normalize_str_list :: "string list \<Rightarrow> string list" where
  "normalize_str_list values = foldl add_new [] (filter (\<lambda>s. s \<noteq> []) (map py_strip values))"

definition normalize_int_list :: "int option list \<Rightarrow> int list" where
  "normalize_int_list values = foldl add_new [] (List.map_filter id values)"

definition normalize_headers :: "headers \<Rightarrow> headers" where
  "normalize_headers raw =
     sort_key fst (foldl (\<lambda>acc (k, v). AList.update (py_strip k) v acc) [] (filter (\<lambda>(k, v). py_strip k \<noteq> []) raw))"

definition encrypt_headers :: "vault \<Rightarrow> headers \<Rightarrow> string option" where
  "encrypt_headers va h =
     (let normalized = normalize_headers h in
      if normalized = [] then Some []
      else if va_key va = [] then None else va_encrypt va normalized)"

definition decrypt_headers :: "vault \<Rightarrow> string \<Rightarrow> headers option" where
  "decrypt_headers va ciphertext =
     (let text = py_strip ciphertext in
      if text = [] then Some [] else if va_key va = [] then None else va_decrypt va text)"

definition connection_fingerprint :: "vault \<Rightarrow> connection \<Rightarrow> string option" where
  "connection_fingerprint va c =
     (if cn_headers c \<noteq> [] \<and> va_key va = [] then None
      else Some (if va_key va \<noteq> [] then va_hmac va c else va_sha va c))"

text \<open>How \<open>_row_to_record\<close> reads the credentials of a row: none, when they cannot be decrypted.\<close>

definition row_headers :: "vault \<Rightarrow> server_row \<Rightarrow> headers" where
  "row_headers va r = (case decrypt_headers va (sv_cipher r) of None \<Rightarrow> [] | Some h \<Rightarrow> h)"

definition row_credentials_ok :: "vault \<Rightarrow> server_row \<Rightarrow> bool" where
  "row_credentials_ok va r \<longleftrightarrow> decrypt_headers va (sv_cipher r) \<noteq> None"

definition row_connection :: "vault \<Rightarrow> server_row \<Rightarrow> connection" where
  "row_connection va r = \<lparr>cn_transport = sv_transport r, cn_url = sv_url r, cn_timeout = sv_timeout r, cn_sse = sv_sse r,
     cn_headers = row_headers va r\<rparr>"

text \<open>The record as the visibility policy reads it.\<close>

definition policy_server :: "vault \<Rightarrow> server_row \<Rightarrow> mcp_server" where
  "policy_server va r =
     \<lparr>ms_id = sv_id r, ms_slug = sv_slug r, ms_scope = (if sv_scope r = [] then ''none'' else sv_scope r),
      ms_departments = sv_departments r, ms_disabled = sv_disabled r, ms_write = sv_write r,
      ms_headers_error = (if row_credentials_ok va r then [] else ''credentials''), ms_updated = sv_updated r\<rparr>"

definition policy_subscription :: "subscription_row \<Rightarrow> mcp_subscription" where
  "policy_subscription s = \<lparr>sb_slug = su_slug s, sb_allow_write = su_write s\<rparr>"

definition test_passed_for_current_config :: "server_row \<Rightarrow> bool" where
  "test_passed_for_current_config r \<longleftrightarrow>
     sv_test_fingerprint r \<noteq> [] \<and> sv_fingerprint r \<noteq> [] \<and> sv_test_fingerprint r = sv_fingerprint r"

section \<open>The store\<close>

definition newest_rows :: "server_row list \<Rightarrow> server_row list" where
  "newest_rows rs = rev (sort_key (\<lambda>r. (sv_updated r, sv_id r)) rs)"

definition list_all_servers :: "registry \<Rightarrow> server_row list" where
  "list_all_servers reg = newest_rows (rg_servers reg)"

definition list_enabled :: "registry \<Rightarrow> server_row list" where
  "list_enabled reg = newest_rows (filter sv_enabled (rg_servers reg))"

definition get_row :: "string \<Rightarrow> registry \<Rightarrow> server_row option" where
  "get_row slug reg = fetchone (\<lambda>r. sv_slug r = slug) (rg_servers reg)"

text \<open>What \<open>create\<close> is given.\<close>

record server_form =
  fo_slug :: string
  fo_name :: string
  fo_description :: string
  fo_transport :: string
  fo_url :: string
  fo_headers :: headers
  fo_timeout :: "int option"
  fo_sse :: "int option"
  fo_scope :: string
  fo_departments :: "int list"
  fo_disabled :: "string list"
  fo_write :: "string list"
  fo_tags :: "string list"
  fo_icon :: string
  fo_actor :: string

definition form_connection :: "server_form \<Rightarrow> headers \<Rightarrow> connection" where
  "form_connection f h = \<lparr>cn_transport = fo_transport f, cn_url = fo_url f, cn_timeout = fo_timeout f, cn_sse = fo_sse f, cn_headers = h\<rparr>"

definition create_row :: "vault \<Rightarrow> string \<Rightarrow> server_form \<Rightarrow> registry \<Rightarrow> registry_error + server_row \<times> registry" where
  "create_row va now f reg =
     (let slug = py_strip (fo_slug f); h = normalize_headers (fo_headers f) in
      if slug = [] then Inl Slug_empty
      else case (encrypt_headers va h, connection_fingerprint va (form_connection f h)) of
        (Some cipher, Some fingerprint) \<Rightarrow>
          if slug \<in> sv_slug ` set (rg_servers reg) then Inl Server_exists
          else (let r = \<lparr>sv_id = rg_next_id reg, sv_slug = slug, sv_name = (if fo_name f = [] then slug else fo_name f),
                   sv_description = fo_description f, sv_transport = fo_transport f, sv_url = fo_url f, sv_cipher = cipher,
                   sv_timeout = fo_timeout f, sv_sse = fo_sse f, sv_enabled = False,
                   sv_scope = (if fo_scope f = [] then ''none'' else fo_scope f),
                   sv_departments = normalize_int_list (map Some (fo_departments f)), sv_disabled = normalize_str_list (fo_disabled f),
                   sv_write = normalize_str_list (fo_write f), sv_tags = normalize_str_list (fo_tags f), sv_icon = fo_icon f,
                   sv_fingerprint = fingerprint, sv_test_fingerprint = [], sv_test_ok_at = [], sv_test_error = [],
                   sv_created_by = fo_actor f, sv_updated_by = fo_actor f, sv_created = now, sv_updated = now\<rparr>
                in Inr (r, reg\<lparr>rg_servers := rg_servers reg @ [r], rg_next_id := rg_next_id reg + 1\<rparr>))
      | _ \<Rightarrow> Inl Credential_failure)"

text \<open>A patch: \<open>None\<close> is the sentinel \<open>UNSET\<close>; headers are kept, cleared or replaced.\<close>

datatype header_patch = Keep_headers | Clear_headers | Set_headers headers

record server_patch =
  pa_name :: "string option"
  pa_description :: "string option"
  pa_transport :: "string option"
  pa_url :: "string option"
  pa_headers :: header_patch
  pa_timeout :: "int option option"
  pa_sse :: "int option option"
  pa_scope :: "string option"
  pa_departments :: "int list option"
  pa_disabled :: "string list option"
  pa_write :: "string list option"
  pa_tags :: "string list option"
  pa_icon :: "string option"
  pa_actor :: string

definition or_old :: "'a option \<Rightarrow> 'a \<Rightarrow> 'a" where
  "or_old new old = (case new of None \<Rightarrow> old | Some v \<Rightarrow> v)"

definition next_headers :: "vault \<Rightarrow> header_patch \<Rightarrow> server_row \<Rightarrow> headers" where
  "next_headers va p r =
     (case p of Keep_headers \<Rightarrow> row_headers va r | Clear_headers \<Rightarrow> [] | Set_headers h \<Rightarrow> normalize_headers h)"

definition next_connection :: "vault \<Rightarrow> server_patch \<Rightarrow> server_row \<Rightarrow> connection" where
  "next_connection va p r =
     \<lparr>cn_transport = or_old (pa_transport p) (sv_transport r), cn_url = or_old (pa_url p) (sv_url r),
      cn_timeout = or_old (pa_timeout p) (sv_timeout r), cn_sse = or_old (pa_sse p) (sv_sse r),
      cn_headers = next_headers va (pa_headers p) r\<rparr>"

definition patched_row :: "vault \<Rightarrow> string \<Rightarrow> server_patch \<Rightarrow> string \<Rightarrow> string \<Rightarrow> server_row \<Rightarrow> server_row" where
  "patched_row va now p cipher fingerprint r =
     (let c = next_connection va p r; changed = (c \<noteq> row_connection va r) in
      r\<lparr>sv_name := or_old (pa_name p) (sv_name r), sv_description := or_old (pa_description p) (sv_description r),
        sv_transport := cn_transport c, sv_url := cn_url c, sv_cipher := cipher, sv_timeout := cn_timeout c, sv_sse := cn_sse c,
        sv_enabled := (\<not> changed \<and> sv_enabled r),
        sv_scope := (case pa_scope p of None \<Rightarrow> sv_scope r | Some s \<Rightarrow> if s = [] then ''none'' else s),
        sv_departments := (case pa_departments p of None \<Rightarrow> sv_departments r | Some d \<Rightarrow> normalize_int_list (map Some d)),
        sv_disabled := (case pa_disabled p of None \<Rightarrow> sv_disabled r | Some d \<Rightarrow> normalize_str_list d),
        sv_write := (case pa_write p of None \<Rightarrow> sv_write r | Some w \<Rightarrow> normalize_str_list w),
        sv_tags := (case pa_tags p of None \<Rightarrow> sv_tags r | Some t \<Rightarrow> normalize_str_list t),
        sv_icon := or_old (pa_icon p) (sv_icon r), sv_fingerprint := fingerprint,
        sv_test_fingerprint := (if changed then [] else sv_test_fingerprint r),
        sv_test_error := (if changed then [] else sv_test_error r),
        sv_updated_by := (if pa_actor p = [] then sv_updated_by r else pa_actor p), sv_updated := now\<rparr>)"

definition put_row :: "string \<Rightarrow> (server_row \<Rightarrow> server_row) \<Rightarrow> registry \<Rightarrow> registry" where
  "put_row slug f reg = reg\<lparr>rg_servers := update_where (\<lambda>r. sv_slug r = slug) f (rg_servers reg)\<rparr>"

definition update_row :: "vault \<Rightarrow> string \<Rightarrow> string \<Rightarrow> server_patch \<Rightarrow> registry \<Rightarrow> registry_error + server_row \<times> registry" where
  "update_row va now raw_slug p reg =
     (let slug = py_strip raw_slug in
      case get_row slug reg of
        None \<Rightarrow> Inl Server_missing
      | Some r \<Rightarrow>
          (case (connection_fingerprint va (next_connection va p r), encrypt_headers va (next_headers va (pa_headers p) r)) of
             (Some fingerprint, Some cipher) \<Rightarrow>
               (let r' = patched_row va now p cipher fingerprint r in Inr (r', put_row slug (\<lambda>_. r') reg))
           | _ \<Rightarrow> Inl Credential_failure))"

definition delete_row :: "string \<Rightarrow> registry \<Rightarrow> bool \<times> registry" where
  "delete_row raw_slug reg =
     (let slug = py_strip raw_slug in
      (rowcount (\<lambda>r. sv_slug r = slug) (rg_servers reg) > 0,
       reg\<lparr>rg_subscriptions := filter (\<lambda>s. su_slug s \<noteq> slug) (rg_subscriptions reg),
           rg_servers := filter (\<lambda>r. sv_slug r \<noteq> slug) (rg_servers reg)\<rparr>))"

definition update_flags :: "string \<Rightarrow> string \<Rightarrow> (server_row \<Rightarrow> server_row) \<Rightarrow> registry \<Rightarrow> registry_error + server_row \<times> registry" where
  "update_flags now raw_slug f reg =
     (let slug = py_strip raw_slug; g = (\<lambda>r. (f r)\<lparr>sv_updated := now\<rparr>) in
      case get_row slug reg of
        None \<Rightarrow> Inl Server_missing
      | Some r \<Rightarrow> Inr (g r, put_row slug g reg))"

definition store_set_enabled :: "string \<Rightarrow> string \<Rightarrow> bool \<Rightarrow> string \<Rightarrow> registry \<Rightarrow> registry_error + server_row \<times> registry" where
  "store_set_enabled now slug enabled actor =
     update_flags now slug (\<lambda>r. r\<lparr>sv_enabled := enabled, sv_updated_by := actor\<rparr>)"

definition record_test_result :: "string \<Rightarrow> string \<Rightarrow> bool \<Rightarrow> string \<Rightarrow> string \<Rightarrow> registry \<Rightarrow> registry_error + server_row \<times> registry" where
  "record_test_result now slug ok fingerprint error =
     update_flags now slug (\<lambda>r. r\<lparr>sv_test_fingerprint := (if ok then fingerprint else []),
        sv_test_error := (if ok then [] else clip 500 error), sv_test_ok_at := (if ok then now else sv_test_ok_at r)\<rparr>)"

definition store_toggle_tool :: "string \<Rightarrow> string \<Rightarrow> string \<Rightarrow> string \<Rightarrow> registry \<Rightarrow> registry_error + (bool \<times> server_row) \<times> registry" where
  "store_toggle_tool now slug raw_tool actor reg =
     (let tool = py_strip raw_tool in
      if tool = [] then Inl Tool_name_empty
      else case get_row slug reg of
        None \<Rightarrow> Inl Server_missing
      | Some r \<Rightarrow>
          (let off = (tool \<in> set (sv_disabled r));
               disabled = (if off then remove1 tool (sv_disabled r) else sv_disabled r @ [tool])
           in case update_flags now slug (\<lambda>x. x\<lparr>sv_disabled := normalize_str_list disabled, sv_updated_by := actor\<rparr>) reg of
                Inl e \<Rightarrow> Inl e
              | Inr (r', reg') \<Rightarrow> Inr ((off, r'), reg')))"

definition store_set_write_tools :: "string \<Rightarrow> string \<Rightarrow> string list \<Rightarrow> string \<Rightarrow> registry \<Rightarrow> registry_error + server_row \<times> registry" where
  "store_set_write_tools now slug tools actor =
     update_flags now slug (\<lambda>r. r\<lparr>sv_write := normalize_str_list tools, sv_updated_by := actor\<rparr>)"

definition list_subscriptions :: "int \<Rightarrow> registry \<Rightarrow> subscription_row list" where
  "list_subscriptions user reg = sort_key su_slug (filter (\<lambda>s. su_user s = user) (rg_subscriptions reg))"

definition list_subscribed_slugs :: "int \<Rightarrow> registry \<Rightarrow> string set" where
  "list_subscribed_slugs user reg = su_slug ` set (filter (\<lambda>s. su_user s = user) (rg_subscriptions reg))"

definition get_subscription :: "int \<Rightarrow> string \<Rightarrow> registry \<Rightarrow> subscription_row option" where
  "get_subscription user slug reg = fetchone (\<lambda>s. su_user s = user \<and> su_slug s = slug) (rg_subscriptions reg)"

definition upsert_subscription :: "string \<Rightarrow> int \<Rightarrow> string \<Rightarrow> bool \<Rightarrow> registry \<Rightarrow> registry_error + subscription_row option \<times> registry" where
  "upsert_subscription now user raw_slug allow_write reg =
     (let slug = py_strip raw_slug; mine = (\<lambda>s. su_user s = user \<and> su_slug s = slug) in
      if get_row slug reg = None then Inl Server_missing
      else (let subs = (if \<exists>s \<in> set (rg_subscriptions reg). mine s
                        then update_where mine (\<lambda>s. s\<lparr>su_write := allow_write, su_updated := now\<rparr>) (rg_subscriptions reg)
                        else rg_subscriptions reg @
                          [\<lparr>su_user = user, su_slug = slug, su_write = allow_write, su_created = now, su_updated = now\<rparr>]);
                reg' = reg\<lparr>rg_subscriptions := subs\<rparr>
            in Inr (get_subscription user slug reg', reg')))"

definition delete_subscription :: "int \<Rightarrow> string \<Rightarrow> registry \<Rightarrow> bool \<times> registry" where
  "delete_subscription user slug reg =
     (rowcount (\<lambda>s. su_user s = user \<and> su_slug s = slug) (rg_subscriptions reg) > 0,
      reg\<lparr>rg_subscriptions := filter (\<lambda>s. \<not> (su_user s = user \<and> su_slug s = slug)) (rg_subscriptions reg)\<rparr>)"

definition delete_user_subscriptions :: "int \<Rightarrow> registry \<Rightarrow> nat \<times> registry" where
  "delete_user_subscriptions user reg =
     (rowcount (\<lambda>s. su_user s = user) (rg_subscriptions reg),
      reg\<lparr>rg_subscriptions := filter (\<lambda>s. su_user s \<noteq> user) (rg_subscriptions reg)\<rparr>)"

definition count_subscriptions :: "registry \<Rightarrow> nat" where
  "count_subscriptions reg = length (rg_subscriptions reg)"

end
