(* ===== verification/Net_Address.thy ===== *)
theory Net_Address
  imports Prelude
begin

unbundle bit_operations_syntax

text \<open>
  Internet addresses and URLs as the Python standard library reads them (\<open>ipaddress.ip_address\<close> with \<open>is_global\<close> and
  \<open>ipv4_mapped\<close>, \<open>urllib.parse.urlsplit\<close> with its derived attributes, version 3.11), as far as
  \<open>agents/mcp/validation.py\<close> uses them.  Addresses are unbounded integers, as in \<open>ipaddress\<close>, and texts are ASCII.

  The second half relates the prefix tests of \<open>is_global\<close> to address ranges.
\<close>

section \<open>Splitting texts\<close>

fun split_on :: "char \<Rightarrow> string \<Rightarrow> string list" where
  "split_on c [] = [[]]"
| "split_on c (x # xs) =
     (if x = c then [] # split_on c xs
      else case split_on c xs of [] \<Rightarrow> [[x]] | p # ps \<Rightarrow> (x # p) # ps)"

text \<open>\<open>text.partition(c)\<close> and what follows the last \<open>c\<close>.\<close>

definition py_partition :: "char \<Rightarrow> string \<Rightarrow> string \<times> bool \<times> string" where
  "py_partition c s = (takeWhile (\<lambda>x. x \<noteq> c) s, c \<in> set s, drop 1 (dropWhile (\<lambda>x. x \<noteq> c) s))"

definition after_last :: "char \<Rightarrow> string \<Rightarrow> string" where
  "after_last c s = rev (takeWhile (\<lambda>x. x \<noteq> c) (rev s))"

definition before_last :: "char \<Rightarrow> string \<Rightarrow> string" where
  "before_last c s = rev (drop 1 (dropWhile (\<lambda>x. x \<noteq> c) (rev s)))"

definition ascii_digit :: "char \<Rightarrow> bool" where
  "ascii_digit c = (let n = (of_char c :: nat) in 48 \<le> n \<and> n \<le> 57)"

definition ascii_alpha :: "char \<Rightarrow> bool" where
  "ascii_alpha c = (let n = (of_char (py_lower_char c) :: nat) in 97 \<le> n \<and> n \<le> 122)"

definition hex_digit :: "char \<Rightarrow> bool" where
  "hex_digit c = (ascii_digit c \<or> (let n = (of_char (py_lower_char c) :: nat) in 97 \<le> n \<and> n \<le> 102))"

definition hex_value :: "char \<Rightarrow> int" where
  "hex_value c = (if ascii_digit c then of_char c - 48 else of_char (py_lower_char c) - 87)"

definition number_in :: "int \<Rightarrow> string \<Rightarrow> int" where
  "number_in base s = foldl (\<lambda>n c. n * base + hex_value c) 0 s"

section \<open>Addresses\<close>

definition parse_octet :: "string \<Rightarrow> int option" where
  "parse_octet s =
     (if s = [] \<or> \<not> list_all ascii_digit s \<or> length s > 3 \<or> (s \<noteq> ''0'' \<and> hd s = CHR ''0'') \<or> number_in 10 s > 255 then None
      else Some (number_in 10 s))"

definition v4_int :: "string \<Rightarrow> int option" where
  "v4_int s =
     (case map parse_octet (split_on (CHR ''.'') s) of
        [Some a, Some b, Some c, Some d] \<Rightarrow> Some (((a * 256 + b) * 256 + c) * 256 + d)
      | _ \<Rightarrow> None)"

definition parse_hextet :: "string \<Rightarrow> int option" where
  "parse_hextet s = (if s = [] \<or> \<not> list_all hex_digit s \<or> length s > 4 then None else Some (number_in 16 s))"

definition join_hextets :: "int list \<Rightarrow> int" where
  "join_hextets ns = foldl (\<lambda>a n. a * 65536 + n) 0 ns"

text \<open>The parts between colons, as values; an IPv4 suffix stands for two of them.  \<open>Inr n\<close> is such a value.\<close>

definition v6_parts :: "string \<Rightarrow> (string + int) list option" where
  "v6_parts s =
     (let parts = split_on (CHR '':'') s in
      if length parts < 3 then None
      else if CHR ''.'' \<notin> set (last parts) then Some (map Inl parts)
      else case v4_int (last parts) of
        None \<Rightarrow> None
      | Some n \<Rightarrow> Some (map Inl (butlast parts) @ [Inr (n div 65536), Inr (n mod 65536)]))"

fun part_values :: "(string + int) list \<Rightarrow> int list option" where
  "part_values [] = Some []"
| "part_values (Inr n # ps) = map_option (\<lambda>ns. n # ns) (part_values ps)"
| "part_values (Inl p # ps) = (case (parse_hextet p, part_values ps) of (Some n, Some ns) \<Rightarrow> Some (n # ns) | _ \<Rightarrow> None)"

definition v6_int :: "string \<Rightarrow> int option" where
  "v6_int s =
     (case v6_parts s of
        None \<Rightarrow> None
      | Some parts \<Rightarrow>
          if length parts > 9 then None
          else case filter (\<lambda>i. parts ! i = Inl []) [1..<length parts - 1] of
            [] \<Rightarrow>
              if length parts \<noteq> 8 \<or> hd parts = Inl [] \<or> last parts = Inl [] then None
              else map_option join_hextets (part_values parts)
          | [k] \<Rightarrow>
              (let hi = (if hd parts = Inl [] then k - 1 else k);
                   lo = (if last parts = Inl [] then length parts - k - 2 else length parts - k - 1)
               in if (hd parts = Inl [] \<and> hi \<noteq> 0) \<or> (last parts = Inl [] \<and> lo \<noteq> 0) \<or> hi + lo > 7 then None
                  else case (part_values (take hi parts), part_values (drop (length parts - lo) parts)) of
                    (Some a, Some b) \<Rightarrow> Some (join_hextets (a @ replicate (8 - (hi + lo)) 0 @ b))
                  | _ \<Rightarrow> None)
          | _ \<Rightarrow> None)"

datatype ip = V4 int | V6 int

definition ip_address :: "string \<Rightarrow> ip option" where
  "ip_address s =
     (if CHR ''/'' \<in> set s then None
      else case v4_int s of
        Some n \<Rightarrow> Some (V4 n)
      | None \<Rightarrow>
          (case py_partition (CHR ''%'') s of
             (addr, sep, scope) \<Rightarrow>
               if sep \<and> (scope = [] \<or> CHR ''%'' \<in> set scope) then None else map_option V6 (v6_int addr)))"

text \<open>A network is its address and prefix length.\<close>

definition in_net :: "nat \<Rightarrow> int \<Rightarrow> int \<times> nat \<Rightarrow> bool" where
  "in_net width n net = (drop_bit (width - snd net) n = drop_bit (width - snd net) (fst net))"

definition quad :: "int \<Rightarrow> int \<Rightarrow> int \<Rightarrow> int \<Rightarrow> int" where
  "quad a b c d = ((a * 256 + b) * 256 + c) * 256 + d"

definition groups :: "int list \<Rightarrow> int" where
  "groups ns = join_hextets (ns @ replicate (8 - length ns) 0)"

definition v4_private_nets :: "(int \<times> nat) list" where
  "v4_private_nets =
     [(quad 0 0 0 0, 8), (quad 10 0 0 0, 8), (quad 127 0 0 0, 8), (quad 169 254 0 0, 16), (quad 172 16 0 0, 12),
      (quad 192 0 0 0, 24), (quad 192 0 0 170, 31), (quad 192 0 2 0, 24), (quad 192 168 0 0, 16), (quad 198 18 0 0, 15),
      (quad 198 51 100 0, 24), (quad 203 0 113 0, 24), (quad 240 0 0 0, 4), (quad 255 255 255 255, 32)]"

definition v4_exceptions :: "(int \<times> nat) list" where
  "v4_exceptions = [(quad 192 0 0 9, 32), (quad 192 0 0 10, 32)]"

definition v6_private_nets :: "(int \<times> nat) list" where
  "v6_private_nets =
     [(1, 128), (0, 128), (groups [0, 0, 0, 0, 0, 0xffff], 96), (groups [0x64, 0xff9b, 1], 48), (groups [0x100], 64),
      (groups [0x2001], 23), (groups [0x2001, 0xdb8], 32), (groups [0x2002], 16), (groups [0xfc00], 7), (groups [0xfe80], 10)]"

definition v6_exceptions :: "(int \<times> nat) list" where
  "v6_exceptions =
     [(groups [0x2001, 1, 0, 0, 0, 0, 0, 1], 128), (groups [0x2001, 1, 0, 0, 0, 0, 0, 2], 128), (groups [0x2001, 3], 32),
      (groups [0x2001, 4, 0x112], 48), (groups [0x2001, 0x20], 28), (groups [0x2001, 0x30], 28)]"

definition private_in :: "nat \<Rightarrow> (int \<times> nat) list \<Rightarrow> (int \<times> nat) list \<Rightarrow> int \<Rightarrow> bool" where
  "private_in width nets exceptions n \<longleftrightarrow> list_ex (in_net width n) nets \<and> \<not> list_ex (in_net width n) exceptions"

definition ipv4_mapped :: "int \<Rightarrow> int option" where
  "ipv4_mapped n = (if drop_bit 32 n = 0xffff then Some (take_bit 32 n) else None)"

definition v4_is_global :: "int \<Rightarrow> bool" where
  "v4_is_global n \<longleftrightarrow> \<not> in_net 32 n (quad 100 64 0 0, 10) \<and> \<not> private_in 32 v4_private_nets v4_exceptions n"

definition v6_is_private :: "int \<Rightarrow> bool" where
  "v6_is_private n =
     (case ipv4_mapped n of
        Some m \<Rightarrow> private_in 32 v4_private_nets v4_exceptions m
      | None \<Rightarrow> private_in 128 v6_private_nets v6_exceptions n)"

fun is_global :: "ip \<Rightarrow> bool" where
  "is_global (V4 n) = v4_is_global n"
| "is_global (V6 n) = (\<not> v6_is_private n)"

section \<open>URLs\<close>

text \<open>The parts of a URL; a missing user name, password or host is empty, which the code treats alike.  A port that is not a number up to 65535 raises on access, \<open>None\<close> here.\<close>

record url_parts =
  up_scheme :: string
  up_user :: string
  up_password :: string
  up_host :: string
  up_port :: "int option option"

definition scheme_char :: "char \<Rightarrow> bool" where
  "scheme_char c \<longleftrightarrow> ascii_alpha c \<or> ascii_digit c \<or> c \<in> {CHR ''+'', CHR ''-'', CHR ''.''}"

definition split_scheme :: "string \<Rightarrow> string \<times> string" where
  "split_scheme url =
     (case py_partition (CHR '':'') url of
        (scheme, sep, rest) \<Rightarrow>
          if sep \<and> scheme \<noteq> [] \<and> ascii_alpha (hd scheme) \<and> list_all scheme_char scheme then (py_lower scheme, rest) else ([], url))"

definition netloc_of :: "string \<Rightarrow> string" where
  "netloc_of url = (if take 2 url = ''//'' then takeWhile (\<lambda>c. c \<notin> {CHR ''/'', CHR ''?'', CHR ''#''}) (drop 2 url) else [])"

definition bracketed_host_ok :: "string \<Rightarrow> bool" where
  "bracketed_host_ok h =
     (case h of
        CHR ''v'' # rest \<Rightarrow>
          takeWhile hex_digit rest \<noteq> []
          \<and> (case dropWhile hex_digit rest of CHR ''.'' # tail \<Rightarrow> tail \<noteq> [] | _ \<Rightarrow> False)
      | _ \<Rightarrow> (case ip_address h of Some (V6 n) \<Rightarrow> True | _ \<Rightarrow> False))"

definition bracketed :: "string \<Rightarrow> string" where
  "bracketed netloc = fst (py_partition (CHR '']'') (snd (snd (py_partition (CHR ''['') netloc))))"

definition hostinfo :: "string \<Rightarrow> string \<times> string" where
  "hostinfo netloc =
     (let info = after_last (CHR ''@'') netloc in
      case py_partition (CHR ''['') info of
        (_, True, inside) \<Rightarrow>
          (case py_partition (CHR '']'') inside of
             (host, sep, after) \<Rightarrow> (host, snd (snd (py_partition (CHR '':'') after))))
      | (_, False, inside) \<Rightarrow>
          (case py_partition (CHR '':'') info of (host, sep, port) \<Rightarrow> (host, port)))"

definition host_lower :: "string \<Rightarrow> string" where
  "host_lower host =
     (case py_partition (CHR ''%'') host of
        (name, sep, zone) \<Rightarrow> py_lower name @ (if sep then CHR ''%'' # zone else []))"

definition port_value :: "string \<Rightarrow> int option option" where
  "port_value port =
     (if port = [] then Some None
      else if list_all ascii_digit port \<and> number_in 10 port \<le> 65535 then Some (Some (number_in 10 port)) else None)"

definition urlsplit :: "string \<Rightarrow> url_parts option" where
  "urlsplit raw =
     (let url = filter (\<lambda>c. c \<notin> {CHR 0x09, CHR 0x0A, CHR 0x0D}) (dropWhile (\<lambda>c. (of_char c :: nat) \<le> 32) raw);
          netloc = netloc_of (snd (split_scheme url))
      in if (CHR ''['' \<in> set netloc) \<noteq> (CHR '']'' \<in> set netloc) then None
         else if CHR ''['' \<in> set netloc \<and> \<not> bracketed_host_ok (bracketed netloc) then None
         else
           (let userinfo = before_last (CHR ''@'') netloc in
            Some \<lparr>up_scheme = fst (split_scheme url),
                  up_user = fst (py_partition (CHR '':'') userinfo), up_password = snd (snd (py_partition (CHR '':'') userinfo)),
                  up_host = host_lower (fst (hostinfo netloc)), up_port = port_value (snd (hostinfo netloc))\<rparr>))"

section \<open>Ranges\<close>

lemma drop_bit_eq_range:
  fixes n lo :: int
  assumes "2 ^ k dvd lo"
  shows "drop_bit k n = drop_bit k lo \<longleftrightarrow> lo \<le> n \<and> n < lo + 2 ^ k"
proof -
  obtain q where lo: "lo = 2 ^ k * q" using assms by blast
  have "drop_bit k lo = q" by (simp add: lo drop_bit_eq_div)
  moreover have "n div 2 ^ k = q \<longleftrightarrow> 2 ^ k * q \<le> n \<and> n < 2 ^ k * q + 2 ^ k"
  proof
    assume "n div 2 ^ k = q"
    then have "n = 2 ^ k * q + n mod 2 ^ k" by (metis mult_div_mod_eq)
    then show "2 ^ k * q \<le> n \<and> n < 2 ^ k * q + 2 ^ k"
      by (metis add_less_cancel_left le_add_same_cancel1 pos_mod_bound pos_mod_sign zero_less_numeral zero_less_power)
  next
    assume range: "2 ^ k * q \<le> n \<and> n < 2 ^ k * q + 2 ^ k"
    then have "(n - 2 ^ k * q) div 2 ^ k = 0" by (intro div_pos_pos_trivial) auto
    moreover have "n div 2 ^ k = q + (n - 2 ^ k * q) div 2 ^ k"
      by (metis add_diff_cancel_left' diff_add_cancel div_mult_self2 power_not_zero zero_neq_numeral add.commute)
    ultimately show "n div 2 ^ k = q" by simp
  qed
  ultimately show ?thesis by (simp add: lo drop_bit_eq_div)
qed

lemma in_net_range:
  assumes "2 ^ (width - p) dvd lo" "hi = lo + 2 ^ (width - p) - 1"
  shows "in_net width n (lo, p) \<longleftrightarrow> lo \<le> n \<and> n \<le> hi"
  using drop_bit_eq_range [OF assms(1), of n] assms(2) by (auto simp: in_net_def)

definition in_range :: "int \<Rightarrow> int \<times> int \<Rightarrow> bool" where
  "in_range n r \<longleftrightarrow> fst r \<le> n \<and> n \<le> snd r"

lemma list_ex_rules: "list_ex P [] = False" "list_ex P (x # xs) = (P x \<or> list_ex P xs)"
  by simp_all

text \<open>What is not globally reachable, as ranges of addresses: IPv4, and the IPv6 blocks that have no exceptions.\<close>

definition v4_closed_ranges :: "(int \<times> int) list" where
  "v4_closed_ranges =
     [(quad 0 0 0 0, quad 0 255 255 255), (quad 10 0 0 0, quad 10 255 255 255), (quad 100 64 0 0, quad 100 127 255 255),
      (quad 127 0 0 0, quad 127 255 255 255), (quad 169 254 0 0, quad 169 254 255 255), (quad 172 16 0 0, quad 172 31 255 255),
      (quad 192 0 0 0, quad 192 0 0 8), (quad 192 0 0 11, quad 192 0 0 255), (quad 192 0 2 0, quad 192 0 2 255),
      (quad 192 168 0 0, quad 192 168 255 255), (quad 198 18 0 0, quad 198 19 255 255), (quad 198 51 100 0, quad 198 51 100 255),
      (quad 203 0 113 0, quad 203 0 113 255), (quad 240 0 0 0, quad 255 255 255 255)]"

definition v6_closed_ranges :: "(int \<times> int) list" where
  "v6_closed_ranges =
     [(0, 1), (groups [0x2001, 0xdb8], groups [0x2001, 0xdb9] - 1), (groups [0x2002], groups [0x2003] - 1),
      (groups [0xfc00], groups [0xfe00] - 1), (groups [0xfe80], groups [0xfec0] - 1)]"

lemma v4_is_global_ranges: "v4_is_global n \<longleftrightarrow> \<not> list_ex (in_range n) v4_closed_ranges"
proof -
  note range = in_net_range [where n = n and width = 32]
  have nets: "in_net 32 n (quad 0 0 0 0, 8) \<longleftrightarrow> 0 \<le> n \<and> n \<le> 16777215"
    "in_net 32 n (quad 10 0 0 0, 8) \<longleftrightarrow> 167772160 \<le> n \<and> n \<le> 184549375"
    "in_net 32 n (quad 100 64 0 0, 10) \<longleftrightarrow> 1681915904 \<le> n \<and> n \<le> 1686110207"
    "in_net 32 n (quad 127 0 0 0, 8) \<longleftrightarrow> 2130706432 \<le> n \<and> n \<le> 2147483647"
    "in_net 32 n (quad 169 254 0 0, 16) \<longleftrightarrow> 2851995648 \<le> n \<and> n \<le> 2852061183"
    "in_net 32 n (quad 172 16 0 0, 12) \<longleftrightarrow> 2886729728 \<le> n \<and> n \<le> 2887778303"
    "in_net 32 n (quad 192 0 0 0, 24) \<longleftrightarrow> 3221225472 \<le> n \<and> n \<le> 3221225727"
    "in_net 32 n (quad 192 0 0 170, 31) \<longleftrightarrow> 3221225642 \<le> n \<and> n \<le> 3221225643"
    "in_net 32 n (quad 192 0 2 0, 24) \<longleftrightarrow> 3221225984 \<le> n \<and> n \<le> 3221226239"
    "in_net 32 n (quad 192 168 0 0, 16) \<longleftrightarrow> 3232235520 \<le> n \<and> n \<le> 3232301055"
    "in_net 32 n (quad 198 18 0 0, 15) \<longleftrightarrow> 3323068416 \<le> n \<and> n \<le> 3323199487"
    "in_net 32 n (quad 198 51 100 0, 24) \<longleftrightarrow> 3325256704 \<le> n \<and> n \<le> 3325256959"
    "in_net 32 n (quad 203 0 113 0, 24) \<longleftrightarrow> 3405803776 \<le> n \<and> n \<le> 3405804031"
    "in_net 32 n (quad 240 0 0 0, 4) \<longleftrightarrow> 4026531840 \<le> n \<and> n \<le> 4294967295"
    "in_net 32 n (quad 255 255 255 255, 32) \<longleftrightarrow> 4294967295 \<le> n \<and> n \<le> 4294967295"
    "in_net 32 n (quad 192 0 0 9, 32) \<longleftrightarrow> 3221225481 \<le> n \<and> n \<le> 3221225481"
    "in_net 32 n (quad 192 0 0 10, 32) \<longleftrightarrow> 3221225482 \<le> n \<and> n \<le> 3221225482"
    by (subst range; simp add: quad_def)+
  have closed: "list_ex (in_range n) v4_closed_ranges \<longleftrightarrow>
      (0 \<le> n \<and> n \<le> 16777215) \<or> (167772160 \<le> n \<and> n \<le> 184549375) \<or> (1681915904 \<le> n \<and> n \<le> 1686110207)
      \<or> (2130706432 \<le> n \<and> n \<le> 2147483647) \<or> (2851995648 \<le> n \<and> n \<le> 2852061183) \<or> (2886729728 \<le> n \<and> n \<le> 2887778303)
      \<or> (3221225472 \<le> n \<and> n \<le> 3221225480) \<or> (3221225483 \<le> n \<and> n \<le> 3221225727) \<or> (3221225984 \<le> n \<and> n \<le> 3221226239)
      \<or> (3232235520 \<le> n \<and> n \<le> 3232301055) \<or> (3323068416 \<le> n \<and> n \<le> 3323199487) \<or> (3325256704 \<le> n \<and> n \<le> 3325256959)
      \<or> (3405803776 \<le> n \<and> n \<le> 3405804031) \<or> (4026531840 \<le> n \<and> n \<le> 4294967295)"
    by (simp add: v4_closed_ranges_def in_range_def quad_def)
  show ?thesis
    unfolding v4_is_global_def private_in_def v4_private_nets_def v4_exceptions_def list_ex_rules nets closed
    by presburger
qed

lemma v6_closed_is_private:
  assumes "list_ex (in_range n) v6_closed_ranges"
  shows "v6_is_private n"
proof -
  have eval: "groups [0x2001, 0xdb8] = 42540766411282592856903984951653826560"
    "groups [0x2001, 0xdb9] = 42540766490510755371168322545197776896"
    "groups [0x2002] = 42545680458834377588178886921629466624"
    "groups [0x2003] = 42550872755692912415807417417958686720"
    "groups [0xfc00] = 334965454937798799971759379190646833152"
    "groups [0xfe00] = 337623910929368631717566993311207522304"
    "groups [0xfe80] = 338288524927261089654018896841347694592"
    "groups [0xfec0] = 338620831926207318622244848606417780736"
    "groups [0x2001, 1, 0, 0, 0, 0, 0, 1] = 42540488241204005274814694018844196865"
    "groups [0x2001, 1, 0, 0, 0, 0, 0, 2] = 42540488241204005274814694018844196866"
    "groups [0x2001, 3] = 42540488399660330303343369205932097536"
    "groups [0x2001, 4, 0x112] = 42540488479219738492182115193345540096"
    "groups [0x2001, 0x20] = 42540490697277043217009159418706657280"
    "groups [0x2001, 0x30] = 42540491964927643445238560915409862656"
    by code_simp+
  have nets: "in_net 128 n (1, 128) \<longleftrightarrow> 1 \<le> n \<and> n \<le> 1"
    "in_net 128 n (0, 128) \<longleftrightarrow> 0 \<le> n \<and> n \<le> 0"
    "in_net 128 n (groups [0x2001, 0xdb8], 32) \<longleftrightarrow> 42540766411282592856903984951653826560 \<le> n \<and> n \<le> 42540766490510755371168322545197776895"
    "in_net 128 n (groups [0x2002], 16) \<longleftrightarrow> 42545680458834377588178886921629466624 \<le> n \<and> n \<le> 42550872755692912415807417417958686719"
    "in_net 128 n (groups [0xfc00], 7) \<longleftrightarrow> 334965454937798799971759379190646833152 \<le> n \<and> n \<le> 337623910929368631717566993311207522303"
    "in_net 128 n (groups [0xfe80], 10) \<longleftrightarrow> 338288524927261089654018896841347694592 \<le> n \<and> n \<le> 338620831926207318622244848606417780735"
    "in_net 128 n (groups [0x2001, 1, 0, 0, 0, 0, 0, 1], 128) \<longleftrightarrow> 42540488241204005274814694018844196865 \<le> n \<and> n \<le> 42540488241204005274814694018844196865"
    "in_net 128 n (groups [0x2001, 1, 0, 0, 0, 0, 0, 2], 128) \<longleftrightarrow> 42540488241204005274814694018844196866 \<le> n \<and> n \<le> 42540488241204005274814694018844196866"
    "in_net 128 n (groups [0x2001, 3], 32) \<longleftrightarrow> 42540488399660330303343369205932097536 \<le> n \<and> n \<le> 42540488478888492817607706799476047871"
    "in_net 128 n (groups [0x2001, 4, 0x112], 48) \<longleftrightarrow> 42540488479219738492182115193345540096 \<le> n \<and> n \<le> 42540488479220947418001729822520246271"
    "in_net 128 n (groups [0x2001, 0x20], 28) \<longleftrightarrow> 42540490697277043217009159418706657280 \<le> n \<and> n \<le> 42540491964927643445238560915409862655"
    "in_net 128 n (groups [0x2001, 0x30], 28) \<longleftrightarrow> 42540491964927643445238560915409862656 \<le> n \<and> n \<le> 42540493232578243673467962412113068031"
    by (subst in_net_range; simp add: eval)+
  have "drop_bit 32 n = drop_bit 32 (281470681743360 :: int) \<longleftrightarrow> 281470681743360 \<le> n \<and> n < 281474976710656"
    by (subst drop_bit_eq_range) simp_all
  then have mapped: "ipv4_mapped n = (if 281470681743360 \<le> n \<and> n < 281474976710656 then Some (take_bit 32 n) else None)"
    by (simp add: ipv4_mapped_def)
  have closed: "(0 \<le> n \<and> n \<le> 1) \<or> (42540766411282592856903984951653826560 \<le> n \<and> n \<le> 42540766490510755371168322545197776895) \<or> (42545680458834377588178886921629466624 \<le> n \<and> n \<le> 42550872755692912415807417417958686719) \<or> (334965454937798799971759379190646833152 \<le> n \<and> n \<le> 337623910929368631717566993311207522303) \<or> (338288524927261089654018896841347694592 \<le> n \<and> n \<le> 338620831926207318622244848606417780735)"
    using assms by (simp add: v6_closed_ranges_def in_range_def eval)
  then have "ipv4_mapped n = None" by (simp add: mapped) linarith
  moreover have "private_in 128 v6_private_nets v6_exceptions n"
    unfolding private_in_def v6_private_nets_def v6_exceptions_def list_ex_rules nets
    using closed by (elim disjE; simp; linarith)
  ultimately show ?thesis by (simp add: v6_is_private_def)
qed

end
