(* ===== verification/Mcp_Validation.thy ===== *)
theory Mcp_Validation
  imports Net_Address "HOL-Library.AList"
begin

text \<open>
  What administrators may enter for an external tool server: \<open>agents/mcp/validation.py\<close>.  A check returns the
  normalized value, or \<open>None\<close> where it raises \<open>McpValidationError\<close>.  Address lookup is the argument \<open>lookup\<close>, the
  answers of \<open>socket.getaddrinfo\<close> for a host and a port, \<open>None\<close> for an \<open>OSError\<close>.
\<close>

section \<open>Fields\<close>

definition VALID_TRANSPORTS :: "string list" where
  "VALID_TRANSPORTS = [''streamable_http'', ''sse'']"

definition VALID_DEPARTMENT_SCOPES :: "string list" where
  "VALID_DEPARTMENT_SCOPES = [''none'', ''departments'', ''all'']"

definition validate_transport :: "string \<Rightarrow> string option" where
  "validate_transport transport =
     (let value = py_lower (py_strip transport) in
      if value = ''stdio'' then None else if value \<notin> set VALID_TRANSPORTS then None else Some value)"

definition validate_name :: "string \<Rightarrow> string option" where
  "validate_name name = (let value = py_strip name in if value = [] \<or> length value > 200 then None else Some value)"

definition MAX_HEADERS :: nat where "MAX_HEADERS = 32"
definition MAX_HEADER_KEY_CHARS :: nat where "MAX_HEADER_KEY_CHARS = 128"
definition MAX_HEADER_VALUE_CHARS :: nat where "MAX_HEADER_VALUE_CHARS = 4096"
definition MAX_HEADERS_TOTAL_CHARS :: nat where "MAX_HEADERS_TOTAL_CHARS = 8192"

text \<open>The loop over the entries of the dictionary, with the normalized dictionary and the running total.\<close>

fun header_loop :: "(string \<times> string) list \<Rightarrow> nat \<Rightarrow> (string \<times> string) list \<Rightarrow> (nat \<times> (string \<times> string) list) option" where
  "header_loop [] chars normalized = Some (chars, normalized)"
| "header_loop ((raw_key, v) # rest) chars normalized =
     (let key = py_strip raw_key in
      if key = [] \<or> length key > MAX_HEADER_KEY_CHARS \<or> length v > MAX_HEADER_VALUE_CHARS then None
      else header_loop rest (chars + (length key + length v)) (AList.update key v normalized))"

text \<open>\<open>None\<close> as argument is a missing or empty value.\<close>

definition validate_headers :: "(string \<times> string) list option \<Rightarrow> (string \<times> string) list option" where
  "validate_headers raw =
     (case raw of
        None \<Rightarrow> Some []
      | Some entries \<Rightarrow>
          if length entries > MAX_HEADERS then None
          else case header_loop entries 0 [] of
            None \<Rightarrow> None
          | Some (chars, normalized) \<Rightarrow> if chars > MAX_HEADERS_TOTAL_CHARS then None else Some normalized)"

text \<open>A number as given: missing or empty, a value \<open>int\<close> cannot read, or what it reads.\<close>

datatype raw_number = No_number | Not_a_number | Number int

definition validate_timeout :: "int \<Rightarrow> raw_number \<Rightarrow> int option option" where
  "validate_timeout maximum raw =
     (case raw of
        No_number \<Rightarrow> Some None
      | Not_a_number \<Rightarrow> None
      | Number n \<Rightarrow> if n < 1 \<or> n > maximum then None else Some (Some n))"

text \<open>Department ids as given: missing, no list, or the items \<open>int\<close> reads.\<close>

datatype raw_ids = No_ids | Not_a_list | Ids "raw_number list"

fun read_ids :: "raw_number list \<Rightarrow> int list \<Rightarrow> int list option" where
  "read_ids [] ids = Some ids"
| "read_ids (Number n # rest) ids = read_ids rest (add_new ids n)"
| "read_ids (_ # rest) ids = None"

definition validate_department_scope :: "string \<Rightarrow> raw_ids \<Rightarrow> (string \<times> int list) option" where
  "validate_department_scope scope raw =
     (let value = py_lower (py_strip (if scope = [] then ''none'' else scope)) in
      if value \<notin> set VALID_DEPARTMENT_SCOPES then None
      else case (case raw of No_ids \<Rightarrow> Some [] | Not_a_list \<Rightarrow> None | Ids items \<Rightarrow> read_ids items []) of
        None \<Rightarrow> None
      | Some ids \<Rightarrow>
          if value = ''departments'' \<and> ids = [] then None
          else Some (value, if value = ''departments'' then ids else []))"

section \<open>The egress policy\<close>

type_synonym lookup = "string \<Rightarrow> int \<Rightarrow> string list option"

definition resolve_host :: "lookup \<Rightarrow> string \<Rightarrow> int option \<Rightarrow> string list option" where
  "resolve_host lookup host port =
     map_option (foldl add_new []) (lookup host (case port of None \<Rightarrow> 443 | Some p \<Rightarrow> if p = 0 then 443 else p))"

definition blocked_address :: "string \<Rightarrow> bool" where
  "blocked_address address =
     (case ip_address address of
        None \<Rightarrow> True
      | Some (V4 n) \<Rightarrow> \<not> is_global (V4 n)
      | Some (V6 n) \<Rightarrow> (case ipv4_mapped n of None \<Rightarrow> \<not> is_global (V6 n) | Some m \<Rightarrow> \<not> is_global (V4 m)))"

definition url_addresses :: "lookup \<Rightarrow> string \<Rightarrow> int option \<Rightarrow> string list option" where
  "url_addresses lookup host port = (if ip_address host \<noteq> None then Some [host] else resolve_host lookup host port)"

definition validate_url :: "lookup \<Rightarrow> bool \<Rightarrow> bool \<Rightarrow> string \<Rightarrow> string option" where
  "validate_url lookup allow_insecure_http allow_private_hosts url =
     (let value = py_strip url in
      if value = [] then None
      else case urlsplit value of
        None \<Rightarrow> None
      | Some parts \<Rightarrow>
          (let scheme = py_lower (up_scheme parts) in
           if scheme \<noteq> ''http'' \<and> scheme \<noteq> ''https'' then None
           else if scheme = ''http'' \<and> \<not> allow_insecure_http then None
           else if up_user parts \<noteq> [] \<or> up_password parts \<noteq> [] then None
           else if up_host parts = [] then None
           else case up_port parts of
             None \<Rightarrow> None
           | Some port \<Rightarrow>
               if allow_private_hosts then Some value
               else case url_addresses lookup (up_host parts) port of
                 None \<Rightarrow> None
               | Some addresses \<Rightarrow>
                   if addresses = [] \<or> list_ex blocked_address addresses then None else Some value))"

section \<open>Accepted headers are bounded\<close>

lemma header_loop_total:
  assumes "header_loop entries chars normalized = Some (chars', normalized')"
    and "sum_list (map (\<lambda>(k, v). length k + length v) normalized) \<le> chars"
    and "list_all (\<lambda>(k, v). k \<noteq> [] \<and> length k \<le> MAX_HEADER_KEY_CHARS \<and> length v \<le> MAX_HEADER_VALUE_CHARS) normalized"
    and "distinct (map fst normalized)"
  shows "sum_list (map (\<lambda>(k, v). length k + length v) normalized') \<le> chars'
    \<and> list_all (\<lambda>(k, v). k \<noteq> [] \<and> length k \<le> MAX_HEADER_KEY_CHARS \<and> length v \<le> MAX_HEADER_VALUE_CHARS) normalized'
    \<and> distinct (map fst normalized') \<and> length normalized' \<le> length normalized + length entries"
  using assms
proof (induction entries chars normalized rule: header_loop.induct)
  case (2 raw_key v rest chars normalized)
  let ?key = "py_strip raw_key"
  have key: "?key \<noteq> []" "length ?key \<le> MAX_HEADER_KEY_CHARS" "length v \<le> MAX_HEADER_VALUE_CHARS"
    and rest: "header_loop rest (chars + (length ?key + length v)) (AList.update ?key v normalized) = Some (chars', normalized')"
    using "2.prems"(1) by (auto simp: Let_def split: if_splits)
  have sum: "sum_list (map (\<lambda>(k, v). length k + length v) (AList.update ?key v al))
      \<le> sum_list (map (\<lambda>(k, v). length k + length v) al) + (length ?key + length v)" for al :: "(string \<times> string) list"
    by (induction al) auto
  have all: "list_all (\<lambda>(k, v). k \<noteq> [] \<and> length k \<le> MAX_HEADER_KEY_CHARS \<and> length v \<le> MAX_HEADER_VALUE_CHARS)
      (AList.update ?key v al)"
    if "list_all (\<lambda>(k, v). k \<noteq> [] \<and> length k \<le> MAX_HEADER_KEY_CHARS \<and> length v \<le> MAX_HEADER_VALUE_CHARS) al" for al
    using that key by (induction al) auto
  have len: "length (AList.update ?key v al) \<le> Suc (length al)" for al :: "(string \<times> string) list"
    by (induction al) auto
  have "sum_list (map (\<lambda>(k, v). length k + length v) (AList.update ?key v normalized)) \<le> chars + (length ?key + length v)"
    using sum [of normalized] "2.prems"(2) by linarith
  from "2.IH" [OF refl _ rest this all [OF "2.prems"(3)]] key "2.prems"(4) len [of normalized]
  show ?case by (auto simp: distinct_update)
qed auto

lemma validate_headers_bounds:
  assumes "validate_headers raw = Some h"
  shows "length h \<le> MAX_HEADERS \<and> distinct (map fst h)
    \<and> sum_list (map (\<lambda>(k, v). length k + length v) h) \<le> MAX_HEADERS_TOTAL_CHARS
    \<and> list_all (\<lambda>(k, v). k \<noteq> [] \<and> length k \<le> MAX_HEADER_KEY_CHARS \<and> length v \<le> MAX_HEADER_VALUE_CHARS) h"
proof (cases raw)
  case (Some entries)
  then obtain chars where "header_loop entries 0 [] = Some (chars, h)" "chars \<le> MAX_HEADERS_TOTAL_CHARS" "length entries \<le> MAX_HEADERS"
    using assms by (auto simp: validate_headers_def split: if_splits option.splits)
  with header_loop_total [of entries 0 "[]" chars h] show ?thesis by auto
qed (use assms in \<open>simp add: validate_headers_def\<close>)

section \<open>Accepted URLs lead outside\<close>

text \<open>An address outside the closed ranges; an IPv4-mapped one is judged by the IPv4 address it carries.\<close>

definition address_outside :: "string \<Rightarrow> bool" where
  "address_outside address \<longleftrightarrow>
     (case ip_address address of
        None \<Rightarrow> False
      | Some (V4 n) \<Rightarrow> \<not> list_ex (in_range n) v4_closed_ranges
      | Some (V6 n) \<Rightarrow> \<not> list_ex (in_range n) v6_closed_ranges
          \<and> (n div 2 ^ 32 = 0xffff \<longrightarrow> \<not> list_ex (in_range (n mod 2 ^ 32)) v4_closed_ranges))"

lemma mapped_not_closed:
  assumes "n div 2 ^ 32 = (0xffff :: int)"
  shows "\<not> list_ex (in_range n) v6_closed_ranges"
proof -
  have eval: "groups [0x2001, 0xdb8] = 42540766411282592856903984951653826560" "groups [0x2002] = 42545680458834377588178886921629466624"
    "groups [0xfc00] = 334965454937798799971759379190646833152" "groups [0xfe80] = 338288524927261089654018896841347694592"
    by code_simp+
  have "n = 0xffff * 2 ^ 32 + n mod 2 ^ 32" using assms by (metis div_mult_mod_eq)
  moreover have "0 \<le> n mod 2 ^ 32" "n mod 2 ^ 32 < 2 ^ 32" by simp_all
  ultimately have "281470681743360 \<le> n" "n < 281474976710656" by simp_all
  then show ?thesis by (simp add: v6_closed_ranges_def in_range_def eval)
qed

lemma unblocked_outside:
  assumes "\<not> blocked_address a"
  shows "address_outside a"
proof -
  obtain x where x: "ip_address a = Some x" using assms by (auto simp: blocked_address_def split: option.splits)
  show ?thesis
  proof (cases x)
    case (V4 n)
    then show ?thesis using assms x by (simp add: blocked_address_def address_outside_def v4_is_global_ranges)
  next
    case (V6 n)
    show ?thesis
    proof (cases "ipv4_mapped n")
      case None
      then have "n div 2 ^ 32 \<noteq> 0xffff" by (auto simp: ipv4_mapped_def drop_bit_eq_div split: if_splits)
      moreover have "\<not> v6_is_private n" using assms x V6 None by (simp add: blocked_address_def)
      ultimately show ?thesis using x V6 v6_closed_is_private [of n] by (auto simp: address_outside_def)
    next
      case (Some m)
      then have m: "m = n mod 2 ^ 32" "n div 2 ^ 32 = 0xffff"
        by (auto simp: ipv4_mapped_def drop_bit_eq_div take_bit_eq_mod split: if_splits)
      have "v4_is_global m" using assms x V6 Some by (simp add: blocked_address_def)
      with m mapped_not_closed [OF m(2)] x V6 show ?thesis by (simp add: address_outside_def v4_is_global_ranges)
    qed
  qed
qed


definition demo_lookup :: lookup where
  "demo_lookup host port =
     (if host = ''tools.example'' then Some [''93.184.216.34'', ''::ffff:8.8.8.8'']
      else if host = ''inside.example'' then Some [''93.184.216.34'', ''::ffff:10.0.0.1'']
      else if host = ''nat64.example'' then Some [''64:ff9b::a00:1''] else None)"


text \<open>Addresses that carry a private IPv4 address in another way, through the NAT64 prefix or as an IPv4-compatible
  address, count as global and are accepted.\<close>

lemma translated_private_accepted:
  "validate_url demo_lookup False False ''https://nat64.example/'' = Some ''https://nat64.example/''"
  "validate_url demo_lookup False False ''https://[::a00:1]/'' = Some ''https://[::a00:1]/''"
  by code_simp+

end
