(* ===== verification/Mcp_Service.thy ===== *)
theory Mcp_Service
  imports Mcp_Registry Mcp_Validation Write_Proposals "HOL-Library.Monad_Syntax"
begin

text \<open>
  The service of external tool servers: \<open>McpPluginService\<close> (\<open>agents/mcp/service.py\<close>) over the registry, with discovery
  (\<open>agents/mcp/client.py\<close>) and its process-local cache (\<open>agents/mcp/cache.py\<close>).

  \<open>remote\<close> answers for the server behind a connection: the tools it lists, or the kind of the failure, timeouts
  included.  Settings, the vault, address lookup and the clock are arguments; the wording of messages is reduced to its
  kind.  An error of the service carries its HTTP status.
\<close>

section \<open>Discovery\<close>

record plugin_settings =
  ps_policy :: mcp_settings
  ps_diagnostic :: bool
  ps_allow_http :: bool
  ps_allow_private :: bool
  ps_max_tools :: int

record tool_stats =
  ts_all :: int
  ts_read_only :: int
  ts_writable :: int

record cached_tools =
  ct_fingerprint :: string
  ct_tools :: "raw_tool list"
  ct_stats :: tool_stats

type_synonym tool_cache = "(string \<times> cached_tools) list"

type_synonym remote = "connection \<Rightarrow> string + raw_tool list"

definition cache_get :: "string \<Rightarrow> string \<Rightarrow> tool_cache \<Rightarrow> cached_tools option" where
  "cache_get slug fingerprint cache =
     (case map_of cache slug of
        None \<Rightarrow> None
      | Some item \<Rightarrow> if ct_fingerprint item \<noteq> fingerprint then None else Some item)"

definition cache_put :: "string \<Rightarrow> cached_tools \<Rightarrow> tool_cache \<Rightarrow> tool_cache" where
  "cache_put = AList.update"

definition cache_clear :: "string \<Rightarrow> tool_cache \<Rightarrow> tool_cache" where
  "cache_clear = AList.delete"

definition stats_of :: "raw_tool list \<Rightarrow> tool_stats" where
  "stats_of tools =
     (let read_only = int (rowcount rt_read_only tools) in
      \<lparr>ts_all = int (length tools), ts_read_only = read_only, ts_writable = int (length tools) - read_only\<rparr>)"

record discovered_tools =
  ds_tools :: "raw_tool list"
  ds_stats :: tool_stats
  ds_from_cache :: bool

definition egress :: "plugin_settings \<Rightarrow> lookup \<Rightarrow> string \<Rightarrow> string option" where
  "egress cfg lookup = validate_url lookup (ps_allow_http cfg) (ps_allow_private cfg)"

definition discover_server_tools ::
  "plugin_settings \<Rightarrow> vault \<Rightarrow> lookup \<Rightarrow> remote \<Rightarrow> bool \<Rightarrow> server_row \<Rightarrow> tool_cache \<Rightarrow> (string + discovered_tools) \<times> tool_cache" where
  "discover_server_tools cfg va lookup remote force_refresh r cache =
     (if \<not> row_credentials_ok va r then (Inl ''credentials'', cache)
      else case egress cfg lookup (sv_url r) of
        None \<Rightarrow> (Inl ''policy'', cache)
      | Some url \<Rightarrow>
          (case (if force_refresh then None else cache_get (sv_slug r) (sv_fingerprint r) cache) of
             Some item \<Rightarrow> (Inr \<lparr>ds_tools = ct_tools item, ds_stats = ct_stats item, ds_from_cache = True\<rparr>, cache)
           | None \<Rightarrow>
               (case remote ((row_connection va r)\<lparr>cn_url := url\<rparr>) of
                  Inl kind \<Rightarrow> (Inl kind, cache)
                | Inr tools \<Rightarrow>
                    if int (length tools) > ps_max_tools cfg then (Inl ''tool_limit'', cache)
                    else (Inr \<lparr>ds_tools = tools, ds_stats = stats_of tools, ds_from_cache = False\<rparr>,
                          cache_put (sv_slug r) \<lparr>ct_fingerprint = sv_fingerprint r, ct_tools = tools, ct_stats = stats_of tools\<rparr> cache))))"

text \<open>Several servers: a failure stays with its server.\<close>

fun load_many_server_tools ::
  "plugin_settings \<Rightarrow> vault \<Rightarrow> lookup \<Rightarrow> remote \<Rightarrow> bool \<Rightarrow> server_row list \<Rightarrow> tool_cache \<Rightarrow> (string + discovered_tools) list \<times> tool_cache" where
  "load_many_server_tools cfg va lookup remote force [] cache = ([], cache)"
| "load_many_server_tools cfg va lookup remote force (r # rs) cache =
     (case discover_server_tools cfg va lookup remote force r cache of
        (out, cache1) \<Rightarrow>
          (case load_many_server_tools cfg va lookup remote force rs cache1 of (outs, cache2) \<Rightarrow> (out # outs, cache2)))"

section \<open>Administration\<close>

text \<open>The loops of \<open>_clean_names\<close> and \<open>_clean_tags\<close>, which stop at a limit.\<close>

fun clean_loop :: "nat \<Rightarrow> (string \<Rightarrow> string) \<Rightarrow> string list \<Rightarrow> string list \<Rightarrow> string list" where
  "clean_loop limit norm [] cleaned = cleaned"
| "clean_loop limit norm (x # xs) cleaned =
     (let name = norm x; cleaned' = (if name = [] then cleaned else add_new cleaned name)
      in if length cleaned' \<ge> limit then cleaned' else clean_loop limit norm xs cleaned')"

definition clean_names :: "string list \<Rightarrow> string list" where
  "clean_names values = clean_loop 200 py_strip values []"

definition clean_tags :: "string list \<Rightarrow> string list" where
  "clean_tags values = clean_loop 10 (\<lambda>item. clip 32 (py_strip item)) values []"

definition get_server :: "string \<Rightarrow> registry \<Rightarrow> registry_error + server_row" where
  "get_server slug reg = (case get_row (py_strip slug) reg of None \<Rightarrow> Inl (Service_error 404) | Some r \<Rightarrow> Inr r)"

text \<open>The fields of a request to create a server.\<close>

record raw_form =
  rf_slug :: string
  rf_name :: string
  rf_transport :: string
  rf_url :: string
  rf_description :: string
  rf_headers :: "headers option"
  rf_timeout :: raw_number
  rf_sse :: raw_number
  rf_scope :: string
  rf_departments :: raw_ids
  rf_disabled :: "string list"
  rf_write :: "string list"
  rf_tags :: "string list"
  rf_icon :: string

definition valid_form :: "plugin_settings \<Rightarrow> lookup \<Rightarrow> string \<Rightarrow> raw_form \<Rightarrow> server_form option" where
  "valid_form cfg lookup actor f = do {
     slug \<leftarrow> normalize_slug (rf_slug f);
     (scope, scope_ids) \<leftarrow> validate_department_scope (rf_scope f) (rf_departments f);
     name \<leftarrow> validate_name (rf_name f);
     transport \<leftarrow> validate_transport (rf_transport f);
     url \<leftarrow> egress cfg lookup (rf_url f);
     headers \<leftarrow> validate_headers (rf_headers f);
     timeout \<leftarrow> validate_timeout 3600 (rf_timeout f);
     sse \<leftarrow> validate_timeout 3600 (rf_sse f);
     Some \<lparr>fo_slug = slug, fo_name = name, fo_description = clip 1000 (rf_description f), fo_transport = transport, fo_url = url,
       fo_headers = headers, fo_timeout = timeout, fo_sse = sse, fo_scope = scope, fo_departments = scope_ids,
       fo_disabled = clean_names (rf_disabled f), fo_write = clean_names (rf_write f), fo_tags = clean_tags (rf_tags f),
       fo_icon = clip 16 (rf_icon f), fo_actor = actor\<rparr>
   }"

definition create_server ::
  "plugin_settings \<Rightarrow> vault \<Rightarrow> lookup \<Rightarrow> string \<Rightarrow> string \<Rightarrow> raw_form \<Rightarrow> registry \<Rightarrow> registry_error + server_row \<times> registry" where
  "create_server cfg va lookup now actor f reg =
     (case valid_form cfg lookup actor f of
        None \<Rightarrow> Inl (Service_error 400)
      | Some form \<Rightarrow>
          (case create_row va now form reg of
             Inl Server_exists \<Rightarrow> Inl (Service_error 409)
           | Inl Credential_failure \<Rightarrow> Inl (Service_error 400)
           | Inl e \<Rightarrow> Inl e
           | Inr out \<Rightarrow> Inr out))"

text \<open>The fields of a request to change a server; \<open>None\<close> is a missing field.\<close>

record raw_patch =
  rq_name :: "string option"
  rq_description :: "string option"
  rq_transport :: "string option"
  rq_url :: "string option"
  rq_clear_headers :: bool
  rq_headers :: "headers option option"
  rq_timeout :: "raw_number option"
  rq_sse :: "raw_number option"
  rq_scope :: "string option"
  rq_departments :: "raw_ids option"
  rq_disabled :: "string list option"
  rq_write :: "string list option"
  rq_tags :: "string list option"
  rq_icon :: "string option"

definition check_field :: "('a \<Rightarrow> 'b option) \<Rightarrow> 'a option \<Rightarrow> 'b option option" where
  "check_field check field = (case field of None \<Rightarrow> Some None | Some v \<Rightarrow> map_option Some (check v))"

definition patch_headers :: "raw_patch \<Rightarrow> header_patch option" where
  "patch_headers p =
     (if rq_clear_headers p then Some Clear_headers
      else case rq_headers p of None \<Rightarrow> Some Keep_headers | Some h \<Rightarrow> map_option Set_headers (validate_headers h))"

definition patch_scope :: "raw_patch \<Rightarrow> server_row \<Rightarrow> (string option \<times> int list option) option" where
  "patch_scope p r =
     (if rq_scope p = None \<and> rq_departments p = None then Some (None, None)
      else map_option (\<lambda>(scope, ids). (Some scope, Some ids))
        (validate_department_scope (or_old (rq_scope p) (sv_scope r))
          (or_old (rq_departments p) (Ids (map Number (sv_departments r))))))"

definition valid_patch :: "plugin_settings \<Rightarrow> lookup \<Rightarrow> string \<Rightarrow> raw_patch \<Rightarrow> server_row \<Rightarrow> server_patch option" where
  "valid_patch cfg lookup actor p r = do {
     name \<leftarrow> check_field validate_name (rq_name p);
     transport \<leftarrow> check_field validate_transport (rq_transport p);
     url \<leftarrow> check_field (egress cfg lookup) (rq_url p);
     headers \<leftarrow> patch_headers p;
     timeout \<leftarrow> check_field (validate_timeout 3600) (rq_timeout p);
     sse \<leftarrow> check_field (validate_timeout 3600) (rq_sse p);
     (scope, ids) \<leftarrow> patch_scope p r;
     Some \<lparr>pa_name = name, pa_description = map_option (clip 1000) (rq_description p), pa_transport = transport, pa_url = url,
       pa_headers = headers, pa_timeout = timeout, pa_sse = sse, pa_scope = scope, pa_departments = ids,
       pa_disabled = map_option clean_names (rq_disabled p), pa_write = map_option clean_names (rq_write p),
       pa_tags = map_option clean_tags (rq_tags p), pa_icon = map_option (clip 16) (rq_icon p), pa_actor = actor\<rparr>
   }"

definition update_server ::
  "plugin_settings \<Rightarrow> vault \<Rightarrow> lookup \<Rightarrow> string \<Rightarrow> string \<Rightarrow> string \<Rightarrow> raw_patch \<Rightarrow> registry \<Rightarrow> registry_error + server_row \<times> registry" where
  "update_server cfg va lookup now actor slug p reg =
     (case get_server slug reg of
        Inl e \<Rightarrow> Inl e
      | Inr r \<Rightarrow>
          (case valid_patch cfg lookup actor p r of
             None \<Rightarrow> Inl (Service_error 400)
           | Some patch \<Rightarrow>
               (case update_row va now slug patch reg of
                  Inl Credential_failure \<Rightarrow> Inl (Service_error 400)
                | Inl e \<Rightarrow> Inl e
                | Inr out \<Rightarrow> Inr out)))"

definition delete_server :: "string \<Rightarrow> registry \<Rightarrow> registry_error + bool \<times> registry" where
  "delete_server slug reg = (case get_server slug reg of Inl e \<Rightarrow> Inl e | Inr r \<Rightarrow> Inr (delete_row slug reg))"

text \<open>Enabling reads the record and checks it; the write is a second transaction.\<close>

definition enable_check :: "plugin_settings \<Rightarrow> vault \<Rightarrow> string \<Rightarrow> bool \<Rightarrow> registry \<Rightarrow> registry_error + server_row" where
  "enable_check cfg va slug enabled reg =
     (case get_server slug reg of
        Inl e \<Rightarrow> Inl e
      | Inr r \<Rightarrow>
          if enabled \<and> \<not> st_enabled (ps_policy cfg) then Inl (Service_error 409)
          else if enabled \<and> \<not> row_credentials_ok va r then Inl (Service_error 409)
          else if enabled \<and> \<not> test_passed_for_current_config r then Inl (Service_error 409)
          else Inr r)"

definition set_enabled ::
  "plugin_settings \<Rightarrow> vault \<Rightarrow> string \<Rightarrow> string \<Rightarrow> string \<Rightarrow> bool \<Rightarrow> registry \<Rightarrow> registry_error + server_row \<times> registry" where
  "set_enabled cfg va now actor slug enabled reg =
     (case enable_check cfg va slug enabled reg of
        Inl e \<Rightarrow> Inl e
      | Inr r \<Rightarrow> store_set_enabled now slug enabled actor reg)"

text \<open>A connection test reads the record, asks the server, and records the outcome with the fingerprint it read.\<close>

definition begin_test :: "plugin_settings \<Rightarrow> string \<Rightarrow> registry \<Rightarrow> registry_error + server_row" where
  "begin_test cfg slug reg =
     (case get_server slug reg of
        Inl e \<Rightarrow> Inl e
      | Inr r \<Rightarrow> if \<not> st_enabled (ps_policy cfg) \<and> \<not> ps_diagnostic cfg then Inl (Service_error 409) else Inr r)"

definition finish_test :: "string \<Rightarrow> string \<Rightarrow> server_row \<Rightarrow> string + discovered_tools \<Rightarrow> registry \<Rightarrow> registry_error + server_row \<times> registry" where
  "finish_test now slug r outcome reg =
     (case outcome of
        Inl kind \<Rightarrow> record_test_result now slug False (sv_fingerprint r) kind reg
      | Inr found \<Rightarrow> record_test_result now slug True (sv_fingerprint r) [] reg)"

record test_summary =
  tt_tools :: int
  tt_read_only :: int
  tt_blocked :: nat

definition test_server ::
  "plugin_settings \<Rightarrow> vault \<Rightarrow> lookup \<Rightarrow> remote \<Rightarrow> string \<Rightarrow> string \<Rightarrow> registry \<Rightarrow> tool_cache
     \<Rightarrow> (registry_error + test_summary) \<times> registry \<times> tool_cache" where
  "test_server cfg va lookup remote now slug reg cache =
     (case begin_test cfg slug reg of
        Inl e \<Rightarrow> (Inl e, reg, cache)
      | Inr r \<Rightarrow>
          (case discover_server_tools cfg va lookup remote True r cache of
             (outcome, cache') \<Rightarrow>
               (case finish_test now slug r outcome reg of
                  Inl e \<Rightarrow> (Inl e, reg, cache')
                | Inr (_, reg') \<Rightarrow>
                    (case outcome of
                       Inl kind \<Rightarrow> (Inl (Service_error 502), reg', cache')
                     | Inr found \<Rightarrow>
                         (Inr \<lparr>tt_tools = ts_all (ds_stats found), tt_read_only = ts_read_only (ds_stats found),
                               tt_blocked = length (sv_disabled r)\<rparr>, reg', cache')))))"

record tool_info =
  ti_name :: string
  ti_read_only :: bool
  ti_disabled :: bool
  ti_write_allowed :: bool
  ti_blocked :: string

definition info_of :: "bool \<Rightarrow> server_row \<Rightarrow> raw_tool \<Rightarrow> tool_info" where
  "info_of write_channel r t =
     (let name = py_strip (rt_name t); disabled = name \<in> set (sv_disabled r); write_allowed = name \<in> set (sv_write r) in
      \<lparr>ti_name = name, ti_read_only = rt_read_only t, ti_disabled = disabled, ti_write_allowed = write_allowed,
       ti_blocked = (if disabled then ''disabled''
                     else if \<not> rt_read_only t \<and> \<not> write_allowed then ''not_read_only''
                     else if write_allowed \<and> \<not> write_channel then ''write_disabled''
                     else [])\<rparr>)"

definition list_tools ::
  "plugin_settings \<Rightarrow> vault \<Rightarrow> lookup \<Rightarrow> remote \<Rightarrow> string \<Rightarrow> registry \<Rightarrow> tool_cache \<Rightarrow> (registry_error + tool_info list) \<times> tool_cache" where
  "list_tools cfg va lookup remote slug reg cache =
     (if \<not> st_enabled (ps_policy cfg) then (Inl (Service_error 409), cache)
      else case get_server slug reg of
        Inl e \<Rightarrow> (Inl e, cache)
      | Inr r \<Rightarrow>
          (case discover_server_tools cfg va lookup remote True r cache of
             (Inl kind, cache') \<Rightarrow> (Inl (Service_error 502), cache')
           | (Inr found, cache') \<Rightarrow>
               (Inr (map (info_of (st_write_enabled (ps_policy cfg)) r) (filter (\<lambda>t. py_strip (rt_name t) \<noteq> []) (ds_tools found))),
                cache')))"

definition refresh_tools ::
  "plugin_settings \<Rightarrow> vault \<Rightarrow> lookup \<Rightarrow> remote \<Rightarrow> string \<Rightarrow> registry \<Rightarrow> tool_cache \<Rightarrow> (registry_error + tool_info list) \<times> tool_cache" where
  "refresh_tools cfg va lookup remote slug reg cache =
     (if \<not> st_enabled (ps_policy cfg) then (Inl (Service_error 409), cache)
      else case get_server slug reg of
        Inl e \<Rightarrow> (Inl e, cache)
      | Inr r \<Rightarrow> list_tools cfg va lookup remote slug reg (cache_clear (sv_slug r) cache))"

definition toggle_tool :: "string \<Rightarrow> string \<Rightarrow> string \<Rightarrow> string \<Rightarrow> registry \<Rightarrow> registry_error + (bool \<times> server_row) \<times> registry" where
  "toggle_tool now actor slug tool reg =
     (case store_toggle_tool now slug tool actor reg of
        Inl Server_missing \<Rightarrow> Inl (Service_error 404)
      | Inl e \<Rightarrow> Inl (Service_error 400)
      | Inr out \<Rightarrow> Inr out)"

definition set_write_tools :: "string \<Rightarrow> string \<Rightarrow> string \<Rightarrow> string list \<Rightarrow> registry \<Rightarrow> registry_error + server_row \<times> registry" where
  "set_write_tools now actor slug tools reg =
     (case get_server slug reg of Inl e \<Rightarrow> Inl e | Inr r \<Rightarrow> store_set_write_tools now slug (clean_names tools) actor reg)"

section \<open>Catalog and subscriptions\<close>

record catalog_item =
  ca_slug :: string
  ca_name :: string
  ca_description :: string
  ca_icon :: string
  ca_tags :: "string list"
  ca_tools :: int
  ca_read_only :: int
  ca_subscribed :: bool
  ca_allow_write :: bool
  ca_writable :: bool

definition catalog_view :: "subscription_row option \<Rightarrow> cached_tools option \<Rightarrow> server_row \<Rightarrow> catalog_item" where
  "catalog_view subscription cached r =
     \<lparr>ca_slug = sv_slug r, ca_name = sv_name r, ca_description = sv_description r, ca_icon = sv_icon r, ca_tags = sv_tags r,
      ca_tools = (case cached of None \<Rightarrow> 0 | Some c \<Rightarrow> ts_all (ct_stats c)),
      ca_read_only = (case cached of None \<Rightarrow> 0 | Some c \<Rightarrow> ts_read_only (ct_stats c)),
      ca_subscribed = (subscription \<noteq> None),
      ca_allow_write = (case subscription of None \<Rightarrow> False | Some s \<Rightarrow> su_write s),
      ca_writable = (sv_write r \<noteq> [])\<rparr>"

definition catalog :: "plugin_settings \<Rightarrow> vault \<Rightarrow> int option \<Rightarrow> department option \<Rightarrow> registry \<Rightarrow> tool_cache \<Rightarrow> catalog_item list" where
  "catalog cfg va user_id d reg cache =
     (if \<not> st_enabled (ps_policy cfg) then []
      else let subs = (case user_id of None \<Rightarrow> [] | Some u \<Rightarrow> list_subscriptions u reg) in
        sort_key ca_name
          (map (\<lambda>r. catalog_view (fetchone (\<lambda>s. su_slug s = sv_slug r) (rev subs)) (cache_get (sv_slug r) (sv_fingerprint r) cache) r)
            (filter (\<lambda>r. department_allows d (policy_server va r)) (list_enabled reg))))"

definition subscribe ::
  "plugin_settings \<Rightarrow> vault \<Rightarrow> string \<Rightarrow> int \<Rightarrow> string \<Rightarrow> bool \<Rightarrow> department option \<Rightarrow> registry
     \<Rightarrow> registry_error + subscription_row option \<times> registry" where
  "subscribe cfg va now user slug allow_write d reg =
     (if \<not> st_enabled (ps_policy cfg) then Inl (Service_error 409)
      else case get_server slug reg of
        Inl e \<Rightarrow> Inl e
      | Inr r \<Rightarrow>
          if \<not> sv_enabled r then Inl (Service_error 409)
          else if \<not> department_allows d (policy_server va r) then Inl (Service_error 403)
          else if allow_write \<and> \<not> st_write_enabled (ps_policy cfg) then Inl (Service_error 409)
          else if allow_write \<and> sv_write r = [] then Inl (Service_error 409)
          else upsert_subscription now user slug allow_write reg)"

definition unsubscribe :: "int \<Rightarrow> string \<Rightarrow> registry \<Rightarrow> registry_error + bool \<times> registry" where
  "unsubscribe user slug reg = (case get_server slug reg of Inl e \<Rightarrow> Inl e | Inr r \<Rightarrow> Inr (delete_subscription user slug reg))"

definition set_write_consent ::
  "plugin_settings \<Rightarrow> vault \<Rightarrow> string \<Rightarrow> int \<Rightarrow> string \<Rightarrow> bool \<Rightarrow> department option \<Rightarrow> registry
     \<Rightarrow> registry_error + subscription_row option \<times> registry" where
  "set_write_consent cfg va now user slug allow_write d reg =
     (if get_subscription user slug reg = None then Inl (Service_error 404)
      else subscribe cfg va now user slug allow_write d reg)"

section \<open>Decisions on write proposals\<close>

definition list_write_proposals :: "time \<Rightarrow> int \<Rightarrow> proposal_status list \<Rightarrow> int \<Rightarrow> proposals \<Rightarrow> proposals \<times> proposals" where
  "list_write_proposals now user statuses limit rows =
     (let rows' = snd (wp_expire_overdue now rows) in (wp_list_for_user user statuses limit rows', rows'))"

definition decision_answer :: "write_proposal option \<times> decision \<Rightarrow> registry_error + write_proposal" where
  "decision_answer out =
     (case out of
        (None, _) \<Rightarrow> Inl (Service_error 404)
      | (Some p, d) \<Rightarrow> if d = Not_found then Inl (Service_error 404) else if d = Decided then Inr p else Inl (Service_error 409))"

definition confirm_write_proposal ::
  "plugin_settings \<Rightarrow> time \<Rightarrow> int \<Rightarrow> string \<Rightarrow> proposals \<Rightarrow> (registry_error + write_proposal) \<times> proposals" where
  "confirm_write_proposal cfg now user pid rows =
     (if \<not> st_write_enabled (ps_policy cfg) then (Inl (Service_error 409), rows)
      else case wp_confirm now user pid rows of (out, rows') \<Rightarrow> (decision_answer out, rows'))"

definition reject_write_proposal :: "time \<Rightarrow> int \<Rightarrow> string \<Rightarrow> proposals \<Rightarrow> (registry_error + write_proposal) \<times> proposals" where
  "reject_write_proposal now user pid rows = (case wp_reject now user pid rows of (out, rows') \<Rightarrow> (decision_answer out, rows'))"

end
