(* ===== verification/Mcp_Artifacts.thy ===== *)
theory Mcp_Artifacts
  imports Net_Address "HOL-Library.AList"
begin

text \<open>
  Candidate artifacts of confirmed writes: \<open>agents/mcp/artifacts.py\<close>.  The answer of a tool is searched for an artifact;
  its name, extension, size and hash are checked, and its content is written below the artifact directory.

  Files are an association list from absolute paths to contents.  The hash, the limits, and \<open>str\<close> on containers are
  arguments.  Strings are ASCII, so the range of Chinese characters in \<open>_SAFE_NAME_RE\<close> is empty here.  A text value
  carries what \<open>json.loads\<close> reads from it.
\<close>

type_synonym bytes = "nat list"

section \<open>Values\<close>

datatype json =
    J_null
  | J_other bool string
  | J_bytes bytes
  | J_text string "json option"
  | J_list "json list"
  | J_obj "(string \<times> json) list"
  | J_model "json"

fun truthy :: "json \<Rightarrow> bool" where
  "truthy J_null = False"
| "truthy (J_other b s) = b"
| "truthy (J_bytes b) = (b \<noteq> [])"
| "truthy (J_text s p) = (s \<noteq> [])"
| "truthy (J_list vs) = (vs \<noteq> [])"
| "truthy (J_obj kvs) = (kvs \<noteq> [])"
| "truthy (J_model v) = True"

text \<open>\<open>str(value or fallback)\<close>; \<open>repr\<close> prints containers and bytes.\<close>

definition str_or :: "(json \<Rightarrow> string) \<Rightarrow> string \<Rightarrow> json option \<Rightarrow> string" where
  "str_or repr fallback v =
     (case v of
        None \<Rightarrow> fallback
      | Some x \<Rightarrow> if \<not> truthy x then fallback else (case x of J_text s p \<Rightarrow> s | J_other b s \<Rightarrow> s | _ \<Rightarrow> repr x))"

text \<open>\<open>len\<close>, \<open>None\<close> where it raises.\<close>

fun py_len :: "json \<Rightarrow> nat option" where
  "py_len (J_bytes b) = Some (length b)"
| "py_len (J_text s p) = Some (length s)"
| "py_len (J_list vs) = Some (length vs)"
| "py_len (J_obj kvs) = Some (length kvs)"
| "py_len _ = None"

section \<open>Finding the artifact in a tool result\<close>

type_synonym payload = "(string \<times> json) list"

text \<open>An entry whose value is \<open>None\<close> is read like a missing one by \<open>dict.get\<close>.\<close>

definition dict_get :: "payload \<Rightarrow> string \<Rightarrow> json option" where
  "dict_get d key = (case map_of d key of None \<Rightarrow> None | Some J_null \<Rightarrow> None | Some v \<Rightarrow> Some v)"

definition is_text :: "string \<Rightarrow> json option \<Rightarrow> bool" where
  "is_text s v = (case v of Some (J_text t p) \<Rightarrow> t = s | _ \<Rightarrow> False)"

text \<open>The branch for embedded resources: \<open>Inl\<close> is the \<open>AttributeError\<close> of a resource that is no dictionary, \<open>None\<close> no blob.\<close>

definition resource_payload :: "(json \<Rightarrow> string) \<Rightarrow> payload \<Rightarrow> unit + payload option" where
  "resource_payload repr d =
     (case dict_get d ''resource'' of
        Some (J_obj res) \<Rightarrow>
          (case dict_get res ''blob'' of
             Some blob \<Rightarrow>
               if truthy blob then
                 (let name = after_last (CHR ''/'') (str_or repr ''artifact'' (dict_get res ''uri'')) in
                  Inr (Some [(''content_base64'', blob), (''filename'', J_text (if name = [] then ''artifact'' else name) None),
                             (''sha256'', (case map_of res ''sha256'' of None \<Rightarrow> J_text [] None | Some v \<Rightarrow> v)),
                             (''media_type'', (case map_of res ''mimeType'' of None \<Rightarrow> J_text [] None | Some v \<Rightarrow> v))]))
               else Inr None
           | None \<Rightarrow> Inr None)
      | None \<Rightarrow> Inr None
      | Some v \<Rightarrow> if truthy v then Inl () else Inr None)"

definition PAYLOAD_KEYS :: "string list" where
  "PAYLOAD_KEYS = [''structuredContent'', ''structured_content'', ''result'', ''data'', ''text'']"

definition is_payload :: "payload \<Rightarrow> bool" where
  "is_payload d \<longleftrightarrow> ''content_base64'' \<in> fst ` set d \<or> (''filename'' \<in> fst ` set d \<and> ''sha256'' \<in> fst ` set d)"

lemma size_map_of: "map_of d k = Some v \<Longrightarrow> size v < size (J_obj d)"
  by (induction d) (auto split: if_splits)

lemma size_dict_get: "dict_get d k = Some v \<Longrightarrow> size v < size (J_obj d)"
  using size_map_of by (fastforce simp: dict_get_def split: option.splits json.splits)

text \<open>\<open>_payload_from\<close>, with the loops over keys and items: \<open>Inl\<close> is an exception, \<open>Inr None\<close> nothing found.\<close>

function (sequential) payload_from :: "(json \<Rightarrow> string) \<Rightarrow> json \<Rightarrow> unit + payload option"
  and payload_in_keys :: "(json \<Rightarrow> string) \<Rightarrow> string list \<Rightarrow> payload \<Rightarrow> unit + payload option"
  and payload_in_items :: "(json \<Rightarrow> string) \<Rightarrow> json list \<Rightarrow> unit + payload option" where
  "payload_from repr (J_obj d) =
     (case dict_get d ''artifact'' of
        Some (J_obj nested) \<Rightarrow> payload_from repr (J_obj nested)
      | _ \<Rightarrow>
          if is_payload d then Inr (Some d)
          else if is_text ''resource'' (dict_get d ''type'') then
            (case resource_payload repr d of Inr None \<Rightarrow> payload_in_keys repr PAYLOAD_KEYS d | out \<Rightarrow> out)
          else payload_in_keys repr PAYLOAD_KEYS d)"
| "payload_from repr (J_list vs) = payload_in_items repr vs"
| "payload_from repr (J_text s parsed) =
     (if take 1 (py_strip s) \<noteq> ''{'' then Inr None
      else case parsed of None \<Rightarrow> Inr None | Some v \<Rightarrow> payload_from repr v)"
| "payload_from repr (J_model v) = (case payload_from repr v of Inl _ \<Rightarrow> Inr None | out \<Rightarrow> out)"
| "payload_from repr _ = Inr None"
| "payload_in_keys repr [] d = Inr None"
| "payload_in_keys repr (k # ks) d =
     (case dict_get d k of
        None \<Rightarrow> payload_in_keys repr ks d
      | Some v \<Rightarrow> (case payload_from repr v of Inr None \<Rightarrow> payload_in_keys repr ks d | out \<Rightarrow> out))"
| "payload_in_items repr [] = Inr None"
| "payload_in_items repr (v # vs) =
     (case payload_from repr v of Inr None \<Rightarrow> payload_in_items repr vs | out \<Rightarrow> out)"
  by pat_completeness auto

text \<open>Every call is on a value inside the one before; the loop over the keys of a dictionary ends with its keys.\<close>

termination
  by (relation "measures [\<lambda>x. case x of Inl (_, v) \<Rightarrow> 2 * size v | Inr (Inl (_, ks, d)) \<Rightarrow> 2 * size (J_obj d) - 1
        | Inr (Inr (_, vs)) \<Rightarrow> 2 * size_list size vs,
      \<lambda>x. case x of Inl _ \<Rightarrow> 1 | Inr (Inl (_, ks, d)) \<Rightarrow> length ks | Inr (Inr _) \<Rightarrow> 0]")
    (auto dest: size_dict_get)

datatype tool_result = Content_and_artifact json json | Plain_result json

definition extract_artifact_payload :: "(json \<Rightarrow> string) \<Rightarrow> tool_result \<Rightarrow> unit + payload option" where
  "extract_artifact_payload repr result =
     (case result of
        Content_and_artifact content artifact \<Rightarrow>
          (case payload_from repr artifact of Inr None \<Rightarrow> payload_from repr content | out \<Rightarrow> out)
      | Plain_result v \<Rightarrow> payload_from repr v)"

section \<open>Base64\<close>

definition base64_value :: "char \<Rightarrow> nat option" where
  "base64_value c =
     (let n = (of_char c :: nat) in
      if 65 \<le> n \<and> n \<le> 90 then Some (n - 65)
      else if 97 \<le> n \<and> n \<le> 122 then Some (n - 71)
      else if 48 \<le> n \<and> n \<le> 57 then Some (n + 4)
      else if n = 43 then Some 62 else if n = 47 then Some 63 else None)"

text \<open>Groups of four characters, with padding only in the last.\<close>

fun b64_groups :: "string \<Rightarrow> bytes option" where
  "b64_groups [] = Some []"
| "b64_groups [a, b, c, d] =
     (case (base64_value a, base64_value b, base64_value c, base64_value d) of
        (Some p, Some q, Some r, Some s) \<Rightarrow> Some [p * 4 + q div 16, q mod 16 * 16 + r div 4, r mod 4 * 64 + s]
      | (Some p, Some q, Some r, None) \<Rightarrow> if d = CHR ''='' then Some [p * 4 + q div 16, q mod 16 * 16 + r div 4] else None
      | (Some p, Some q, None, None) \<Rightarrow> if c = CHR ''='' \<and> d = CHR ''='' then Some [p * 4 + q div 16] else None
      | _ \<Rightarrow> None)"
| "b64_groups (a # b # c # d # rest) =
     (case (base64_value a, base64_value b, base64_value c, base64_value d, b64_groups rest) of
        (Some p, Some q, Some r, Some s, Some bytes) \<Rightarrow>
          Some ([p * 4 + q div 16, q mod 16 * 16 + r div 4, r mod 4 * 64 + s] @ bytes)
      | _ \<Rightarrow> None)"
| "b64_groups _ = None"

text \<open>\<open>base64.b64decode(text, validate=True)\<close>, which also ignores padding after complete groups.\<close>

definition b64decode :: "string \<Rightarrow> bytes option" where
  "b64decode text =
     (let core = rev (dropWhile (\<lambda>c. c = CHR ''='') (rev text)) in
      if core \<noteq> [] \<and> length core mod 4 = 0 then b64_groups core else b64_groups text)"

section \<open>Names\<close>

definition safe_char :: "char \<Rightarrow> bool" where
  "safe_char c \<longleftrightarrow> ascii_alpha c \<or> ascii_digit c \<or> c \<in> {CHR ''.'', CHR ''_'', CHR ''-''}"

text \<open>\<open>_SAFE_NAME_RE.sub("_", text)\<close>: every maximal run of other characters becomes one underscore.\<close>

fun sub_unsafe :: "bool \<Rightarrow> string \<Rightarrow> string" where
  "sub_unsafe in_run [] = []"
| "sub_unsafe in_run (c # cs) =
     (if safe_char c then c # sub_unsafe False cs
      else if in_run then sub_unsafe True cs else CHR ''_'' # sub_unsafe True cs)"

definition strip_chars :: "char set \<Rightarrow> string \<Rightarrow> string" where
  "strip_chars cs s = rev (dropWhile (\<lambda>c. c \<in> cs) (rev (dropWhile (\<lambda>c. c \<in> cs) s)))"

definition sanitize_filename :: "string \<Rightarrow> string" where
  "sanitize_filename filename =
     (let text = map (\<lambda>c. if c = CHR 0x5C then CHR ''/'' else c) filename;
          base = strip_chars {CHR ''.'', CHR ''_''} (sub_unsafe False (py_strip (after_last (CHR ''/'') text)))
      in clip 120 (if base = [] then ''artifact'' else base))"

definition allowed_extensions :: "string \<Rightarrow> string list" where
  "allowed_extensions raw =
     map (\<lambda>item. dropWhile (\<lambda>c. c = CHR ''.'') (py_lower (py_strip item)))
       (filter (\<lambda>item. py_strip item \<noteq> []) (split_on (CHR '','') raw))"

definition extension_of :: "string \<Rightarrow> string" where
  "extension_of name = (if CHR ''.'' \<in> set name then py_lower (after_last (CHR ''.'') name) else [])"

section \<open>Paths\<close>

text \<open>\<open>os.path.join\<close> of two parts and \<open>os.path.normpath\<close> of an absolute path.\<close>

definition path_join :: "string \<Rightarrow> string \<Rightarrow> string" where
  "path_join a b =
     (if take 1 b = ''/'' then b else if a = [] \<or> last a = CHR ''/'' then a @ b else a @ CHR ''/'' # b)"

fun norm_parts :: "string list \<Rightarrow> string list \<Rightarrow> string list" where
  "norm_parts acc [] = rev acc"
| "norm_parts acc (p # ps) =
     (if p = [] \<or> p = ''.'' then norm_parts acc ps
      else if p = ''..'' then norm_parts (tl acc) ps else norm_parts (p # acc) ps)"

fun slash_join :: "string list \<Rightarrow> string" where
  "slash_join [] = []"
| "slash_join [p] = p"
| "slash_join (p # ps) = p @ CHR ''/'' # slash_join ps"

definition norm_path :: "string \<Rightarrow> string" where
  "norm_path path =
     (if take 2 path = ''//'' \<and> take 3 path \<noteq> ''///'' then ''//'' else ''/'') @ slash_join (norm_parts [] (split_on (CHR ''/'') path))"

section \<open>The store\<close>

type_synonym files = "(string \<times> bytes) list"

record artifact_ref =
  ar_ref :: string
  ar_filename :: string
  ar_sha256 :: string
  ar_bytes :: nat
  ar_media :: string

record artifact_settings =
  as_base :: string
  as_extensions :: string
  as_max_bytes :: int

datatype artifact_error = Rejected_artifact string | Artifact_crash | Artifact_missing

text \<open>The content of a payload: given as bytes, or decoded from base64.\<close>

definition payload_content :: "(json \<Rightarrow> string) \<Rightarrow> payload \<Rightarrow> artifact_error + json" where
  "payload_content repr p =
     (case dict_get p ''content_bytes'' of
        None \<Rightarrow>
          (case b64decode (str_or repr [] (dict_get p ''content_base64'')) of
             None \<Rightarrow> Inl (Rejected_artifact ''encoding'') | Some b \<Rightarrow> Inr (J_bytes b))
      | Some v \<Rightarrow> Inr v)"

definition save_artifact ::
  "artifact_settings \<Rightarrow> (bytes \<Rightarrow> string) \<Rightarrow> (json \<Rightarrow> string) \<Rightarrow> bool \<Rightarrow> int \<Rightarrow> string \<Rightarrow> payload \<Rightarrow> files
     \<Rightarrow> artifact_error + artifact_ref \<times> files" where
  "save_artifact st sha repr disk_ok user pid p files =
     (case payload_content repr p of
        Inl e \<Rightarrow> Inl e
      | Inr content \<Rightarrow>
          (let safe_name = sanitize_filename (str_or repr [] (dict_get p ''filename''));
               declared = py_lower (py_strip (str_or repr [] (dict_get p ''sha256'')))
           in if \<not> truthy content then Inl (Rejected_artifact ''empty'')
              else if extension_of safe_name \<notin> set (allowed_extensions (as_extensions st)) then Inl (Rejected_artifact ''extension'')
              else case py_len content of
                None \<Rightarrow> Inl Artifact_crash
              | Some n \<Rightarrow>
                  if int n > max 1 (as_max_bytes st) then Inl (Rejected_artifact ''size'')
                  else (case content of
                    J_bytes b \<Rightarrow>
                      if declared = [] \<or> declared \<noteq> sha b then Inl (Rejected_artifact ''hash'')
                      else if \<not> disk_ok then Inl (Rejected_artifact ''store'')
                      else
                        (let relative = path_join (path_join (py_str user) pid) safe_name in
                         Inr (\<lparr>ar_ref = relative, ar_filename = safe_name, ar_sha256 = sha b, ar_bytes = n,
                               ar_media = clip 120 (str_or repr [] (dict_get p ''media_type''))\<rparr>,
                              AList.update (norm_path (path_join (as_base st) relative)) b files))
                  | _ \<Rightarrow> Inl Artifact_crash)))"

definition path_for :: "artifact_settings \<Rightarrow> files \<Rightarrow> string \<Rightarrow> artifact_error + string" where
  "path_for st files ref =
     (let candidate = norm_path (path_join (as_base st) ref); root = as_base st @ ''/'' in
      if take (length root) candidate \<noteq> root then Inl (Rejected_artifact ''path'')
      else if map_of files candidate = None then Inl Artifact_missing
      else Inr candidate)"

definition read_artifact :: "artifact_settings \<Rightarrow> files \<Rightarrow> string \<Rightarrow> artifact_error + bytes" where
  "read_artifact st files ref =
     (case path_for st files ref of Inl e \<Rightarrow> Inl e | Inr path \<Rightarrow> Inr (the (map_of files path)))"

section \<open>Paths stay below the directory\<close>

definition clean_part :: "string \<Rightarrow> bool" where
  "clean_part p \<longleftrightarrow> p \<noteq> [] \<and> p \<noteq> ''.'' \<and> p \<noteq> ''..'' \<and> CHR ''/'' \<notin> set p"

text \<open>An absolute normal path other than the root, as \<open>os.path.abspath\<close> returns it.\<close>

definition absolute_dir :: "string \<Rightarrow> bool" where
  "absolute_dir path \<longleftrightarrow> (\<exists>parts. parts \<noteq> [] \<and> list_all clean_part parts \<and> path = CHR ''/'' # slash_join parts)"

lemma split_on_no: "c \<notin> set s \<Longrightarrow> split_on c s = [s]"
  by (induction s) auto

lemma split_on_append: "split_on c (s @ c # t) = split_on c s @ split_on c t"
proof (induction s)
  case (Cons x s)
  have "split_on c s \<noteq> []" by (cases s) (auto split: list.split)
  with Cons show ?case by (auto split: list.split)
qed simp

lemma split_parts: "\<forall>p \<in> set (split_on c s). c \<notin> set p"
  by (induction s) (auto split: list.splits if_splits)

lemma slash_join_append: "ps \<noteq> [] \<Longrightarrow> qs \<noteq> [] \<Longrightarrow> slash_join (ps @ qs) = slash_join ps @ CHR ''/'' # slash_join qs"
proof (induction ps rule: slash_join.induct)
  case (2 p)
  then show ?case by (cases qs) auto
qed auto

lemma split_slash_join:
  assumes "ps \<noteq> []" "\<forall>p \<in> set ps. CHR ''/'' \<notin> set p"
  shows "split_on (CHR ''/'') (slash_join ps) = ps"
  using assms by (induction ps rule: slash_join.induct) (auto simp: split_on_no split_on_append)

lemma slash_join_split: "slash_join (split_on (CHR ''/'') s) = s"
proof (induction s)
  case (Cons x s)
  have "split_on (CHR ''/'') s \<noteq> []" by (cases s) (auto split: list.split)
  then obtain p ps where ps: "split_on (CHR ''/'') s = p # ps" by (cases "split_on (CHR ''/'') s") auto
  with Cons show ?case by (cases ps) auto
qed simp

lemma norm_parts_clean:
  assumes "list_all clean_part acc" "\<forall>p \<in> set ps. CHR ''/'' \<notin> set p"
  shows "list_all clean_part (norm_parts acc ps)"
  using assms
proof (induction acc ps rule: norm_parts.induct)
  case (2 acc p ps)
  have "list_all clean_part (tl acc)" using "2.prems"(1) by (cases acc) auto
  moreover have "clean_part p" if "p \<noteq> []" "p \<noteq> ''.''" "p \<noteq> ''..''"
    using that "2.prems"(2) by (simp add: clean_part_def)
  ultimately show ?case using 2 by simp
qed (auto simp: list_all_iff)

lemma norm_parts_same: "list_all clean_part ps \<Longrightarrow> norm_parts acc ps = rev acc @ ps"
  by (induction ps arbitrary: acc) (auto simp: clean_part_def)

lemma clean_no_slash: "list_all clean_part ps \<Longrightarrow> \<forall>p \<in> set ps. CHR ''/'' \<notin> set p"
  by (auto simp: list_all_iff clean_part_def)

lemma slash_join_first:
  assumes "ps \<noteq> []" "list_all clean_part ps"
  obtains c cs where "slash_join ps = c # cs" "c \<noteq> CHR ''/''"
proof -
  obtain p qs where ps: "ps = p # qs" using assms(1) by (cases ps) auto
  then obtain c cs where p: "p = c # cs" "c \<noteq> CHR ''/''" using assms(2) by (cases p) (auto simp: clean_part_def)
  then show thesis using that ps by (cases qs) auto
qed

lemma norm_path_same:
  assumes "ps \<noteq> []" "list_all clean_part ps"
  shows "norm_path (CHR ''/'' # slash_join ps) = CHR ''/'' # slash_join ps"
proof -
  obtain c cs where first: "slash_join ps = c # cs" "c \<noteq> CHR ''/''" using slash_join_first [OF assms] .
  have "split_on (CHR ''/'') (CHR ''/'' # slash_join ps) = [] # ps"
    using split_slash_join [OF assms(1) clean_no_slash [OF assms(2)]] by simp
  then show ?thesis using first norm_parts_same [OF assms(2), of "[]"] by (simp add: norm_path_def)
qed

text \<open>C31. No reference reaches a file outside the artifact directory: the path of an accepted reference, whatever text it
  is, is the directory followed by at least one name, none of them empty, a dot or two dots.\<close>

theorem artifact_reads_confined:
  assumes "absolute_dir (as_base st)" "path_for st files ref = Inr path"
  shows "\<exists>parts. parts \<noteq> [] \<and> list_all clean_part parts \<and> path = as_base st @ CHR ''/'' # slash_join parts"
proof -
  obtain bs where bs: "bs \<noteq> []" "list_all clean_part bs" "as_base st = CHR ''/'' # slash_join bs"
    using assms(1) by (auto simp: absolute_dir_def)
  define parts where "parts = norm_parts [] (split_on (CHR ''/'') (path_join (as_base st) ref))"
  have path: "path = norm_path (path_join (as_base st) ref)" and pre: "take (length (as_base st @ ''/'')) path = as_base st @ ''/''"
    using assms(2) by (auto simp: path_for_def Let_def split: if_splits)
  have clean: "list_all clean_part parts" unfolding parts_def by (rule norm_parts_clean) (simp_all add: split_parts)
  obtain rest where rest: "path = as_base st @ CHR ''/'' # rest"
    using pre append_take_drop_id [of "length (as_base st @ ''/'')" path] by (metis append.assoc append_Cons append_Nil)
  obtain c cs where first: "slash_join bs = c # cs" "c \<noteq> CHR ''/''" using slash_join_first [OF bs(1,2)] .
  have "path = ''//'' @ slash_join parts \<or> path = ''/'' @ slash_join parts" by (simp add: path norm_path_def parts_def)
  then have join: "slash_join parts = slash_join bs @ CHR ''/'' # rest" using rest bs(3) first by auto
  then have ne: "parts \<noteq> []" by auto
  have "parts = split_on (CHR ''/'') (slash_join parts)"
    by (rule split_slash_join [OF ne clean_no_slash [OF clean], symmetric])
  also have "\<dots> = bs @ split_on (CHR ''/'') rest"
    unfolding join split_on_append by (simp add: split_slash_join [OF bs(1) clean_no_slash [OF bs(2)]])
  finally have "list_all clean_part (split_on (CHR ''/'') rest)" using clean by (metis list_all_append)
  moreover have "split_on (CHR ''/'') rest \<noteq> []" by (cases rest) (auto split: list.split)
  ultimately show ?thesis using rest slash_join_split [of rest] by metis
qed

definition demo_artifacts :: artifact_settings where
  "demo_artifacts = \<lparr>as_base = ''/data/mcp'', as_extensions = '' .PDF, docx'', as_max_bytes = 10\<rparr>"

lemma demo_artifacts_absolute: "absolute_dir (as_base demo_artifacts)"
proof -
  have "[''data'', ''mcp''] \<noteq> [] \<and> list_all clean_part [''data'', ''mcp''] \<and> as_base demo_artifacts = CHR ''/'' # slash_join [''data'', ''mcp'']"
    by code_simp
  then show ?thesis unfolding absolute_dir_def by blast
qed

theorem artifact_reads_confined_witness:
  "path_for demo_artifacts [(''/data/mcp/7/p/a.pdf'', [1]), (''/data/key'', [2])] ''7/x/../p/./a.pdf'' = Inr ''/data/mcp/7/p/a.pdf''
   \<and> path_for demo_artifacts [(''/data/mcp/7/p/a.pdf'', [1]), (''/data/key'', [2])] ''../key'' = Inl (Rejected_artifact ''path'')
   \<and> (\<exists>parts. list_all clean_part parts \<and> ''/data/mcp/7/p/a.pdf'' = as_base demo_artifacts @ CHR ''/'' # slash_join parts)"
proof (intro conjI)
  show found: "path_for demo_artifacts [(''/data/mcp/7/p/a.pdf'', [1]), (''/data/key'', [2])] ''7/x/../p/./a.pdf'' = Inr ''/data/mcp/7/p/a.pdf''"
    by code_simp
  from artifact_reads_confined [OF demo_artifacts_absolute found]
  show "\<exists>parts. list_all clean_part parts \<and> ''/data/mcp/7/p/a.pdf'' = as_base demo_artifacts @ CHR ''/'' # slash_join parts"
    by blast
qed code_simp

section \<open>What is stored is read back\<close>

lemma sub_unsafe_safe: "list_all safe_char (sub_unsafe b s)"
  by (induction b s rule: sub_unsafe.induct) (auto simp: safe_char_def)

lemma strip_chars_ends:
  "set (strip_chars cs s) \<subseteq> set s" "strip_chars cs s \<noteq> [] \<Longrightarrow> hd (strip_chars cs s) \<notin> cs"
proof -
  define u where "u = dropWhile (\<lambda>c. c \<in> cs) s"
  have strip: "strip_chars cs s = rev (dropWhile (\<lambda>c. c \<in> cs) (rev u))" by (simp add: strip_chars_def u_def)
  show "set (strip_chars cs s) \<subseteq> set s"
    unfolding strip u_def by (auto dest!: set_dropWhileD)
  assume ne: "strip_chars cs s \<noteq> []"
  then have "dropWhile (\<lambda>c. c \<in> cs) (rev u) \<noteq> []" by (simp add: strip)
  then have u: "u \<noteq> []" and "last (dropWhile (\<lambda>c. c \<in> cs) (rev u)) = last (rev u)"
    by (auto, metis takeWhile_dropWhile_id last_appendR)
  then have "hd (strip_chars cs s) = hd u" by (simp add: strip hd_rev last_rev)
  with u show "hd (strip_chars cs s) \<notin> cs" using hd_dropWhile [of "\<lambda>c. c \<in> cs" s] by (simp add: u_def)
qed

lemma sanitized_clean: "clean_part (sanitize_filename f)"
proof -
  obtain t where san: "sanitize_filename f =
      (let base = strip_chars {CHR ''.'', CHR ''_''} (sub_unsafe False t) in clip 120 (if base = [] then ''artifact'' else base))"
    by (simp add: sanitize_filename_def Let_def)
  define base where "base = strip_chars {CHR ''.'', CHR ''_''} (sub_unsafe False t)"
  define name where "name = (if base = [] then ''artifact'' else base)"
  have "list_all safe_char base"
    using strip_chars_ends(1) [of "{CHR ''.'', CHR ''_''}" "sub_unsafe False t"] sub_unsafe_safe [of False t]
    by (auto simp: base_def list_all_iff)
  moreover have "\<not> safe_char (CHR ''/'')" by code_simp
  ultimately have slash: "CHR ''/'' \<notin> set name" by (auto simp: name_def list_all_iff)
  have first: "name \<noteq> []" "hd name \<noteq> CHR ''.''"
    using strip_chars_ends(2) [of "{CHR ''.'', CHR ''_''}" "sub_unsafe False t"] by (auto simp: name_def base_def)
  have eq: "sanitize_filename f = take 120 name" by (simp add: san base_def [symmetric] name_def clip_def)
  have "CHR ''/'' \<notin> set (sanitize_filename f)" using slash in_set_takeD unfolding eq by fast
  moreover have "sanitize_filename f \<noteq> []" "hd (sanitize_filename f) \<noteq> CHR ''.''" using first by (simp_all add: eq)
  ultimately show ?thesis by (auto simp: clean_part_def)
qed

lemma py_str_clean: "clean_part (py_str i)"
proof -
  have "\<not> number_char (CHR ''/'')" "\<not> number_char (CHR ''.'')" by code_simp+
  then have "CHR ''/'' \<notin> set (py_str i)" "CHR ''.'' \<notin> set (py_str i)"
    using py_str_number(1) [of i] by (auto simp: list_all_iff)
  with py_str_number(2) [of i] show ?thesis by (auto simp: clean_part_def)
qed

lemma path_join_clean:
  assumes "ps \<noteq> []" "list_all clean_part ps" "list_all clean_part qs" "qs \<noteq> []"
  shows "path_join (slash_join ps) (slash_join qs) = slash_join (ps @ qs)"
    and "path_join (CHR ''/'' # slash_join ps) (slash_join qs) = CHR ''/'' # slash_join (ps @ qs)"
proof -
  obtain c cs where first: "slash_join qs = c # cs" "c \<noteq> CHR ''/''" using slash_join_first [OF assms(4,3)] .
  have ne: "slash_join ps \<noteq> []" by (rule slash_join_first [OF assms(1,2)]) simp
  have "last (slash_join ps) \<noteq> CHR ''/''"
    using assms(1,2)
  proof (induction ps rule: slash_join.induct)
    case (2 p)
    then show ?case by (auto simp: clean_part_def dest: last_in_set)
  next
    case (3 p q qs)
    moreover have "slash_join (q # qs) \<noteq> []" by (rule slash_join_first [of "q # qs"]) (use "3.prems" in simp_all)
    ultimately show ?case by auto
  qed simp
  then show "path_join (slash_join ps) (slash_join qs) = slash_join (ps @ qs)"
    "path_join (CHR ''/'' # slash_join ps) (slash_join qs) = CHR ''/'' # slash_join (ps @ qs)"
    using first ne by (simp_all add: path_join_def slash_join_append [OF assms(1,4)])
qed

text \<open>C32. An accepted artifact has an allowed extension, is not empty and not larger than the limit, and its content has
  the declared hash; reading its reference returns exactly that content.  It is stored below the directory of its user
  and proposal under a name without separators, and no other file changes.\<close>

theorem saved_artifact_read_back:
  assumes "absolute_dir (as_base st)" "clean_part pid"
    and "save_artifact st sha repr disk_ok user pid p files = Inr (a, files')"
    and "path = as_base st @ CHR ''/'' # slash_join [py_str user, pid, ar_filename a]"
  shows "(\<exists>b. read_artifact st files' (ar_ref a) = Inr b \<and> b \<noteq> [] \<and> int (length b) \<le> max 1 (as_max_bytes st)
      \<and> sha b = ar_sha256 a \<and> py_lower (py_strip (str_or repr [] (dict_get p ''sha256''))) = sha b \<and> ar_bytes a = length b
      \<and> extension_of (ar_filename a) \<in> set (allowed_extensions (as_extensions st))
      \<and> files' = AList.update path b files)
    \<and> clean_part (ar_filename a)"
proof -
  obtain bs where bs: "bs \<noteq> []" "list_all clean_part bs" "as_base st = CHR ''/'' # slash_join bs"
    using assms(1) by (auto simp: absolute_dir_def)
  define name where "name = sanitize_filename (str_or repr [] (dict_get p ''filename''))"
  obtain b where content: "payload_content repr p = Inr (J_bytes b)" and b: "b \<noteq> []" "int (length b) \<le> max 1 (as_max_bytes st)"
    "extension_of name \<in> set (allowed_extensions (as_extensions st))"
    "py_lower (py_strip (str_or repr [] (dict_get p ''sha256''))) = sha b"
    and a: "ar_ref a = path_join (path_join (py_str user) pid) name" "ar_filename a = name" "ar_sha256 a = sha b" "ar_bytes a = length b"
    and files': "files' = AList.update (norm_path (path_join (as_base st) (ar_ref a))) b files"
    using assms(3)
    by (auto simp: save_artifact_def name_def Let_def split: sum.splits if_splits option.splits json.splits)
  have clean: "clean_part name" "clean_part (py_str user)" by (simp_all add: name_def sanitized_clean py_str_clean)
  let ?rel = "[py_str user, pid, name]"
  have ref: "ar_ref a = slash_join ?rel"
    using path_join_clean(1) [of "[py_str user]" "[pid]"] path_join_clean(1) [of "[py_str user, pid]" "[name]"] clean assms(2)
    by (simp add: a(1))
  have "norm_path (path_join (as_base st) (ar_ref a)) = CHR ''/'' # slash_join (bs @ ?rel)"
    using path_join_clean(2) [OF bs(1,2), of ?rel] norm_path_same [of "bs @ ?rel"] bs clean assms(2) by (simp add: ref)
  also have join: "CHR ''/'' # slash_join (bs @ ?rel) = path"
    using slash_join_append [OF bs(1), of ?rel] bs(3) assms(4) a(2) by simp
  finally have target: "norm_path (path_join (as_base st) (ar_ref a)) = path" .
  have "take (length (as_base st @ ''/'')) path = as_base st @ ''/''" by (simp add: assms(4))
  then have "read_artifact st files' (ar_ref a) = Inr b"
    by (simp add: read_artifact_def path_for_def target files' update_conv Let_def)
  with b a clean(1) files' target show ?thesis by auto
qed

theorem saved_artifact_read_back_witness:
  "(case save_artifact demo_artifacts (\<lambda>b. ''abc'') (\<lambda>_. []) True 7 ''p1''
       [(''filename'', J_text ''../../etc/my file.PDF'' None), (''content_base64'', J_text ''YWJj'' None), (''sha256'', J_text '' ABC '' None)] [] of
     Inl _ \<Rightarrow> False
   | Inr (a, files) \<Rightarrow> ar_filename a = ''my_file.PDF'' \<and> ar_ref a = ''7/p1/my_file.PDF'' \<and> read_artifact demo_artifacts files (ar_ref a) = Inr [97, 98, 99])"
proof -
  let ?p = "[(''filename'', J_text ''../../etc/my file.PDF'' None), (''content_base64'', J_text ''YWJj'' None), (''sha256'', J_text '' ABC '' None)]"
  let ?a = "\<lparr>ar_ref = ''7/p1/my_file.PDF'', ar_filename = ''my_file.PDF'', ar_sha256 = ''abc'', ar_bytes = 3, ar_media = []\<rparr>"
  let ?files = "[(''/data/mcp/7/p1/my_file.PDF'', [97, 98, 99 :: nat])]"
  have saved: "save_artifact demo_artifacts (\<lambda>b. ''abc'') (\<lambda>_. []) True 7 ''p1'' ?p [] = Inr (?a, ?files)" by code_simp
  have "clean_part ''p1''" by code_simp
  from saved_artifact_read_back [OF demo_artifacts_absolute this saved refl]
  obtain b where b: "read_artifact demo_artifacts ?files (ar_ref ?a) = Inr b"
    and files: "?files = AList.update (as_base demo_artifacts @ CHR ''/'' # slash_join [py_str 7, ''p1'', ar_filename ?a]) b []" by blast
  from files have "b = [97, 98, 99]" by simp
  with saved b show ?thesis by simp
qed

end
