(* ===== verification/Mcp_Executor.thy ===== *)
theory Mcp_Executor
  imports Mcp_Service Mcp_Artifacts
begin

text \<open>
  The guarded calls of external tools: \<open>MCPToolExecutor\<close> (\<open>agents/mcp/executor.py\<close>), in a turn (\<open>call\<close>, \<open>propose\<close>) and in
  the worker that executes confirmed writes (\<open>execute_proposal\<close>, \<open>_process_mcp_write_proposals\<close> of \<open>workers/main.py\<close>).

  What the outside answers is an argument: the outcome of a tool call behind the governor, cancellation at each
  checkpoint, the department of a user, and the state of the registry at the moment it is read (\<open>None\<close> where the read
  fails).  The worker's own reads and writes of the databases are
  taken to succeed.  Calls that reach an external server are kept in a list.  Events, metrics and audit records are left out;
  diagnostics are reduced to their status and error.
\<close>

section \<open>Settings and outcomes\<close>

record executor_settings =
  ex_plugins :: plugin_settings
  ex_calls_per_turn :: int
  ex_max_argument_chars :: int
  ex_max_result_chars :: int
  ex_max_result_bytes :: int
  ex_confirm_ttl :: int
  ex_max_attempts :: int
  ex_artifacts :: artifact_settings

datatype call_outcome = Returned tool_result | Governor_rejected | Call_timeout | Call_failed string

section \<open>Results of read tools\<close>

text \<open>Result texts are lists of code points.\<close>

type_synonym code_text = "nat list"

definition stringify_result :: "(json \<Rightarrow> code_text) \<Rightarrow> tool_result \<Rightarrow> code_text" where
  "stringify_result dumps result =
     (let content = (case result of Content_and_artifact c a \<Rightarrow> c | Plain_result v \<Rightarrow> v) in
      case content of J_text s p \<Rightarrow> map of_char s | v \<Rightarrow> dumps v)"

definition utf8_size :: "nat \<Rightarrow> nat" where
  "utf8_size c = (if c < 0x80 then 1 else if c < 0x800 then 2 else if c < 0x10000 then 3 else 4)"

definition utf8_len :: "code_text \<Rightarrow> nat" where
  "utf8_len text = sum_list (map utf8_size text)"

text \<open>What \<open>encoded[:n].decode("utf-8", errors="ignore")\<close> keeps: the characters that fit completely.\<close>

fun utf8_prefix :: "nat \<Rightarrow> code_text \<Rightarrow> code_text" where
  "utf8_prefix n [] = []"
| "utf8_prefix n (c # cs) = (if utf8_size c \<le> n then c # utf8_prefix (n - utf8_size c) cs else [])"

definition TRUNCATED :: code_text where
  "TRUNCATED = [0x2026, 0x5B, 0x5DF2, 0x622A, 0x65AD, 0x5D]"

definition truncate_result :: "executor_settings \<Rightarrow> code_text \<Rightarrow> code_text \<times> bool \<times> nat" where
  "truncate_result st text =
     (let max_chars = nat (max 1 (ex_max_result_chars st)); max_bytes = nat (max 1 (ex_max_result_bytes st));
          text1 = (if length text > max_chars then take max_chars text else text);
          text2 = (if utf8_len text1 > max_bytes then utf8_prefix max_bytes text1 else text1);
          truncated = (length text > max_chars \<or> utf8_len text1 > max_bytes);
          text3 = (if truncated then text2 @ TRUNCATED else text2)
      in (text3, truncated, utf8_len text3))"

section \<open>A turn\<close>

record turn =
  tn_calls :: nat
  tn_diagnostics :: "(string \<times> string \<times> string \<times> string) list"
  tn_external :: "(string \<times> string) list"
  tn_proposed :: "string list"

definition reserve_mcp_call :: "int \<Rightarrow> turn \<Rightarrow> bool \<times> turn" where
  "reserve_mcp_call limit t =
     (if limit > 0 \<and> int (tn_calls t) \<ge> limit then (False, t) else (True, t\<lparr>tn_calls := tn_calls t + 1\<rparr>))"

text \<open>Who the turn runs for.\<close>

record caller =
  cl_user :: "int option"
  cl_department :: "department option"

definition policy_rejection ::
  "executor_settings \<Rightarrow> vault \<Rightarrow> caller \<Rightarrow> registry option \<Rightarrow> tool_binding \<Rightarrow> string option" where
  "policy_rejection st va cl store b =
     (if \<not> fst (mcp_prerequisites_met (ps_policy (ex_plugins st))) then Some ''policy''
      else case (cl_user cl, store) of
        (Some user, Some reg) \<Rightarrow>
          (case get_row (ms_slug (tb_server b)) reg of
             None \<Rightarrow> Some ''policy''
           | Some r \<Rightarrow>
               if \<not> sv_enabled r then Some ''policy''
               else if \<not> department_allows (cl_department cl) (policy_server va r) then Some ''policy''
               else if \<not> row_credentials_ok va r then Some ''policy''
               else if tb_tool b \<in> set (sv_disabled r) then Some ''policy''
               else if ms_slug (tb_server b) \<notin> list_subscribed_slugs user reg then Some ''policy''
               else None)
      | _ \<Rightarrow> Some ''policy'')"

definition write_rejection :: "executor_settings \<Rightarrow> caller \<Rightarrow> registry option \<Rightarrow> tool_binding \<Rightarrow> string option" where
  "write_rejection st cl store b =
     (if \<not> st_write_enabled (ps_policy (ex_plugins st)) then Some ''write_disabled''
      else case store of
        None \<Rightarrow> Some ''policy''
      | Some reg \<Rightarrow>
          (case get_row (ms_slug (tb_server b)) reg of
             None \<Rightarrow> Some ''policy''
           | Some r \<Rightarrow>
               if tb_tool b \<notin> set (sv_write r) then Some ''not_allowed_write''
               else case cl_user cl of
                 None \<Rightarrow> Some ''policy''
               | Some user \<Rightarrow>
                   (case get_subscription user (sv_slug r) reg of
                      None \<Rightarrow> Some ''not_allowed_write''
                    | Some s \<Rightarrow> if su_write s then None else Some ''not_allowed_write'')))"

text \<open>The answer to the model: the result of a tool, a proposal, the code of a failure, or the turn is cancelled.\<close>

datatype turn_answer = Tool_text code_text | Proposal_created string | Tool_error string | Turn_cancelled

definition finish_call :: "tool_binding \<Rightarrow> string \<Rightarrow> string \<Rightarrow> code_text \<Rightarrow> bool \<Rightarrow> turn \<Rightarrow> turn_answer \<times> turn" where
  "finish_call b status failure result cancelled t =
     (let t' = t\<lparr>tn_diagnostics := tn_diagnostics t @ [(ms_slug (tb_server b), tb_tool b, status, failure)]\<rparr> in
      (if cancelled then Turn_cancelled else if status = ''ok'' then Tool_text result else Tool_error failure, t'))"

text \<open>The cancellation checkpoints of a call: at the start, after the tool returned, and at the end.\<close>

record checkpoints =
  cp_start :: bool
  cp_after :: bool
  cp_end :: bool

definition call_tool ::
  "executor_settings \<Rightarrow> vault \<Rightarrow> (json \<Rightarrow> code_text) \<Rightarrow> caller \<Rightarrow> registry option \<Rightarrow> checkpoints \<Rightarrow> call_outcome \<Rightarrow> nat
     \<Rightarrow> tool_binding \<Rightarrow> turn \<Rightarrow> turn_answer \<times> turn" where
  "call_tool st va dumps cl store cp outcome argument_chars b t =
     (if cp_start cp then (Turn_cancelled, t)
      else case policy_rejection st va cl store b of
        Some reason \<Rightarrow> finish_call b ''rejected'' reason [] (cp_end cp) t
      | None \<Rightarrow>
          (case reserve_mcp_call (ex_calls_per_turn st) t of
             (False, t1) \<Rightarrow> finish_call b ''rejected'' ''quota'' [] (cp_end cp) t1
           | (True, t1) \<Rightarrow>
               if int argument_chars > ex_max_argument_chars st then finish_call b ''rejected'' ''invalid_argument'' [] (cp_end cp) t1
               else
                 (let called = t1\<lparr>tn_external := tn_external t1 @ [(ms_slug (tb_server b), tb_tool b)]\<rparr> in
                  case outcome of
                    Governor_rejected \<Rightarrow> finish_call b ''rejected'' ''quota'' [] (cp_end cp) t1
                  | Call_timeout \<Rightarrow> finish_call b ''timeout'' ''timeout'' [] (cp_end cp) called
                  | Call_failed kind \<Rightarrow>
                      finish_call b (if kind = ''timeout'' then ''timeout'' else ''failed'') kind [] (cp_end cp) called
                  | Returned raw \<Rightarrow>
                      if cp_after cp then (Turn_cancelled, called)
                      else finish_call b ''ok'' [] (fst (truncate_result st (stringify_result dumps raw))) (cp_end cp) called)))"

definition propose ::
  "executor_settings \<Rightarrow> vault \<Rightarrow> caller \<Rightarrow> registry option \<Rightarrow> checkpoints \<Rightarrow> nat \<Rightarrow> time \<Rightarrow> string \<Rightarrow> string \<Rightarrow> string option \<Rightarrow> string
     \<Rightarrow> tool_binding \<Rightarrow> turn \<Rightarrow> proposals \<Rightarrow> turn_answer \<times> turn \<times> proposals" where
  "propose st va cl store cp argument_chars now pid digest ciphertext hint b t rows =
     (let rejected = (\<lambda>reason t'. case finish_call b ''rejected'' reason [] (cp_end cp) t' of (out, t'') \<Rightarrow> (out, t'', rows)) in
      if cp_start cp then (Turn_cancelled, t, rows)
      else case (case policy_rejection st va cl store b of Some r \<Rightarrow> Some r | None \<Rightarrow> write_rejection st cl store b) of
        Some reason \<Rightarrow> rejected reason t
      | None \<Rightarrow>
          (case reserve_mcp_call (ex_calls_per_turn st) t of
             (False, t1) \<Rightarrow> rejected ''quota'' t1
           | (True, t1) \<Rightarrow>
               if int argument_chars > ex_max_argument_chars st then rejected ''invalid_argument'' t1
               else
                 (case (case ciphertext of
                          None \<Rightarrow> None
                        | Some c \<Rightarrow> wp_create now pid (case cl_user cl of None \<Rightarrow> 0 | Some u \<Rightarrow> u) (ms_slug (tb_server b)) (tb_tool b)
                                      digest c hint (ex_confirm_ttl st) rows) of
                    None \<Rightarrow> rejected ''store_error'' t1
                  | Some rows' \<Rightarrow>
                      (if cp_end cp then Turn_cancelled else Proposal_created pid,
                       t1\<lparr>tn_diagnostics := tn_diagnostics t1 @ [(ms_slug (tb_server b), tb_tool b, ''proposed'', [])],
                          tn_proposed := tn_proposed t1 @ [pid]\<rparr>, rows'))))"

section \<open>Execution of confirmed writes\<close>

text \<open>What the worker meets while it executes a proposal.\<close>

record exec_env =
  ev_now :: time
  ev_registry :: registry
  ev_department :: "int \<Rightarrow> department option"
  ev_lookup :: lookup
  ev_remote :: remote
  ev_arguments :: "string \<Rightarrow> json option"
  ev_call :: "string \<Rightarrow> json \<Rightarrow> call_outcome"
  ev_sha :: "bytes \<Rightarrow> string"
  ev_repr :: "json \<Rightarrow> string"
  ev_disk :: bool

text \<open>The worker's state: the proposals, its tool cache, the artifact files, and the calls that went out, each with
  the proposal and the server row it was made for.\<close>

record exec_world =
  xw_rows :: proposals
  xw_cache :: tool_cache
  xw_files :: files
  xw_calls :: "(write_proposal \<times> server_row) list"

definition decrypt_arguments :: "(string \<Rightarrow> json option) \<Rightarrow> write_proposal \<Rightarrow> json option" where
  "decrypt_arguments open_json p =
     (if py_strip (wp_ciphertext p) = [] then Some (J_obj [])
      else case open_json (py_strip (wp_ciphertext p)) of
        None \<Rightarrow> None
      | Some J_null \<Rightarrow> Some (J_obj [])
      | Some (J_obj d) \<Rightarrow> Some (J_obj d)
      | Some _ \<Rightarrow> None)"

definition execution_rejection :: "executor_settings \<Rightarrow> vault \<Rightarrow> exec_env \<Rightarrow> server_row option \<Rightarrow> write_proposal \<Rightarrow> string option" where
  "execution_rejection st va ev record p =
     (if \<not> st_write_enabled (ps_policy (ex_plugins st)) then Some ''write_disabled''
      else case record of
        None \<Rightarrow> Some ''server_disabled''
      | Some r \<Rightarrow>
          if \<not> sv_enabled r then Some ''server_disabled''
          else if \<not> row_credentials_ok va r then Some ''credentials''
          else if wp_tool p \<notin> set (sv_write r) then Some ''not_allowed_write''
          else case get_subscription (wp_user p) (wp_slug p) (ev_registry ev) of
            None \<Rightarrow> Some ''not_allowed_write''
          | Some s \<Rightarrow>
              if \<not> su_write s then Some ''not_allowed_write''
              else case ev_department ev (wp_user p) of
                None \<Rightarrow> None
              | Some d \<Rightarrow> if department_allows (Some d) (policy_server va r) then None else Some ''department'')"

datatype exec_answer =
    Finished "proposal_status option" string
  | Stale_completion
  | Artifact_stored artifact_ref
  | Crashed

definition finish_proposal :: "executor_settings \<Rightarrow> exec_env \<Rightarrow> write_proposal \<Rightarrow> string \<Rightarrow> bool \<Rightarrow> exec_world \<Rightarrow> exec_answer \<times> exec_world" where
  "finish_proposal st ev p error_code retryable w =
     (case wp_fail (ex_max_attempts st) (ev_now ev) (wp_id p) (wp_key p) error_code retryable (xw_rows w) of
        (status, rows) \<Rightarrow> (Finished status error_code, w\<lparr>xw_rows := rows\<rparr>))"

definition RETRYABLE :: "string list" where
  "RETRYABLE = [''connect'', ''timeout'', ''protocol'', ''tool_error'']"

text \<open>Everything after the tool answered: the artifact is extracted and stored, and the proposal completed.\<close>

definition store_result ::
  "executor_settings \<Rightarrow> exec_env \<Rightarrow> write_proposal \<Rightarrow> tool_result \<Rightarrow> exec_world \<Rightarrow> exec_answer \<times> exec_world" where
  "store_result st ev p raw w =
     (case extract_artifact_payload (ev_repr ev) raw of
        Inl _ \<Rightarrow> (Crashed, w)
      | Inr None \<Rightarrow> finish_proposal st ev p ''artifact_missing'' False w
      | Inr (Some payload) \<Rightarrow>
          (case save_artifact (ex_artifacts st) (ev_sha ev) (ev_repr ev) (ev_disk ev) (wp_user p) (wp_id p) payload (xw_files w) of
             Inl (Rejected_artifact reason) \<Rightarrow> finish_proposal st ev p (''artifact_'' @ reason) False w
           | Inl _ \<Rightarrow> (Crashed, w)
           | Inr (a, files) \<Rightarrow>
               (case wp_complete (ev_now ev) (wp_id p) (wp_key p) (ar_ref a) (ar_sha256 a) (xw_rows w) of
                  (completed, rows) \<Rightarrow>
                    (if completed then Artifact_stored a else Stale_completion, w\<lparr>xw_rows := rows, xw_files := files\<rparr>))))"

definition execute_proposal :: "executor_settings \<Rightarrow> vault \<Rightarrow> exec_env \<Rightarrow> write_proposal \<Rightarrow> exec_world \<Rightarrow> exec_answer \<times> exec_world" where
  "execute_proposal st va ev p w =
     (let record = get_row (wp_slug p) (ev_registry ev) in
      case execution_rejection st va ev record p of
        Some failure \<Rightarrow> finish_proposal st ev p failure False w
      | None \<Rightarrow>
          (case decrypt_arguments (ev_arguments ev) p of
             None \<Rightarrow> finish_proposal st ev p ''arguments_unavailable'' False w
           | Some arguments \<Rightarrow>
               (case discover_server_tools (ex_plugins st) va (ev_lookup ev) (ev_remote ev) False (the record) (xw_cache w) of
                  (Inl kind, cache) \<Rightarrow> finish_proposal st ev p ''protocol'' True (w\<lparr>xw_cache := cache\<rparr>)
                | (Inr found, cache) \<Rightarrow>
                    (let w1 = w\<lparr>xw_cache := cache\<rparr>; called = w1\<lparr>xw_calls := xw_calls w1 @ [(p, the record)]\<rparr> in
                     case fetchone (\<lambda>t. py_strip (rt_name t) = wp_tool p) (ds_tools found) of
                       None \<Rightarrow> finish_proposal st ev p ''tool_missing'' False w1
                     | Some t \<Rightarrow>
                         if rt_read_only t then finish_proposal st ev p ''tool_missing'' False w1
                         else case ev_call ev (wp_tool p) arguments of
                           Governor_rejected \<Rightarrow> finish_proposal st ev p ''quota'' True w1
                         | Call_timeout \<Rightarrow> finish_proposal st ev p ''timeout'' True called
                         | Call_failed kind \<Rightarrow> finish_proposal st ev p kind (kind \<in> set RETRYABLE) called
                         | Returned raw \<Rightarrow> store_result st ev p raw called))))"

text \<open>The loop of the worker; a crash counts as a retryable failure.\<close>

definition run_proposal :: "executor_settings \<Rightarrow> vault \<Rightarrow> exec_env \<Rightarrow> write_proposal \<Rightarrow> exec_world \<Rightarrow> exec_answer \<times> exec_world" where
  "run_proposal st va ev p w =
     (case execute_proposal st va ev p w of
        (Crashed, w') \<Rightarrow> finish_proposal st ev p ''worker_error'' True w'
      | out \<Rightarrow> out)"

fun run_proposals :: "executor_settings \<Rightarrow> vault \<Rightarrow> (write_proposal \<Rightarrow> exec_env) \<Rightarrow> write_proposal list \<Rightarrow> exec_world \<Rightarrow> exec_world" where
  "run_proposals st va env [] w = w"
| "run_proposals st va env (p # ps) w = run_proposals st va env ps (snd (run_proposal st va (env p) p w))"

definition process_write_proposals ::
  "executor_settings \<Rightarrow> vault \<Rightarrow> time \<Rightarrow> (string \<Rightarrow> string) \<Rightarrow> int \<Rightarrow> (write_proposal \<Rightarrow> exec_env) \<Rightarrow> exec_world \<Rightarrow> bool \<times> exec_world" where
  "process_write_proposals st va now uuid limit env w =
     (if \<not> st_write_enabled (ps_policy (ex_plugins st)) then (False, w)
      else case wp_claim now uuid (max 1 limit) (snd (wp_expire_overdue now (xw_rows w))) of
        (claimed, rows) \<Rightarrow>
          if claimed = [] then (False, w\<lparr>xw_rows := rows\<rparr>)
          else (True, run_proposals st va env claimed (w\<lparr>xw_rows := rows\<rparr>)))"

definition read_write_artifact :: "artifact_settings \<Rightarrow> int \<Rightarrow> string \<Rightarrow> proposals \<Rightarrow> files \<Rightarrow> registry_error + bytes \<times> string" where
  "read_write_artifact st user pid rows files =
     (case wp_get user pid rows of
        None \<Rightarrow> Inl (Service_error 404)
      | Some p \<Rightarrow>
          if wp_status p \<noteq> Completed \<or> wp_ref p = [] then Inl (Service_error 409)
          else case read_artifact st files (wp_ref p) of
            Inl Artifact_missing \<Rightarrow> Inl (Service_error 404)
          | Inl _ \<Rightarrow> Inl (Service_error 409)
          | Inr content \<Rightarrow> Inr (content, after_last (CHR ''/'') (wp_ref p)))"

end
