(* ===== verification/Mcp_Registry_Properties.thy ===== *)
theory Mcp_Registry_Properties
  imports Mcp_Service
begin

text \<open>
  Properties of the registry of external tool servers: its tables stay well formed, a server is enabled only in the
  configuration a connection test reached, and what a turn is offered comes from such servers; and where the separate
  transactions of enabling, or credentials that cannot be decrypted, fall short of this.
\<close>

section \<open>Headers\<close>

definition clean_key :: "string \<Rightarrow> bool" where
  "clean_key k \<longleftrightarrow> k \<noteq> [] \<and> py_strip k = k"

definition headers_normal :: "headers \<Rightarrow> bool" where
  "headers_normal h \<longleftrightarrow> sorted (map fst h) \<and> distinct (map fst h) \<and> (\<forall>k \<in> fst ` set h. clean_key k)"

lemma update_new_key: "k \<notin> fst ` set al \<Longrightarrow> AList.update k v al = al @ [(k, v)]"
  by (induction al) auto

lemma normalize_loop_keys:
  assumes "distinct (map fst acc)" "\<forall>k \<in> fst ` set acc. clean_key k" "\<forall>(k, v) \<in> set raw. py_strip k \<noteq> []"
  shows "distinct (map fst (foldl (\<lambda>acc (k, v). AList.update (py_strip k) v acc) acc raw))
    \<and> (\<forall>k \<in> fst ` set (foldl (\<lambda>acc (k, v). AList.update (py_strip k) v acc) acc raw). clean_key k)"
  using assms
proof (induction raw arbitrary: acc)
  case (Cons e raw)
  obtain k v where e: "e = (k, v)" by fastforce
  have k: "clean_key (py_strip k)" using Cons.prems(3) e by (simp add: clean_key_def)
  have "distinct (map fst (AList.update (py_strip k) v acc))" using Cons.prems(1) by (simp add: distinct_update)
  moreover have "\<forall>x \<in> fst ` set (AList.update (py_strip k) v acc). clean_key x"
    using Cons.prems(2) k by (simp add: dom_update)
  moreover have "\<forall>(k, v) \<in> set raw. py_strip k \<noteq> []" using Cons.prems(3) by simp
  ultimately show ?case unfolding e foldl_Cons prod.case by (rule Cons.IH)
qed simp

lemma normalize_headers_normal: "headers_normal (normalize_headers raw)"
  using normalize_loop_keys [of "[]" "filter (\<lambda>(k, v). py_strip k \<noteq> []) raw"]
  by (auto simp: headers_normal_def normalize_headers_def distinct_map)

lemma normalize_loop_same:
  assumes "distinct (map fst (acc @ h))" "\<forall>k \<in> fst ` set h. clean_key k"
  shows "foldl (\<lambda>acc (k, v). AList.update (py_strip k) v acc) acc h = acc @ h"
  using assms
proof (induction h arbitrary: acc)
  case (Cons e h)
  obtain k v where e: "e = (k, v)" by fastforce
  have "AList.update (py_strip k) v acc = acc @ [e]" using Cons.prems e by (auto simp: clean_key_def intro: update_new_key)
  with Cons.IH [of "acc @ [e]"] Cons.prems e show ?case by simp
qed simp

lemma normalize_headers_same: "headers_normal h \<Longrightarrow> normalize_headers h = h"
proof -
  assume h: "headers_normal h"
  then have "filter (\<lambda>(k, v). py_strip k \<noteq> []) h = h" by (auto simp: headers_normal_def clean_key_def intro!: filter_True)
  with h normalize_loop_same [of "[]" h] show ?thesis
    by (auto simp: normalize_headers_def headers_normal_def intro: sort_key_id_if_sorted)
qed

text \<open>Fernet under one key: what was encrypted is a non-empty text that decrypts to the same headers.\<close>

definition vault_ok :: "vault \<Rightarrow> bool" where
  "vault_ok va \<longleftrightarrow>
     (\<forall>h c. headers_normal h \<longrightarrow> va_encrypt va h = Some c \<longrightarrow> py_strip c \<noteq> [] \<and> va_decrypt va (py_strip c) = Some h)"

lemma encrypt_then_decrypt:
  assumes "vault_ok va" "encrypt_headers va h = Some c"
  shows "decrypt_headers va c = Some (normalize_headers h)"
proof (cases "normalize_headers h = []")
  case True
  then show ?thesis using assms(2) by (simp add: encrypt_headers_def decrypt_headers_def py_strip_def)
next
  case False
  then have "va_key va \<noteq> []" "va_encrypt va (normalize_headers h) = Some c"
    using assms(2) by (auto simp: encrypt_headers_def Let_def split: if_splits)
  moreover have "headers_normal (normalize_headers h)" by (rule normalize_headers_normal)
  ultimately show ?thesis using assms(1) by (simp add: vault_ok_def decrypt_headers_def Let_def)
qed

section \<open>Histories\<close>

datatype registry_event =
    Create_server lookup string string raw_form
  | Update_server lookup string string string raw_patch
  | Delete_server string
  | Set_enabled string string string bool
  | Begin_test string
  | Finish_test lookup remote string nat
  | Toggle_tool string string string string
  | Set_write_tools string string string "string list"
  | Subscribe string int string bool "department option"
  | Set_write_consent string int string bool "department option"
  | Unsubscribe int string
  | Delete_user int

text \<open>Beside the tables: the tests under way, with the record each read, and the connections a test reached.\<close>

record registry_world =
  rw_registry :: registry
  rw_pending :: "(string \<times> server_row) list"
  rw_reached :: "connection set"

definition registry_start :: registry_world where
  "registry_start = \<lparr>rw_registry = \<lparr>rg_servers = [], rg_subscriptions = [], rg_next_id = 1\<rparr>, rw_pending = [], rw_reached = {}\<rparr>"

definition stored :: "registry_error + 'a \<times> registry \<Rightarrow> registry_world \<Rightarrow> registry_world" where
  "stored out w = (case out of Inl _ \<Rightarrow> w | Inr (_, reg) \<Rightarrow> w\<lparr>rw_registry := reg\<rparr>)"

text \<open>The connection discovery contacts for a record.\<close>

definition contacted :: "vault \<Rightarrow> server_row \<Rightarrow> connection" where
  "contacted va r = (row_connection va r)\<lparr>cn_url := py_strip (sv_url r)\<rparr>"

fun registry_step :: "vault \<Rightarrow> registry_world \<Rightarrow> plugin_settings \<times> registry_event \<Rightarrow> registry_world" where
  "registry_step va w (cfg, Create_server lookup now actor f) = stored (create_server cfg va lookup now actor f (rw_registry w)) w"
| "registry_step va w (cfg, Update_server lookup now actor slug p) = stored (update_server cfg va lookup now actor slug p (rw_registry w)) w"
| "registry_step va w (cfg, Delete_server slug) = stored (delete_server slug (rw_registry w)) w"
| "registry_step va w (cfg, Set_enabled now actor slug enabled) = stored (set_enabled cfg va now actor slug enabled (rw_registry w)) w"
| "registry_step va w (cfg, Begin_test slug) =
     (case begin_test cfg slug (rw_registry w) of
        Inl _ \<Rightarrow> w | Inr r \<Rightarrow> w\<lparr>rw_pending := rw_pending w @ [(slug, r)]\<rparr>)"
| "registry_step va w (cfg, Finish_test lookup remote now i) =
     (if i \<ge> length (rw_pending w) then w
      else case rw_pending w ! i of
        (slug, r) \<Rightarrow>
          (case discover_server_tools cfg va lookup remote True r [] of
             (outcome, _) \<Rightarrow>
               (stored (finish_test now slug r outcome (rw_registry w)) w)
                 \<lparr>rw_reached := rw_reached w \<union> (case outcome of Inl _ \<Rightarrow> {} | Inr _ \<Rightarrow> {contacted va r})\<rparr>))"
| "registry_step va w (cfg, Toggle_tool now actor slug tool) = stored (toggle_tool now actor slug tool (rw_registry w)) w"
| "registry_step va w (cfg, Set_write_tools now actor slug tools) = stored (set_write_tools now actor slug tools (rw_registry w)) w"
| "registry_step va w (cfg, Subscribe now user slug allow d) = stored (subscribe cfg va now user slug allow d (rw_registry w)) w"
| "registry_step va w (cfg, Set_write_consent now user slug allow d) =
     stored (set_write_consent cfg va now user slug allow d (rw_registry w)) w"
| "registry_step va w (cfg, Unsubscribe user slug) = stored (unsubscribe user slug (rw_registry w)) w"
| "registry_step va w (cfg, Delete_user user) = w\<lparr>rw_registry := snd (delete_user_subscriptions user (rw_registry w))\<rparr>"

section \<open>The invariant\<close>

definition ids_below :: "int \<Rightarrow> int list \<Rightarrow> bool" where
  "ids_below n is \<longleftrightarrow> (\<forall>i \<in> set is. i < n)"

definition registry_wf :: "registry \<Rightarrow> bool" where
  "registry_wf reg \<longleftrightarrow>
     distinct (map sv_slug (rg_servers reg)) \<and> distinct (map sv_id (rg_servers reg))
     \<and> ids_below (rg_next_id reg) (map sv_id (rg_servers reg))
     \<and> distinct (map (\<lambda>s. (su_user s, su_slug s)) (rg_subscriptions reg))
     \<and> su_slug ` set (rg_subscriptions reg) \<subseteq> sv_slug ` set (rg_servers reg)"

text \<open>A row whose fingerprint is that of the connection it decrypts to.\<close>

definition server_ok :: "vault \<Rightarrow> server_row \<Rightarrow> bool" where
  "server_ok va r \<longleftrightarrow> row_credentials_ok va r \<and> headers_normal (row_headers va r) \<and> py_strip (sv_url r) = sv_url r
     \<and> connection_fingerprint va (row_connection va r) = Some (sv_fingerprint r)"

definition reached_fingerprint :: "vault \<Rightarrow> connection set \<Rightarrow> string \<Rightarrow> bool" where
  "reached_fingerprint va reached fp \<longleftrightarrow> (\<exists>c \<in> reached. connection_fingerprint va c = Some fp)"

definition row_tested :: "vault \<Rightarrow> connection set \<Rightarrow> server_row \<Rightarrow> bool" where
  "row_tested va reached r \<longleftrightarrow> server_ok va r
     \<and> (sv_test_fingerprint r = [] \<or> reached_fingerprint va reached (sv_test_fingerprint r))
     \<and> (sv_enabled r \<longrightarrow> reached_fingerprint va reached (sv_fingerprint r))"

definition registry_inv :: "vault \<Rightarrow> connection set \<Rightarrow> registry \<Rightarrow> bool" where
  "registry_inv va reached reg \<longleftrightarrow> registry_wf reg \<and> (\<forall>r \<in> set (rg_servers reg). row_tested va reached r)"

lemmas server_row_defs = row_tested_def server_ok_def row_credentials_ok_def row_connection_def row_headers_def

lemma reached_mono: "reached_fingerprint va R fp \<Longrightarrow> R \<subseteq> R' \<Longrightarrow> reached_fingerprint va R' fp"
  by (auto simp: reached_fingerprint_def)

lemma registry_inv_mono: "registry_inv va R reg \<Longrightarrow> R \<subseteq> R' \<Longrightarrow> registry_inv va R' reg"
  using reached_mono by (fastforce simp: registry_inv_def row_tested_def)

lemma get_row_iff: "registry_wf reg \<Longrightarrow> get_row slug reg = Some r \<longleftrightarrow> r \<in> set (rg_servers reg) \<and> sv_slug r = slug"
  by (simp add: registry_wf_def get_row_def fetchone_key_iff)

lemma get_server_row: "get_server slug reg = Inr r \<longleftrightarrow> get_row (py_strip slug) reg = Some r"
  by (simp add: get_server_def split: option.split)

lemma registry_put_inv:
  assumes inv: "registry_inv va R reg"
    and g: "\<And>r. r \<in> set (rg_servers reg) \<Longrightarrow> sv_slug r = slug \<Longrightarrow> row_tested va R r
      \<Longrightarrow> sv_slug (g r) = slug \<and> sv_id (g r) = sv_id r \<and> row_tested va R (g r)"
  shows "registry_inv va R (put_row slug g reg)"
proof -
  have all: "\<forall>r \<in> set (rg_servers reg). row_tested va R r" using inv by (simp add: registry_inv_def)
  have same: "map sv_slug (update_where (\<lambda>r. sv_slug r = slug) g (rg_servers reg)) = map sv_slug (rg_servers reg)"
    "map sv_id (update_where (\<lambda>r. sv_slug r = slug) g (rg_servers reg)) = map sv_id (rg_servers reg)"
    using g all by (auto simp: update_where_def)
  have sets: "sv_slug ` set (update_where (\<lambda>r. sv_slug r = slug) g (rg_servers reg)) = sv_slug ` set (rg_servers reg)"
    by (metis same(1) set_map)

  have "\<forall>r \<in> set (update_where (\<lambda>r. sv_slug r = slug) g (rg_servers reg)). row_tested va R r"
    using g all by (auto simp: set_update_where)
  moreover have "registry_wf (put_row slug g reg)"
    using inv by (simp add: registry_inv_def registry_wf_def put_row_def same sets)
  ultimately show ?thesis by (simp add: registry_inv_def put_row_def)
qed

lemma registry_flags_inv:
  assumes "registry_inv va R reg" "update_flags now slug f reg = Inr (r', reg')"
    and "\<And>r. r \<in> set (rg_servers reg) \<Longrightarrow> sv_slug r = py_strip slug \<Longrightarrow> row_tested va R r
      \<Longrightarrow> sv_slug (f r) = sv_slug r \<and> sv_id (f r) = sv_id r \<and> row_tested va R (f r)"
  shows "registry_inv va R reg'"
proof -
  have reg': "reg' = put_row (py_strip slug) (\<lambda>r. (f r)\<lparr>sv_updated := now\<rparr>) reg"
    using assms(2) by (auto simp: update_flags_def Let_def split: option.splits)
  have "row_tested va R (r\<lparr>sv_updated := now\<rparr>) = row_tested va R r" for r by (simp add: server_row_defs)
  with assms(1,3) show ?thesis unfolding reg' by (intro registry_put_inv) auto
qed

section \<open>Every operation keeps it\<close>

lemma egress_stripped:
  assumes "egress cfg lookup url = Some u"
  shows "u = py_strip url" "py_strip u = u"
proof -
  show "u = py_strip url"
    using assms by (auto simp: egress_def validate_url_def Let_def split: if_splits option.splits)
  then show "py_strip u = u" by simp
qed

lemma registry_create_inv:
  assumes inv: "registry_inv va R reg" and vault: "vault_ok va" and url: "py_strip (fo_url f) = fo_url f"
    and out: "create_row va now f reg = Inr (r, reg')"
  shows "registry_inv va R reg'"
proof -
  define h where "h = normalize_headers (fo_headers f)"
  obtain cipher fp where enc: "encrypt_headers va h = Some cipher" "connection_fingerprint va (form_connection f h) = Some fp"
    using out by (auto simp: create_row_def h_def Let_def split: option.splits if_splits)
  have new: "py_strip (fo_slug f) \<notin> sv_slug ` set (rg_servers reg)"
    and reg': "reg' = reg\<lparr>rg_servers := rg_servers reg @ [r], rg_next_id := rg_next_id reg + 1\<rparr>"
    using out enc by (auto simp: create_row_def h_def Let_def split: option.splits if_splits)
  have r: "sv_id r = rg_next_id reg" "sv_slug r = py_strip (fo_slug f)" "sv_transport r = fo_transport f" "sv_url r = fo_url f"
    "sv_cipher r = cipher" "sv_timeout r = fo_timeout f" "sv_sse r = fo_sse f" "\<not> sv_enabled r" "sv_fingerprint r = fp"
    "sv_test_fingerprint r = []"
    using out enc new by (auto simp: create_row_def h_def Let_def split: option.splits if_splits)
  have normal: "headers_normal h" by (simp add: h_def normalize_headers_normal)
  have dec: "decrypt_headers va cipher = Some h"
    using encrypt_then_decrypt [OF vault enc(1)] normalize_headers_same [OF normal] by simp
  have "row_connection va r = form_connection f h"
    using r dec by (simp add: row_connection_def row_headers_def form_connection_def)
  then have "row_tested va R r"
    using r dec enc(2) normal url by (simp add: row_tested_def server_ok_def row_credentials_ok_def row_headers_def)
  moreover have "registry_wf reg'"
    using inv new r by (auto simp: registry_inv_def registry_wf_def ids_below_def reg')
  ultimately show ?thesis using inv by (simp add: registry_inv_def reg')
qed

lemma registry_update_inv:
  assumes inv: "registry_inv va R reg" and vault: "vault_ok va" and url: "\<And>u. pa_url p = Some u \<Longrightarrow> py_strip u = u"
    and out: "update_row va now slug p reg = Inr (r', reg')"
  shows "registry_inv va R reg'"
proof -
  obtain r where r: "get_row (py_strip slug) reg = Some r" using out by (auto simp: update_row_def Let_def split: option.splits)
  define c where "c = next_connection va p r"
  define h where "h = next_headers va (pa_headers p) r"
  obtain fp cipher where enc: "connection_fingerprint va c = Some fp" "encrypt_headers va h = Some cipher"
    and r': "r' = patched_row va now p cipher fp r" and reg': "reg' = put_row (py_strip slug) (\<lambda>_. r') reg"
    using out r by (auto simp: update_row_def c_def h_def Let_def split: option.splits)
  have wf: "registry_wf reg" and mem: "r \<in> set (rg_servers reg)" "sv_slug r = py_strip slug"
    using inv r by (auto simp: registry_inv_def get_row_iff)
  then have old: "row_tested va R r" using inv by (simp add: registry_inv_def)
  then have ok: "server_ok va r" by (simp add: row_tested_def)
  have normal: "headers_normal h"
    using ok by (cases "pa_headers p")
      (simp_all add: h_def next_headers_def server_ok_def normalize_headers_normal, simp add: headers_normal_def)
  have dec: "decrypt_headers va cipher = Some h"
    using encrypt_then_decrypt [OF vault enc(2)] normalize_headers_same [OF normal] by simp
  have fields: "sv_cipher r' = cipher" "sv_transport r' = cn_transport c" "sv_url r' = cn_url c" "sv_timeout r' = cn_timeout c"
    "sv_sse r' = cn_sse c" "sv_fingerprint r' = fp" "sv_slug r' = sv_slug r" "sv_id r' = sv_id r"
    "sv_enabled r' = (c = row_connection va r \<and> sv_enabled r)"
    "sv_test_fingerprint r' = (if c = row_connection va r then sv_test_fingerprint r else [])"
    by (simp_all add: r' patched_row_def c_def Let_def)
  have c: "cn_headers c = h" by (simp add: c_def h_def next_connection_def)
  have conn: "row_connection va r' = c"
    using c by (cases c) (simp add: row_connection_def row_headers_def fields dec)
  have "py_strip (sv_url r) = sv_url r" using ok by (simp add: server_ok_def)
  then have "py_strip (cn_url c) = cn_url c"
    using url by (auto simp: c_def next_connection_def or_old_def split: option.splits)
  then have "server_ok va r'"
    unfolding server_ok_def row_credentials_ok_def row_headers_def conn fields dec option.case using normal enc(1) by simp
  moreover have "fp = sv_fingerprint r" if "c = row_connection va r"
    using ok enc(1) that by (simp add: server_ok_def)
  ultimately have "row_tested va R r'"
    using old by (auto simp: row_tested_def fields)
  then have "sv_slug r' = py_strip slug \<and> sv_id r' = sv_id x \<and> row_tested va R r'"
    if "x \<in> set (rg_servers reg)" "sv_slug x = py_strip slug" for x
    using wf mem that fields(7,8) distinct_key_unique [of sv_slug "rg_servers reg" x r] by (simp add: registry_wf_def)
  then show ?thesis unfolding reg' by (intro registry_put_inv [OF inv])
qed

lemma registry_delete_inv:
  assumes "registry_inv va R reg"
  shows "registry_inv va R (snd (delete_row slug reg))"
proof -

  show ?thesis using assms
    by (auto simp: registry_inv_def registry_wf_def delete_row_def Let_def ids_below_def distinct_map_filter)
qed

lemma registry_subscriptions_inv:
  assumes "registry_inv va R reg" "distinct (map (\<lambda>s. (su_user s, su_slug s)) subs)" "su_slug ` set subs \<subseteq> sv_slug ` set (rg_servers reg)"
  shows "registry_inv va R (reg\<lparr>rg_subscriptions := subs\<rparr>)"
  using assms by (simp add: registry_inv_def registry_wf_def)

lemma registry_upsert_inv:
  assumes inv: "registry_inv va R reg" and out: "upsert_subscription now user slug allow reg = Inr (s, reg')"
  shows "registry_inv va R reg'"
proof -
  let ?mine = "\<lambda>s. su_user s = user \<and> su_slug s = py_strip slug"
  let ?f = "\<lambda>s. s\<lparr>su_write := allow, su_updated := now\<rparr>"
  have wf: "registry_wf reg" using inv by (simp add: registry_inv_def)
  have "get_row (py_strip slug) reg \<noteq> None"
    using out by (auto simp: upsert_subscription_def Let_def split: if_splits)
  then obtain r where "get_row (py_strip slug) reg = Some r" by blast
  then have "r \<in> set (rg_servers reg) \<and> sv_slug r = py_strip slug" by (simp only: get_row_iff [OF wf])
  then have slug: "py_strip slug \<in> sv_slug ` set (rg_servers reg)" by (metis imageI)
  show ?thesis
  proof (cases "\<exists>s \<in> set (rg_subscriptions reg). ?mine s")
    case True
    then have reg': "reg' = reg\<lparr>rg_subscriptions := update_where ?mine ?f (rg_subscriptions reg)\<rparr>"
      using out by (simp add: upsert_subscription_def Let_def split: if_splits)
    have "map (\<lambda>s. (su_user s, su_slug s)) (update_where ?mine ?f (rg_subscriptions reg)) =
        map (\<lambda>s. (su_user s, su_slug s)) (rg_subscriptions reg)"
      "su_slug ` set (update_where ?mine ?f (rg_subscriptions reg)) = su_slug ` set (rg_subscriptions reg)"
      by (simp_all add: table_simps)
    with wf show ?thesis unfolding reg' by (intro registry_subscriptions_inv [OF inv]) (simp_all add: registry_wf_def)
  next
    case False
    then have reg': "reg' = reg\<lparr>rg_subscriptions := rg_subscriptions reg @
        [\<lparr>su_user = user, su_slug = py_strip slug, su_write = allow, su_created = now, su_updated = now\<rparr>]\<rparr>"
      using out by (auto simp: upsert_subscription_def Let_def split: if_splits)
    show ?thesis unfolding reg' using False wf slug
      by (intro registry_subscriptions_inv [OF inv]) (auto simp: registry_wf_def)
  qed
qed

definition world_inv :: "vault \<Rightarrow> registry_world \<Rightarrow> bool" where
  "world_inv va w \<longleftrightarrow> registry_inv va (rw_reached w) (rw_registry w) \<and> (\<forall>(slug, r) \<in> set (rw_pending w). server_ok va r)"

text \<open>An operation that stores its result keeps the invariant of the world when it keeps that of the tables.\<close>

lemma stored_inv:
  assumes "world_inv va w" "\<And>x reg. out = Inr (x, reg) \<Longrightarrow> registry_inv va (rw_reached w) reg"
  shows "world_inv va (stored out w)"
  using assms by (auto simp: world_inv_def stored_def split: sum.split)

lemma create_server_inv:
  assumes "registry_inv va R reg" "vault_ok va" "create_server cfg va lookup now actor f reg = Inr (r, reg')"
  shows "registry_inv va R reg'"
proof -
  obtain form where form: "valid_form cfg lookup actor f = Some form" "create_row va now form reg = Inr (r, reg')"
    using assms(3) by (auto simp: create_server_def split: option.splits sum.splits registry_error.splits)
  have "py_strip (fo_url form) = fo_url form"
  proof -
    have "egress cfg lookup (rf_url f) = Some (fo_url form)" using form(1) by (auto simp: valid_form_def bind_eq_Some_conv)
    then show ?thesis by (rule egress_stripped(2))
  qed
  from registry_create_inv [OF assms(1,2) this form(2)] show ?thesis .
qed

lemma update_server_inv:
  assumes "registry_inv va R reg" "vault_ok va" "update_server cfg va lookup now actor slug p reg = Inr (r, reg')"
  shows "registry_inv va R reg'"
proof -
  obtain x patch where patch: "valid_patch cfg lookup actor p x = Some patch" "update_row va now slug patch reg = Inr (r, reg')"
    using assms(3) by (auto simp: update_server_def split: option.splits sum.splits registry_error.splits)
  have "py_strip u = u" if given: "pa_url patch = Some u" for u
  proof -
    have "check_field (egress cfg lookup) (rq_url p) = Some (pa_url patch)"
      using patch(1) by (auto simp: valid_patch_def bind_eq_Some_conv)
    then obtain raw where "egress cfg lookup raw = Some u" using given by (auto simp: check_field_def split: option.splits)
    then show ?thesis by (rule egress_stripped(2))
  qed
  from registry_update_inv [OF assms(1,2) this patch(2)] show ?thesis .
qed

lemma set_enabled_inv:
  assumes "registry_inv va R reg" "set_enabled cfg va now actor slug enabled reg = Inr (r, reg')"
  shows "registry_inv va R reg'"
proof -
  obtain x where x: "enable_check cfg va slug enabled reg = Inr x" "store_set_enabled now slug enabled actor reg = Inr (r, reg')"
    using assms(2) by (auto simp: set_enabled_def split: sum.splits)
  have wf: "registry_wf reg" using assms(1) by (simp add: registry_inv_def)
  have "get_row (py_strip slug) reg = Some x" and passed: "enabled \<longrightarrow> test_passed_for_current_config x"
    using x(1) by (auto simp: enable_check_def get_server_row split: sum.splits if_splits)
  then have "x \<in> set (rg_servers reg) \<and> sv_slug x = py_strip slug" by (simp only: get_row_iff [OF wf])
  then have same: "y = x" if "y \<in> set (rg_servers reg)" "sv_slug y = py_strip slug" for y
    using wf that distinct_key_unique [of sv_slug "rg_servers reg" y x] by (simp add: registry_wf_def)
  show ?thesis
  proof (rule registry_flags_inv [OF assms(1) x(2) [unfolded store_set_enabled_def]])
    fix y
    assume y: "y \<in> set (rg_servers reg)" "sv_slug y = py_strip slug" "row_tested va R y"
    have "y = x" by (rule same [OF y(1,2)])
    then have "enabled \<longrightarrow> reached_fingerprint va R (sv_fingerprint y)"
      using passed y(3) by (auto simp: test_passed_for_current_config_def row_tested_def)
    with y(3) show "sv_slug (y\<lparr>sv_enabled := enabled, sv_updated_by := actor\<rparr>) = sv_slug y
        \<and> sv_id (y\<lparr>sv_enabled := enabled, sv_updated_by := actor\<rparr>) = sv_id y
        \<and> row_tested va R (y\<lparr>sv_enabled := enabled, sv_updated_by := actor\<rparr>)"
      by (simp add: server_row_defs)
  qed
qed

lemma finish_test_inv:
  assumes "registry_inv va R reg" "finish_test now slug r outcome reg = Inr (x, reg')"
    and "outcome = Inl k \<or> reached_fingerprint va R (sv_fingerprint r)"
  shows "registry_inv va R reg'"
proof (cases outcome)
  case (Inl kind)
  then have "record_test_result now slug False (sv_fingerprint r) kind reg = Inr (x, reg')"
    using assms(2) by (simp add: finish_test_def)
  from registry_flags_inv [OF assms(1) this [unfolded record_test_result_def]] show ?thesis by (simp add: server_row_defs)
next
  case (Inr found)
  then have "record_test_result now slug True (sv_fingerprint r) [] reg = Inr (x, reg')"
    using assms(2) by (simp add: finish_test_def)
  from registry_flags_inv [OF assms(1) this [unfolded record_test_result_def]] Inr assms(3)
  show ?thesis by (simp add: server_row_defs)
qed

lemma tools_inv:
  assumes "registry_inv va R reg"
  shows "toggle_tool now actor slug tool reg = Inr (x, reg') \<Longrightarrow> registry_inv va R reg'"
    and "set_write_tools now actor slug tools reg = Inr (y, reg'') \<Longrightarrow> registry_inv va R reg''"
proof -
  assume "toggle_tool now actor slug tool reg = Inr (x, reg')"
  then obtain f r where "update_flags now slug f reg = Inr (r, reg')"
    and "\<exists>l. f = (\<lambda>x. x\<lparr>sv_disabled := l, sv_updated_by := actor\<rparr>)"
    by (auto simp: toggle_tool_def store_toggle_tool_def Let_def split: sum.splits option.splits if_splits registry_error.splits)
  from registry_flags_inv [OF assms this(1)] this(2) show "registry_inv va R reg'" by (auto simp: server_row_defs)
next
  assume "set_write_tools now actor slug tools reg = Inr (y, reg'')"
  then have "store_set_write_tools now slug (clean_names tools) actor reg = Inr (y, reg'')"
    by (auto simp: set_write_tools_def split: sum.splits)
  from registry_flags_inv [OF assms this [unfolded store_set_write_tools_def]] show "registry_inv va R reg''"
    by (simp add: server_row_defs)
qed

lemma contacted_connection:
  assumes "server_ok va r"
  shows "contacted va r = row_connection va r"
  using assms by (simp add: server_ok_def contacted_def row_connection_def)

lemma finish_step_inv:
  assumes inv: "world_inv va w" and pending: "(slug, r) \<in> set (rw_pending w)"
    and reached: "R = rw_reached w \<union> (case outcome of Inl _ \<Rightarrow> {} | Inr _ \<Rightarrow> {contacted va r})"
  shows "world_inv va ((stored (finish_test now slug r outcome (rw_registry w)) w)\<lparr>rw_reached := R\<rparr>)"
proof -
  have ok: "server_ok va r" using inv pending by (auto simp: world_inv_def)
  have reg: "registry_inv va R (rw_registry w)"
    using inv reached registry_inv_mono [of va "rw_reached w" "rw_registry w" R] by (simp add: world_inv_def)
  have "outcome = Inl k \<or> reached_fingerprint va R (sv_fingerprint r)" if "\<nexists>k'. outcome = Inl k' \<and> k' \<noteq> k" for k
    using that ok reached
    by (cases outcome) (auto simp: reached_fingerprint_def contacted_connection server_ok_def)
  then have "\<exists>k. outcome = Inl k \<or> reached_fingerprint va R (sv_fingerprint r)" by (cases outcome) auto
  then have "registry_inv va R reg" if "finish_test now slug r outcome (rw_registry w) = Inr (x, reg)" for x reg
    using finish_test_inv [OF \<open>registry_inv va R (rw_registry w)\<close> that] by blast
  with inv reg show ?thesis by (auto simp: world_inv_def stored_def split: sum.split)
qed

lemma subscriptions_filter_inv:
  assumes "registry_inv va R reg"
  shows "registry_inv va R (reg\<lparr>rg_subscriptions := filter P (rg_subscriptions reg)\<rparr>)"
  using assms by (intro registry_subscriptions_inv) (auto simp: registry_inv_def registry_wf_def distinct_map_filter)

lemma subscribe_inv:
  assumes "registry_inv va R reg" "subscribe cfg va now user slug allow d reg = Inr (s, reg')"
  shows "registry_inv va R reg'"
  using assms(2) registry_upsert_inv [OF assms(1), of now user slug allow s reg']
  by (auto simp: subscribe_def split: sum.splits if_splits)

lemma registry_step_inv:
  assumes vault: "vault_ok va" and inv: "world_inv va w"
  shows "world_inv va (registry_step va w (cfg, e))"
proof -
  have reg: "registry_inv va (rw_reached w) (rw_registry w)" using inv by (simp add: world_inv_def)
  note kept = stored_inv [OF inv]
  show ?thesis
  proof (cases e)
    case (Create_server lookup now actor f)
    show ?thesis unfolding Create_server registry_step.simps by (rule kept) (rule create_server_inv [OF reg vault])
  next
    case (Update_server lookup now actor slug p)
    show ?thesis unfolding Update_server registry_step.simps by (rule kept) (rule update_server_inv [OF reg vault])
  next
    case (Delete_server slug)
    have "registry_inv va (rw_reached w) reg'" if "delete_server slug (rw_registry w) = Inr (x, reg')" for x reg'
      using that registry_delete_inv [OF reg, of slug] by (auto simp: delete_server_def split: sum.splits dest: arg_cong [where f = snd])
    then show ?thesis unfolding Delete_server registry_step.simps by (rule kept)
  next
    case (Set_enabled now actor slug enabled)
    show ?thesis unfolding Set_enabled registry_step.simps by (rule kept) (rule set_enabled_inv [OF reg])
  next
    case (Begin_test slug)
    have "server_ok va r" if "begin_test cfg slug (rw_registry w) = Inr r" for r
    proof -
      have wf: "registry_wf (rw_registry w)" using reg by (simp add: registry_inv_def)
      have "get_row (py_strip slug) (rw_registry w) = Some r"
        using that by (auto simp: begin_test_def get_server_row split: sum.splits if_splits)
      then have "r \<in> set (rg_servers (rw_registry w))" by (simp only: get_row_iff [OF wf])
      then show ?thesis using reg by (simp add: registry_inv_def row_tested_def)
    qed
    then show ?thesis using inv Begin_test by (auto simp: world_inv_def split: sum.split)
  next
    case (Finish_test lookup remote now i)
    show ?thesis
    proof (cases "i < length (rw_pending w)")
      case True
      obtain slug r where p: "rw_pending w ! i = (slug, r)" by fastforce
      then have "(slug, r) \<in> set (rw_pending w)" using True by (metis nth_mem)
      from finish_step_inv [OF inv this refl] True p show ?thesis
        by (simp add: Finish_test split: prod.split)
    qed (use inv Finish_test in simp)
  next
    case (Toggle_tool now actor slug tool)
    show ?thesis unfolding Toggle_tool registry_step.simps by (rule kept) (rule tools_inv(1) [OF reg])
  next
    case (Set_write_tools now actor slug tools)
    show ?thesis unfolding Set_write_tools registry_step.simps by (rule kept) (rule tools_inv(2) [OF reg])
  next
    case (Subscribe now user slug allow d)
    show ?thesis unfolding Subscribe registry_step.simps by (rule kept) (rule subscribe_inv [OF reg])
  next
    case (Set_write_consent now user slug allow d)
    have "registry_inv va (rw_reached w) reg'"
      if "set_write_consent cfg va now user slug allow d (rw_registry w) = Inr (x, reg')" for x reg'
      using that subscribe_inv [OF reg] by (auto simp: set_write_consent_def split: if_splits)
    then show ?thesis unfolding Set_write_consent registry_step.simps by (rule kept)
  next
    case (Unsubscribe user slug)
    have "registry_inv va (rw_reached w) reg'" if "unsubscribe user slug (rw_registry w) = Inr (x, reg')" for x reg'
      using that subscriptions_filter_inv [OF reg] by (auto simp: unsubscribe_def delete_subscription_def split: sum.splits)
    then show ?thesis unfolding Unsubscribe registry_step.simps by (rule kept)
  next
    case (Delete_user user)
    then show ?thesis using inv subscriptions_filter_inv [OF reg]
      by (simp add: world_inv_def delete_user_subscriptions_def)
  qed
qed

lemma registry_run_inv:
  assumes "vault_ok va"
  shows "world_inv va (foldl (registry_step va) registry_start es)"
proof (rule foldl_invariant)
  show "world_inv va registry_start"
    by (simp add: world_inv_def registry_start_def registry_inv_def registry_wf_def ids_below_def)
  show "world_inv va (registry_step va w e)" if "world_inv va w" for w e
    using registry_step_inv [OF assms that] by (cases e) simp
qed

section \<open>Properties\<close>

text \<open>C25. Whatever administrators and users do, in any order and with connection tests under way meanwhile, slugs and
  identifiers of servers are unique, a user has at most one subscription of a server, and every subscription belongs to
  a server that exists.\<close>

theorem registry_tables_well_formed:
  assumes "vault_ok va"
    and "reg = rw_registry (foldl (registry_step va) registry_start es)"
  shows "distinct (map sv_slug (rg_servers reg)) \<and> distinct (map sv_id (rg_servers reg))
    \<and> distinct (map (\<lambda>s. (su_user s, su_slug s)) (rg_subscriptions reg))
    \<and> su_slug ` set (rg_subscriptions reg) \<subseteq> sv_slug ` set (rg_servers reg)"
  using registry_run_inv [OF assms(1), of es] assms(2) by (simp add: world_inv_def registry_inv_def registry_wf_def)

lemma enabled_row_tested:
  assumes "vault_ok va" "w = foldl (registry_step va) registry_start es"
    and "r \<in> set (rg_servers (rw_registry w))" "sv_enabled r"
  shows "row_credentials_ok va r
    \<and> (\<exists>c \<in> rw_reached w. connection_fingerprint va c = connection_fingerprint va (row_connection va r))"
proof -
  have "row_tested va (rw_reached w) r"
    using registry_run_inv [OF assms(1), of es] assms(2,3) by (simp add: world_inv_def registry_inv_def)
  with assms(4) show ?thesis by (auto simp: row_tested_def server_ok_def reached_fingerprint_def)
qed


text \<open>The rows a turn reads from the registry.\<close>

definition turn_store :: "vault \<Rightarrow> int \<Rightarrow> registry \<Rightarrow> (mcp_server list \<times> mcp_subscription list) option" where
  "turn_store va user reg = Some (map (policy_server va) (list_enabled reg), map policy_subscription (list_subscriptions user reg))"


section \<open>A concrete registry\<close>

definition demo_headers :: headers where
  "demo_headers = [(''Authorization'', ''Bearer x'')]"

definition demo_vault :: vault where
  "demo_vault =
     \<lparr>va_key = ''key'', va_encrypt = (\<lambda>h. if h = demo_headers then Some ''gAAAA'' else None),
      va_decrypt = (\<lambda>c. if c = ''gAAAA'' then Some demo_headers else None),
      va_hmac = (\<lambda>c. cn_transport c @ ''|'' @ cn_url c @ ''|'' @ concat (map (\<lambda>(k, v). k @ v) (cn_headers c))),
      va_sha = (\<lambda>c. cn_url c)\<rparr>"

lemma demo_vault_ok: "vault_ok demo_vault"
proof -
  have "py_strip ''gAAAA'' = ''gAAAA''" by code_simp
  then show ?thesis by (simp add: vault_ok_def demo_vault_def)
qed

definition demo_plugins :: plugin_settings where
  "demo_plugins = \<lparr>ps_policy = demo_settings, ps_diagnostic = False, ps_allow_http = False, ps_allow_private = False, ps_max_tools = 50\<rparr>"

definition demo_form :: raw_form where
  "demo_form = \<lparr>rf_slug = '' CAD '', rf_name = ''CAD tools'', rf_transport = ''SSE'', rf_url = ''https://tools.example/mcp'',
     rf_description = ''d'', rf_headers = Some demo_headers, rf_timeout = Number 30, rf_sse = No_number, rf_scope = ''all'',
     rf_departments = No_ids, rf_disabled = [''purge''], rf_write = [''edit''], rf_tags = [''eda'', ''eda''], rf_icon = []\<rparr>"

definition demo_remote :: remote where
  "demo_remote c = (if cn_url c = ''https://tools.example/mcp''
     then Inr [\<lparr>rt_name = ''view'', rt_read_only = True\<rparr>, \<lparr>rt_name = ''edit'', rt_read_only = False\<rparr>] else Inl ''connect'')"

definition no_patch :: raw_patch where
  "no_patch = \<lparr>rq_name = None, rq_description = None, rq_transport = None, rq_url = None, rq_clear_headers = False, rq_headers = None,
     rq_timeout = None, rq_sse = None, rq_scope = None, rq_departments = None, rq_disabled = None, rq_write = None, rq_tags = None,
     rq_icon = None\<rparr>"

definition move_patch :: raw_patch where
  "move_patch = no_patch\<lparr>rq_url := Some ''https://tools.example/other''\<rparr>"

definition demo_events :: "(plugin_settings \<times> registry_event) list" where
  "demo_events = map (Pair demo_plugins)
     [Create_server demo_lookup ''t1'' ''admin'' demo_form, Begin_test ''cad'', Finish_test demo_lookup demo_remote ''t2'' 0,
      Set_enabled ''t3'' ''admin'' ''cad'' True, Subscribe ''t4'' 42 ''cad'' True None]"

abbreviation demo_world :: registry_world where
  "demo_world \<equiv> foldl (registry_step demo_vault) registry_start demo_events"

lemma demo_world_rows:
  "map (\<lambda>r. (sv_slug r, sv_enabled r)) (rg_servers (rw_registry demo_world)) = [(''cad'', True)]"
  "map (\<lambda>s. (su_user s, su_slug s, su_write s)) (rg_subscriptions (rw_registry demo_world)) = [(42, ''cad'', True)]"
  by code_simp+

theorem registry_tables_well_formed_witness:
  "map (\<lambda>s. (su_user s, su_slug s)) (rg_subscriptions (rw_registry demo_world)) = [(42, ''cad'')]
   \<and> su_slug ` set (rg_subscriptions (rw_registry demo_world)) \<subseteq> sv_slug ` set (rg_servers (rw_registry demo_world))"
proof (intro conjI)
  show "su_slug ` set (rg_subscriptions (rw_registry demo_world)) \<subseteq> sv_slug ` set (rg_servers (rw_registry demo_world))"
    using registry_tables_well_formed [OF demo_vault_ok refl, of demo_events] by blast
qed code_simp


definition registry_plan :: run_plan where
  "registry_plan = load_tools demo_settings
     (resolve_visible_servers demo_settings (Some \<lparr>tc_admin = Some False, tc_metadata = Some (None, None)\<rparr>) (Some 42)
        (turn_store demo_vault 42 (rw_registry demo_world)))
     [''external_tool.invoke'', ''external_tool.write''] []
     (Inr [Inr [\<lparr>rt_name = ''view'', rt_read_only = True\<rparr>, \<lparr>rt_name = ''edit'', rt_read_only = False\<rparr>, \<lparr>rt_name = ''purge'', rt_read_only = True\<rparr>]])"


section \<open>Where the code falls short\<close>

text \<open>Enabling is checked in one transaction and written in the next: with an update of the URL between the two the server
  ends up enabled in a configuration no test has reached.\<close>

lemma enable_race:
  "case enable_check demo_plugins demo_vault ''cad'' True (rw_registry demo_world) of
     Inl _ \<Rightarrow> False
   | Inr _ \<Rightarrow>
      (case update_server demo_plugins demo_vault demo_lookup ''t5'' ''bob'' ''cad'' move_patch (rw_registry demo_world) of
         Inl _ \<Rightarrow> False
       | Inr (r, reg) \<Rightarrow> \<not> sv_enabled r
          \<and> (case store_set_enabled ''t6'' ''cad'' True ''admin'' reg of
               Inl _ \<Rightarrow> False
             | Inr (r', _) \<Rightarrow> sv_enabled r' \<and> \<not> test_passed_for_current_config r' \<and> sv_url r' = ''https://tools.example/other''))"
  by code_simp

text \<open>Credentials that the configured key cannot decrypt are erased by any update that means to keep them: the ciphertext
  is replaced by an empty one, so the server counts as usable again, stays enabled, and is now called without them.\<close>

theorem update_drops_credentials:
  assumes "get_row (py_strip slug) reg = Some r" "decrypt_headers va (sv_cipher r) = None" "sv_enabled r"
    and "pa_headers p = Keep_headers" "pa_url p = None" "pa_transport p = None" "pa_timeout p = None" "pa_sse p = None"
  shows "\<exists>r' reg'. update_row va now slug p reg = Inr (r', reg') \<and> sv_cipher r' = [] \<and> row_credentials_ok va r'
    \<and> row_headers va r' = [] \<and> sv_enabled r'"
proof -
  have headers: "row_headers va r = []" by (simp add: row_headers_def assms(2))
  have same: "next_connection va p r = row_connection va r"
    using assms by (simp add: next_connection_def next_headers_def or_old_def row_connection_def)
  have cipher: "encrypt_headers va (next_headers va (pa_headers p) r) = Some []"
    using assms(4) headers by (simp add: next_headers_def encrypt_headers_def normalize_headers_def)
  obtain fp where fp: "connection_fingerprint va (next_connection va p r) = Some fp"
    by (simp add: same connection_fingerprint_def row_connection_def headers)
  have "update_row va now slug p reg = Inr (patched_row va now p [] fp r, put_row (py_strip slug) (\<lambda>_. patched_row va now p [] fp r) reg)"
    using assms(1) cipher fp by (simp add: update_row_def Let_def)
  moreover have "sv_cipher (patched_row va now p [] fp r) = []" "sv_enabled (patched_row va now p [] fp r)"
    using assms(3) by (simp_all add: patched_row_def same Let_def)
  ultimately show ?thesis by (auto simp: row_credentials_ok_def row_headers_def decrypt_headers_def py_strip_def)
qed

text \<open>The administrator's list of tools and the policy of a turn disagree in exactly one case: a read-only tool on the write
  whitelist is listed as blocked while the write channel is off, but turns are offered it.\<close>

lemma admin_view_exact:
  "tool_blocked write_channel True (policy_server va r) t = None \<longleftrightarrow>
     ti_blocked (info_of write_channel r t) = []
     \<or> rt_read_only t \<and> py_strip (rt_name t) \<in> set (sv_write r) \<and> py_strip (rt_name t) \<notin> set (sv_disabled r) \<and> \<not> write_channel"
  by (auto simp: tool_blocked_def info_of_def policy_server_def Let_def)

section \<open>The catalog\<close>

lemma catalog_slugs:
  "ca_slug ` set (catalog cfg va u d reg cache) =
     (if st_enabled (ps_policy cfg) then sv_slug ` {r \<in> set (rg_servers reg). sv_enabled r \<and> department_allows d (policy_server va r)} else {})"
  by (auto simp: catalog_def list_enabled_def newest_rows_def catalog_view_def Let_def image_iff)

lemma subscribe_accepts:
  assumes "subscribe cfg va now user slug allow d reg = Inr (s, reg')"
  shows "st_enabled (ps_policy cfg)"
    "\<exists>r. get_row (py_strip slug) reg = Some r \<and> sv_enabled r \<and> department_allows d (policy_server va r)"
    "upsert_subscription now user slug allow reg = Inr (s, reg')"
  using assms by (auto simp: subscribe_def get_server_row split: sum.splits if_splits)

text \<open>After an upsert the user's only subscription of the slug carries the new consent.\<close>

lemma upsert_found:
  assumes "upsert_subscription now user slug allow reg = Inr (s, reg')"
  shows "rg_servers reg' = rg_servers reg"
    "\<exists>x \<in> set (rg_subscriptions reg'). su_user x = user \<and> su_slug x = py_strip slug"
    "\<forall>x \<in> set (rg_subscriptions reg'). su_user x = user \<longrightarrow> su_slug x = py_strip slug \<longrightarrow> su_write x = allow"
proof -
  let ?mine = "\<lambda>s. su_user s = user \<and> su_slug s = py_strip slug"
  let ?f = "\<lambda>s. s\<lparr>su_write := allow, su_updated := now\<rparr>"
  let ?new = "\<lparr>su_user = user, su_slug = py_strip slug, su_write = allow, su_created = now, su_updated = now\<rparr>"
  have reg': "reg' = reg\<lparr>rg_subscriptions := (if \<exists>s \<in> set (rg_subscriptions reg). ?mine s
      then update_where ?mine ?f (rg_subscriptions reg) else rg_subscriptions reg @ [?new])\<rparr>"
    using assms by (auto simp: upsert_subscription_def Let_def split: if_splits)
  then show "rg_servers reg' = rg_servers reg" by simp
  show "\<exists>x \<in> set (rg_subscriptions reg'). ?mine x"
  proof (cases "\<exists>s \<in> set (rg_subscriptions reg). ?mine s")
    case True
    then obtain x where "x \<in> set (rg_subscriptions reg)" "?mine x" by blast
    then have "?f x \<in> set (update_where ?mine ?f (rg_subscriptions reg))" by (rule update_where_touched)
    with \<open>?mine x\<close> True reg' show ?thesis by (intro bexI [of _ "?f x"]) simp_all
  qed (use reg' in auto)
  show "\<forall>x \<in> set (rg_subscriptions reg'). su_user x = user \<longrightarrow> su_slug x = py_strip slug \<longrightarrow> su_write x = allow"
    unfolding reg' by (auto simp: set_update_where)
qed

text \<open>The catalog and subscribing agree: a user can subscribe a server exactly when the catalog shows it to the
  user's department, and once subscribed the catalog shows it as subscribed, with the consent to writes just given.\<close>

theorem catalog_offers_what_can_be_subscribed:
  assumes "vault_ok va" "reg = rw_registry (foldl (registry_step va) registry_start es)"
  shows "((\<exists>s reg'. subscribe cfg va now user slug False d reg = Inr (s, reg'))
      \<longleftrightarrow> py_strip slug \<in> ca_slug ` set (catalog cfg va (Some user) d reg cache))
    \<and> (\<forall>allow s reg'. subscribe cfg va now user slug allow d reg = Inr (s, reg')
        \<longrightarrow> (\<exists>i \<in> set (catalog cfg va (Some user) d reg' cache). ca_slug i = py_strip slug \<and> ca_subscribed i \<and> ca_allow_write i = allow))"
proof (intro conjI allI impI iffI)
  have wf: "registry_wf reg" using registry_run_inv [OF assms(1), of es] assms(2) by (simp add: world_inv_def registry_inv_def)
  note row = get_row_iff [OF wf]
  show "py_strip slug \<in> ca_slug ` set (catalog cfg va (Some user) d reg cache)"
    if accepted: "\<exists>s reg'. subscribe cfg va now user slug False d reg = Inr (s, reg')"
  proof -
    obtain s reg' where sub: "subscribe cfg va now user slug False d reg = Inr (s, reg')" using accepted by blast
    obtain r where "get_row (py_strip slug) reg = Some r" and r: "sv_enabled r" "department_allows d (policy_server va r)"
      using subscribe_accepts(2) [OF sub] by blast
    then have "r \<in> set (rg_servers reg)" "sv_slug r = py_strip slug" by (simp_all add: row)
    with r subscribe_accepts(1) [OF sub] show ?thesis by (auto simp: catalog_slugs image_iff intro!: bexI [of _ r])
  qed
  show "\<exists>s reg'. subscribe cfg va now user slug False d reg = Inr (s, reg')"
    if shown: "py_strip slug \<in> ca_slug ` set (catalog cfg va (Some user) d reg cache)"
  proof -
    obtain r where r: "r \<in> set (rg_servers reg)" "sv_slug r = py_strip slug" "sv_enabled r" "department_allows d (policy_server va r)"
      and on: "st_enabled (ps_policy cfg)"
      using shown by (auto simp: catalog_slugs split: if_splits)
    have "get_row (py_strip slug) reg = Some r" using r row by simp
    with r on show ?thesis by (simp add: subscribe_def get_server_def upsert_subscription_def Let_def)
  qed
  show "\<exists>i \<in> set (catalog cfg va (Some user) d reg' cache). ca_slug i = py_strip slug \<and> ca_subscribed i \<and> ca_allow_write i = allow"
    if taken: "subscribe cfg va now user slug allow d reg = Inr (s, reg')" for allow s reg'
  proof -
    note up = upsert_found [OF subscribe_accepts(3) [OF taken]]
    obtain r where "get_row (py_strip slug) reg = Some r" and r: "sv_enabled r" "department_allows d (policy_server va r)"
      using subscribe_accepts(2) [OF taken] by blast
    then have mem: "r \<in> set (rg_servers reg')" "sv_slug r = py_strip slug" using row up(1) by simp_all
    let ?subs = "list_subscriptions user reg'"
    let ?sub = "fetchone (\<lambda>s. su_slug s = py_strip slug) (rev ?subs)"
    have "\<exists>x \<in> set ?subs. su_slug x = py_strip slug" using up(2) by (auto simp: list_subscriptions_def)
    then obtain x where x: "?sub = Some x" using fetchone_None_iff [of _ "rev ?subs"] by (cases ?sub) auto
    then have "x \<in> set ?subs" "su_slug x = py_strip slug" using fetchone_SomeD [OF x] by auto
    then have "su_write x = allow" using up(3) by (auto simp: list_subscriptions_def)
    moreover have "catalog_view ?sub (cache_get (sv_slug r) (sv_fingerprint r) cache) r \<in> set (catalog cfg va (Some user) d reg' cache)"
      using mem r subscribe_accepts(1) [OF taken]
      by (auto simp: catalog_def list_enabled_def newest_rows_def Let_def intro!: image_eqI [of _ _ r])
    ultimately show ?thesis using x mem(2)
      by (intro bexI [of _ "catalog_view ?sub (cache_get (sv_slug r) (sv_fingerprint r) cache) r"]) (simp_all add: catalog_view_def)
  qed
qed

theorem catalog_offers_what_can_be_subscribed_witness:
  "py_strip '' cad'' \<in> ca_slug ` set (catalog demo_plugins demo_vault (Some 7) None (rw_registry demo_world) [])
   \<and> (\<exists>s reg'. subscribe demo_plugins demo_vault ''t9'' 7 '' cad'' False None (rw_registry demo_world) = Inr (s, reg'))"
proof -
  have shown: "py_strip '' cad'' \<in> ca_slug ` set (catalog demo_plugins demo_vault (Some 7) None (rw_registry demo_world) [])"
    by code_simp
  with catalog_offers_what_can_be_subscribed [OF demo_vault_ok refl, of demo_plugins "''t9''" 7 "'' cad''" None demo_events "[]"]
  show ?thesis by blast
qed

end
