(* ===== verification/Mcp_Executor_Properties.thy ===== *)
theory Mcp_Executor_Properties
  imports Mcp_Executor Mcp_Registry_Properties
begin

text \<open>
  Properties of the guarded calls: what a turn shows of a result is bounded, calls pass the current gates and the budget
  of the turn, a write goes out only with its user's confirmation and standing consent, and a pass of the worker leaves
  no claimed proposal running; and which gates of the turn the worker does not repeat.
\<close>

section \<open>Results are bounded\<close>

lemma utf8_prefix_take: "\<exists>k. utf8_prefix n msg = take k msg"
proof (induction msg arbitrary: n)
  case (Cons c cs)
  obtain k where "utf8_prefix (n - utf8_size c) cs = take k cs" using Cons.IH by blast
  then show ?case by (cases "utf8_size c \<le> n") (auto intro: exI [of _ "Suc k"] exI [of _ 0])
qed simp

lemma utf8_prefix_len: "utf8_len (utf8_prefix n msg) \<le> n"
proof (induction msg arbitrary: n)
  case (Cons c cs)
  show ?case using Cons.IH [of "n - utf8_size c"] by (auto simp: utf8_len_def)
qed (simp add: utf8_len_def)

text \<open>The longest prefix: one character more does not fit.\<close>

lemma utf8_prefix_maximal:
  assumes "n < utf8_len msg"
  shows "\<exists>k < length msg. utf8_prefix n msg = take k msg \<and> n < utf8_len (take (Suc k) msg)"
  using assms
proof (induction msg arbitrary: n)
  case (Cons c cs)
  show ?case
  proof (cases "utf8_size c \<le> n")
    case True
    then have "n - utf8_size c < utf8_len cs" using Cons.prems by (simp add: utf8_len_def)
    then obtain k where "k < length cs" "utf8_prefix (n - utf8_size c) cs = take k cs" "n - utf8_size c < utf8_len (take (Suc k) cs)"
      using Cons.IH by blast
    with True show ?thesis by (intro exI [of _ "Suc k"]) (auto simp: utf8_len_def)
  qed (auto simp: utf8_len_def)
qed (simp add: utf8_len_def)

text \<open>What the model sees of a tool's answer is the answer itself when it keeps within both limits, and otherwise a
  prefix of it that keeps within both, followed by the marker; the reported size is that of the text shown.\<close>

theorem result_text_bounded:
  assumes "truncate_result st msg = (shown, truncated, size_shown)"
    and "max_chars = nat (max 1 (ex_max_result_chars st))" "max_bytes = nat (max 1 (ex_max_result_bytes st))"
  shows "size_shown = utf8_len shown
    \<and> (truncated \<longleftrightarrow> length msg > max_chars \<or> utf8_len msg > max_bytes)
    \<and> (if truncated then \<exists>k < length msg. shown = take k msg @ TRUNCATED \<and> k \<le> max_chars \<and> utf8_len (take k msg) \<le> max_bytes
       else shown = msg)"
proof -
  define msg1 where "msg1 = (if length msg > max_chars then take max_chars msg else msg)"
  define msg2 where "msg2 = (if utf8_len msg1 > max_bytes then utf8_prefix max_bytes msg1 else msg1)"
  have out: "truncated \<longleftrightarrow> length msg > max_chars \<or> utf8_len msg1 > max_bytes"
    "shown = (if truncated then msg2 @ TRUNCATED else msg2)" "size_shown = utf8_len shown"
    using assms(1) unfolding truncate_result_def Let_def prod.inject assms(2,3) [symmetric] msg1_def [symmetric] msg2_def [symmetric]
    by (simp_all only: conj_assoc) blast+
  have tr: "truncated \<longleftrightarrow> length msg > max_chars \<or> utf8_len msg > max_bytes"
    using out(1) by (auto simp: msg1_def)
  obtain k where k: "msg1 = take k msg" "k \<le> length msg" "k \<le> max_chars" "length msg > max_chars \<Longrightarrow> k < length msg"
    by (cases "length msg > max_chars") (auto simp: msg1_def intro: that [of max_chars] that [of "length msg"])
  show ?thesis
  proof (cases truncated)
    case False
    then show ?thesis using out tr by (auto simp: msg2_def msg1_def)
  next
    case True
    have "\<exists>j < length msg. msg2 = take j msg \<and> j \<le> max_chars \<and> utf8_len (take j msg) \<le> max_bytes"
    proof (cases "utf8_len msg1 > max_bytes")
      case True
      obtain j where j: "j < length msg1" "utf8_prefix max_bytes msg1 = take j msg1"
        using utf8_prefix_maximal [OF True] by blast
      then have "msg2 = take j msg" using True k by (simp add: msg2_def)
      moreover have "utf8_len msg2 \<le> max_bytes" using True utf8_prefix_len by (simp add: msg2_def)
      ultimately show ?thesis using j(1) k by (intro exI [of _ j]) auto
    next
      case False
      then have "length msg > max_chars" using True out(1) by blast
      with False k show ?thesis by (intro exI [of _ k]) (auto simp: msg2_def)
    qed
    with True tr out show ?thesis by auto
  qed
qed

definition demo_executor :: executor_settings where
  "demo_executor = \<lparr>ex_plugins = \<lparr>ps_policy = demo_settings, ps_diagnostic = False, ps_allow_http = False, ps_allow_private = False, ps_max_tools = 50\<rparr>,
     ex_calls_per_turn = 2, ex_max_argument_chars = 100, ex_max_result_chars = 4, ex_max_result_bytes = 5, ex_confirm_ttl = 60,
     ex_max_attempts = 3, ex_artifacts = demo_artifacts\<rparr>"

theorem result_text_bounded_witness:
  "truncate_result demo_executor [0x41, 0x5DF2, 0x5DF2, 0x42, 0x43] = ([0x41, 0x5DF2] @ TRUNCATED, True, 18)
   \<and> (\<exists>k < 5. [0x41, 0x5DF2] @ TRUNCATED = take k [0x41, 0x5DF2, 0x5DF2, 0x42, 0x43] @ TRUNCATED)"
proof (intro conjI)
  show run: "truncate_result demo_executor [0x41, 0x5DF2, 0x5DF2, 0x42, 0x43] = ([0x41, 0x5DF2] @ TRUNCATED, True, 18)"
    by (simp add: truncate_result_def demo_executor_def utf8_len_def utf8_size_def TRUNCATED_def)
  from result_text_bounded [OF run refl refl]
  obtain k where "k < length [0x41, 0x5DF2, 0x5DF2, 0x42, 0x43 :: nat]"
    "[0x41, 0x5DF2] @ TRUNCATED = take k [0x41, 0x5DF2, 0x5DF2, 0x42, 0x43] @ TRUNCATED"
    unfolding if_True by (elim conjE exE)
  then show "\<exists>k < 5. [0x41, 0x5DF2] @ TRUNCATED = take k [0x41, 0x5DF2, 0x5DF2, 0x42, 0x43] @ TRUNCATED"
    by (intro exI [of _ k] conjI) simp
qed

section \<open>Calls of a turn\<close>

datatype turn_op =
    Turn_call "json \<Rightarrow> code_text" caller "registry option" checkpoints call_outcome nat tool_binding
  | Turn_propose caller "registry option" checkpoints nat time string string "string option" string tool_binding

fun turn_step :: "executor_settings \<Rightarrow> vault \<Rightarrow> turn \<times> proposals \<Rightarrow> turn_op \<Rightarrow> turn \<times> proposals" where
  "turn_step st va (t, rows) (Turn_call dumps cl store cp outcome n b) = (snd (call_tool st va dumps cl store cp outcome n b t), rows)"
| "turn_step st va (t, rows) (Turn_propose cl store cp n now pid digest ciphertext hint b) =
     snd (propose st va cl store cp n now pid digest ciphertext hint b t rows)"

definition turn_start :: turn where
  "turn_start = \<lparr>tn_calls = 0, tn_diagnostics = [], tn_external = [], tn_proposed = []\<rparr>"

definition turn_ok :: "int \<Rightarrow> turn \<Rightarrow> bool" where
  "turn_ok limit t \<longleftrightarrow> length (tn_external t) + length (tn_proposed t) \<le> tn_calls t \<and> (0 < limit \<longrightarrow> int (tn_calls t) \<le> limit)"

lemma finish_call_turn:
  "tn_calls (snd (finish_call b s f r c t)) = tn_calls t" "tn_external (snd (finish_call b s f r c t)) = tn_external t"
  "tn_proposed (snd (finish_call b s f r c t)) = tn_proposed t"
  by (simp_all add: finish_call_def Let_def)

lemma turn_ok_finish [simp]: "turn_ok limit (snd (finish_call b s f r c t)) = turn_ok limit t"
  by (simp add: turn_ok_def finish_call_turn)

lemma call_tool_ok:
  assumes "turn_ok (ex_calls_per_turn st) t"
  shows "turn_ok (ex_calls_per_turn st) (snd (call_tool st va dumps cl store cp outcome n b t))"
proof -
  have called: "turn_ok (ex_calls_per_turn st) (t\<lparr>tn_calls := tn_calls t + 1, tn_external := tn_external t @ [x]\<rparr>)"
    "turn_ok (ex_calls_per_turn st) (t\<lparr>tn_calls := tn_calls t + 1\<rparr>)"
    if "\<not> (ex_calls_per_turn st > 0 \<and> int (tn_calls t) \<ge> ex_calls_per_turn st)" for x
    using assms that by (auto simp: turn_ok_def)
  show ?thesis using assms called
    by (auto simp: call_tool_def reserve_mcp_call_def Let_def split: option.splits if_splits call_outcome.splits)
qed

lemma propose_ok:
  assumes "turn_ok (ex_calls_per_turn st) t"
  shows "turn_ok (ex_calls_per_turn st) (fst (snd (propose st va cl store cp n now pid digest ciphertext hint b t rows)))"
proof -
  have kept: "turn_ok (ex_calls_per_turn st) (t\<lparr>tn_calls := tn_calls t + 1, tn_diagnostics := ds, tn_proposed := tn_proposed t @ [pid]\<rparr>)"
    "turn_ok (ex_calls_per_turn st) (t\<lparr>tn_calls := tn_calls t + 1\<rparr>)"
    if "\<not> (ex_calls_per_turn st > 0 \<and> int (tn_calls t) \<ge> ex_calls_per_turn st)" for ds
    using assms that by (auto simp: turn_ok_def)
  show ?thesis using assms kept
    by (auto simp: propose_def reserve_mcp_call_def Let_def case_prod_beta split: option.splits if_splits)
qed

text \<open>The calls a turn makes to external tools and the write proposals it creates stay, together, within the turn's
  budget, whatever the tools answer and however often the model asks.\<close>

theorem turn_budget:
  assumes "0 < ex_calls_per_turn st"
    and "(t, rows') = foldl (turn_step st va) (turn_start, rows) ops"
  shows "int (length (tn_external t) + length (tn_proposed t)) \<le> ex_calls_per_turn st"
proof -
  have "turn_ok (ex_calls_per_turn st) (fst (foldl (turn_step st va) (turn_start, rows) ops))"
  proof (rule foldl_invariant [where P = "\<lambda>s. turn_ok (ex_calls_per_turn st) (fst s)"])
    show "turn_ok (ex_calls_per_turn st) (fst (turn_start, rows))" by (simp add: turn_ok_def turn_start_def)
    show "turn_ok (ex_calls_per_turn st) (fst (turn_step st va s op))" if "turn_ok (ex_calls_per_turn st) (fst s)" for s op
      using that by (cases s; cases op) (simp_all add: call_tool_ok propose_ok)
  qed
  then have "turn_ok (ex_calls_per_turn st) t" by (simp flip: assms(2))
  with assms(1) show ?thesis by (simp add: turn_ok_def)
qed


section \<open>Writes need confirmation and consent\<close>

definition write_authorised :: "executor_settings \<Rightarrow> vault \<Rightarrow> exec_env \<Rightarrow> write_proposal \<Rightarrow> server_row \<Rightarrow> bool" where
  "write_authorised st va ev p r \<longleftrightarrow>
     st_write_enabled (ps_policy (ex_plugins st)) \<and> get_row (wp_slug p) (ev_registry ev) = Some r
     \<and> sv_enabled r \<and> row_credentials_ok va r \<and> wp_tool p \<in> set (sv_write r)
     \<and> (\<exists>s. get_subscription (wp_user p) (wp_slug p) (ev_registry ev) = Some s \<and> su_write s)
     \<and> (ev_department ev (wp_user p) = None \<or> department_allows (ev_department ev (wp_user p)) (policy_server va r))"

lemma not_rejected_authorised:
  assumes "execution_rejection st va ev (get_row (wp_slug p) (ev_registry ev)) p = None"
  shows "write_authorised st va ev p (the (get_row (wp_slug p) (ev_registry ev)))"
  using assms by (auto simp: execution_rejection_def write_authorised_def split: if_splits option.splits)

lemma finish_calls [simp]: "xw_calls (snd (finish_proposal st ev p code retry w)) = xw_calls w"
  by (simp add: finish_proposal_def split: prod.split)

lemma store_result_calls [simp]: "xw_calls (snd (store_result st ev p raw w)) = xw_calls w"
  by (auto simp: store_result_def split: sum.split option.split artifact_error.split prod.split)

lemma execute_calls:
  "xw_calls (snd (execute_proposal st va ev p w)) = xw_calls w
   \<or> (\<exists>r. write_authorised st va ev p r \<and> xw_calls (snd (execute_proposal st va ev p w)) = xw_calls w @ [(p, r)])"
proof (cases "execution_rejection st va ev (get_row (wp_slug p) (ev_registry ev)) p")
  case None
  from not_rejected_authorised [OF None] show ?thesis
    by (auto simp: execute_proposal_def None Let_def split: option.split sum.split prod.split call_outcome.split)
qed (simp add: execute_proposal_def Let_def)

lemma run_proposal_calls:
  "set (xw_calls (snd (run_proposal st va ev p w))) \<subseteq> set (xw_calls w) \<union> {(p, r) | r. write_authorised st va ev p r}"
proof -
  have "xw_calls (snd (run_proposal st va ev p w)) = xw_calls (snd (execute_proposal st va ev p w))"
    by (simp add: run_proposal_def split: prod.split exec_answer.split)
  with execute_calls [of st va ev p w] show ?thesis by auto
qed

lemma run_proposals_calls:
  "set (xw_calls (run_proposals st va env ps w)) \<subseteq> set (xw_calls w) \<union> {(p, r) | p r. p \<in> set ps \<and> write_authorised st va (env p) p r}"
proof (induction ps arbitrary: w)
  case (Cons p ps)
  show ?case using Cons.IH [of "snd (run_proposal st va (env p) p w)"] run_proposal_calls [of st va "env p" p w] by fastforce
qed simp


section \<open>A pass of the worker settles what it claims\<close>

text \<open>The rows of other proposals stay, and the proposal itself is not running any more.\<close>

definition settles :: "write_proposal \<Rightarrow> proposals \<Rightarrow> proposals \<Rightarrow> bool" where
  "settles p rows rows' \<longleftrightarrow> map wp_id rows' = map wp_id rows
     \<and> (\<forall>r. wp_id r \<noteq> wp_id p \<longrightarrow> r \<in> set rows' \<longleftrightarrow> r \<in> set rows)
     \<and> (\<forall>r \<in> set rows'. wp_id r = wp_id p \<longrightarrow> wp_status r \<noteq> Running)"

lemma settles_update:
  assumes "distinct (map wp_id rows)" "p \<in> set rows" "hit p" "\<And>r. hit r \<Longrightarrow> wp_id r = wp_id p"
    and "\<And>r. wp_id (f r) = wp_id r" "\<And>r. wp_status (f r) \<noteq> Running"
  shows "settles p rows (update_where hit f rows)"
proof -
  have hit: "hit r \<longleftrightarrow> wp_id r = wp_id p" if "r \<in> set rows" for r
  proof
    assume "wp_id r = wp_id p"
    then have "r = p" by (rule distinct_key_unique [OF assms(1) that assms(2)])
    then show "hit r" using assms(3) by simp
  qed (rule assms(4))
  have rows': "set (update_where hit f rows) = (\<lambda>r. if wp_id r = wp_id p then f r else r) ` set rows"
    unfolding set_update_where using hit by (intro image_cong refl) simp
  have "r \<in> set (update_where hit f rows) \<longleftrightarrow> r \<in> set rows" if "wp_id r \<noteq> wp_id p" for r
    unfolding rows' using that assms(5) by (auto simp: image_iff)
  moreover have "wp_status r \<noteq> Running" if "r \<in> set (update_where hit f rows)" "wp_id r = wp_id p" for r
    using that assms(5,6) unfolding rows' by auto
  ultimately show ?thesis using assms(5) by (simp add: settles_def table_simps)
qed

text \<open>The outcome of an execution: it settled the proposal, or crashed and left the rows to the handler of crashes.\<close>

definition outcome_ok :: "write_proposal \<Rightarrow> proposals \<Rightarrow> exec_answer \<times> exec_world \<Rightarrow> bool" where
  "outcome_ok p rows out \<longleftrightarrow> (if fst out = Crashed then xw_rows (snd out) = rows else settles p rows (xw_rows (snd out)))"

lemma finish_ok:
  assumes "distinct (map wp_id rows)" "p \<in> set rows" "wp_status p = Running" "xw_rows w = rows"
  shows "fst (finish_proposal st ev p code retry w) \<noteq> Crashed"
    "settles p rows (xw_rows (snd (finish_proposal st ev p code retry w)))"
    "outcome_ok p rows (finish_proposal st ev p code retry w)"
proof -
  have found: "fetchone (\<lambda>r. wp_id r = wp_id p) (xw_rows w) = Some p" using assms by (simp add: fetchone_key_iff)
  let ?next = "if retry \<and> wp_attempts p < nat (max 1 (ex_max_attempts st)) then Confirmed else Failed"
  let ?f = "\<lambda>r::write_proposal. r\<lparr>wp_status := ?next, wp_error := clip 100 code, wp_updated := ev_now ev\<rparr>"
  have rows': "xw_rows (snd (finish_proposal st ev p code retry w)) = update_where (\<lambda>r. wp_id r = wp_id p) ?f rows"
    using found assms(3,4) by (simp add: finish_proposal_def wp_fail_def Let_def)
  show settled: "settles p rows (xw_rows (snd (finish_proposal st ev p code retry w)))"
    unfolding rows' by (rule settles_update [OF assms(1,2)]) simp_all
  show "fst (finish_proposal st ev p code retry w) \<noteq> Crashed" by (simp add: finish_proposal_def split: prod.split)
  with settled show "outcome_ok p rows (finish_proposal st ev p code retry w)" by (simp add: outcome_ok_def)
qed

lemma store_result_ok:
  assumes "distinct (map wp_id rows)" "p \<in> set rows" "wp_status p = Running" "xw_rows w = rows"
  shows "outcome_ok p rows (store_result st ev p raw w)"
proof -
  note fin = finish_ok(3) [OF assms]
  have complete: "settles p rows (snd (wp_complete now (wp_id p) (wp_key p) ref sha rows))" for now ref sha
    unfolding wp_complete_def Let_def snd_conv by (rule settles_update [OF assms(1,2)]) (use assms(3) in simp_all)
  show ?thesis
  proof (cases "extract_artifact_payload (ev_repr ev) raw")
    case (Inl a)
    then show ?thesis using assms(4) by (simp add: store_result_def outcome_ok_def)
  next
    case (Inr found)
    show ?thesis
    proof (cases found)
      case None
      then show ?thesis using Inr fin by (simp add: store_result_def)
    next
      case (Some payload)
      show ?thesis
      proof (cases "save_artifact (ex_artifacts st) (ev_sha ev) (ev_repr ev) (ev_disk ev) (wp_user p) (wp_id p) payload (xw_files w)")
        case (Inl e)
        then show ?thesis using Inr Some fin assms(4)
          by (cases e) (simp_all add: store_result_def outcome_ok_def)
      next
        case (Inr out)
        obtain a files where "out = (a, files)" by fastforce
        then show ?thesis using Inr Some \<open>extract_artifact_payload (ev_repr ev) raw = Inr found\<close> assms(4)
            complete [of "ev_now ev" "ar_ref a" "ar_sha256 a"]
          by (cases "wp_complete (ev_now ev) (wp_id p) (wp_key p) (ar_ref a) (ar_sha256 a) rows")
            (simp add: store_result_def outcome_ok_def)
      qed
    qed
  qed
qed

lemma execute_ok:
  assumes "distinct (map wp_id rows)" "p \<in> set rows" "wp_status p = Running" "xw_rows w = rows"
  shows "outcome_ok p rows (execute_proposal st va ev p w)"
proof -
  note fin = finish_ok(3) [OF assms(1-3)] and store = store_result_ok [OF assms(1-3)]
  show ?thesis unfolding execute_proposal_def Let_def
    by (auto split: option.split sum.split prod.split call_outcome.split intro!: fin store simp: assms(4))
qed

lemma run_proposal_settles:
  assumes "distinct (map wp_id rows)" "p \<in> set rows" "wp_status p = Running" "xw_rows w = rows"
  shows "settles p rows (xw_rows (snd (run_proposal st va ev p w)))"
proof -
  obtain a w' where out: "execute_proposal st va ev p w = (a, w')" by fastforce
  have ok: "outcome_ok p rows (a, w')" using execute_ok [OF assms] by (simp flip: out)
  show ?thesis
  proof (cases "a = Crashed")
    case True
    then have "xw_rows w' = rows" using ok by (simp add: outcome_ok_def)
    then show ?thesis using finish_ok(2) [OF assms(1-3)] True out by (simp add: run_proposal_def)
  next
    case False
    then show ?thesis using ok out by (cases a) (simp_all add: run_proposal_def outcome_ok_def)
  qed
qed

lemma run_proposals_settle:
  assumes "distinct (map wp_id (xw_rows w))" "distinct (map wp_id ps)" "\<forall>p \<in> set ps. p \<in> set (xw_rows w) \<and> wp_status p = Running"
    and "\<forall>r \<in> set (xw_rows w). wp_status r = Running \<longrightarrow> r \<in> old \<union> set ps"
    and "r \<in> set (xw_rows (run_proposals st va env ps w))" "wp_status r = Running"
  shows "r \<in> old"
  using assms
proof (induction ps arbitrary: w)
  case (Cons p ps)
  define w1 where "w1 = snd (run_proposal st va (env p) p w)"
  have settled: "settles p (xw_rows w) (xw_rows w1)"
    unfolding w1_def using Cons.prems(1,3) by (intro run_proposal_settles) simp_all
  then have ids: "map wp_id (xw_rows w1) = map wp_id (xw_rows w)" by (simp add: settles_def)
  have rest: "q \<in> set (xw_rows w1) \<and> wp_status q = Running" if "q \<in> set ps" for q
  proof -
    have "wp_id q \<noteq> wp_id p" using Cons.prems(2) that by (auto simp: image_iff)
    then show ?thesis using Cons.prems(3) that settled by (simp add: settles_def)
  qed
  have running: "q \<in> old \<union> set ps" if "q \<in> set (xw_rows w1)" "wp_status q = Running" for q
  proof -
    have "wp_id q \<noteq> wp_id p" using settled that by (auto simp: settles_def)
    then have "q \<in> set (xw_rows w)" "q \<noteq> p" using settled that by (auto simp: settles_def)
    then show ?thesis using Cons.prems(4) that(2) by auto
  qed
  show ?case
  proof (rule Cons.IH [of w1])
    show "distinct (map wp_id (xw_rows w1))" using ids Cons.prems(1) by simp
    show "r \<in> set (xw_rows (run_proposals st va env ps w1))" using Cons.prems(5) by (simp add: w1_def)
  qed (use Cons.prems rest running in simp_all)
qed auto

text \<open>Claiming moves the claimed rows, and no others, to running.\<close>

lemma claim_loop_running:
  assumes "distinct (map wp_id rows)" "distinct pids" "wp_claim_loop now uuid pids rows = (claimed, rows')"
  shows "map wp_id rows' = map wp_id rows \<and> distinct (map wp_id claimed)
    \<and> (\<forall>p \<in> set claimed. p \<in> set rows' \<and> wp_status p = Running \<and> wp_id p \<in> set pids)
    \<and> (\<forall>r \<in> set rows'. wp_status r = Running \<longrightarrow> r \<in> set rows \<or> r \<in> set claimed)
    \<and> (\<forall>r \<in> set rows. wp_id r \<notin> set pids \<longrightarrow> r \<in> set rows')"
  using assms
proof (induction pids arbitrary: rows claimed)
  case (Cons pid pids)
  define hit where "hit = (\<lambda>r::write_proposal. wp_id r = pid \<and> wp_status r = Confirmed)"
  define f where "f = (\<lambda>r::write_proposal. r\<lparr>wp_status := Running, wp_attempts := wp_attempts r + 1,
      wp_key := (if wp_key r = '''' then uuid pid else wp_key r), wp_updated := now\<rparr>)"
  define rows1 where "rows1 = update_where hit f rows"
  define here where "here = (if rowcount hit rows > 0
      then (case fetchone (\<lambda>r. wp_id r = pid) rows1 of None \<Rightarrow> [] | Some r \<Rightarrow> [r]) else [])"
  obtain later where later: "wp_claim_loop now uuid pids rows1 = (later, rows')" "claimed = here @ later"
    using Cons.prems(3) by (auto simp: hit_def f_def rows1_def here_def Let_def split: prod.splits)
  have f: "wp_id (f r) = wp_id r" "wp_status (f r) = Running" for r by (simp_all add: f_def)
  have ids: "map wp_id rows1 = map wp_id rows" by (simp add: rows1_def table_simps f)
  have dist: "distinct (map wp_id rows1)" "distinct pids" "pid \<notin> set pids" using ids Cons.prems(1,2) by simp_all
  note IH = Cons.IH [OF dist(1,2) later(1)]
  have untouched: "r \<in> set rows1" if "r \<in> set rows" "wp_id r \<noteq> pid" for r
    using that by (auto simp: rows1_def hit_def intro: update_where_untouched)
  have here: "h \<in> set rows1 \<and> wp_status h = Running \<and> wp_id h = pid \<and> here = [h]" if "h \<in> set here" for h
  proof -
    have count: "rowcount hit rows > 0" using that by (cases "rowcount hit rows > 0") (simp_all add: here_def)
    then obtain q where q: "q \<in> set rows" "hit q" by (auto simp: rowcount_pos_iff)
    have "f q \<in> set rows1" "wp_id (f q) = pid" using q update_where_touched [of q rows hit f] by (simp_all add: rows1_def f hit_def)
    then have "fetchone (\<lambda>r. wp_id r = pid) rows1 = Some (f q)" using dist(1) by (simp add: fetchone_key_iff)
    then have "here = [f q]" using count by (simp add: here_def)
    with that \<open>f q \<in> set rows1\<close> \<open>wp_id (f q) = pid\<close> f show ?thesis by simp
  qed
  have new: "r \<in> set rows \<or> r \<in> set here" if mem: "r \<in> set rows1" "wp_status r = Running" for r
  proof (cases "r \<in> set rows")
    case False
    obtain q where q: "q \<in> set rows" "r = (if hit q then f q else q)" using mem(1) by (auto simp: rows1_def set_update_where)
    then have r: "hit q" "r = f q" using False by (auto split: if_splits)
    then have "wp_id r = pid" using f by (simp add: hit_def)
    then have "fetchone (\<lambda>r. wp_id r = pid) rows1 = Some r" using dist(1) mem(1) by (simp add: fetchone_key_iff)
    moreover have "rowcount hit rows > 0" using q(1) r(1) by (auto simp: rowcount_pos_iff)
    ultimately show ?thesis by (simp add: here_def)
  qed simp
  have "map wp_id rows' = map wp_id rows" using IH ids by simp
  moreover have "distinct (map wp_id claimed)"
  proof (cases here)
    case (Cons h hs)
    then have h: "here = [h]" "wp_id h = pid" using here [of h] by simp_all
    have "wp_id p \<noteq> pid" if "p \<in> set later" for p using IH that dist(3) by blast
    then have "pid \<notin> wp_id ` set later" by auto
    then show ?thesis using IH h unfolding later(2) by simp
  qed (use IH later(2) in simp)
  moreover have "p \<in> set rows' \<and> wp_status p = Running \<and> wp_id p \<in> set (pid # pids)" if "p \<in> set claimed" for p
  proof (cases "p \<in> set here")
    case True
    then show ?thesis using here IH dist(3) by auto
  next
    case False
    then have "p \<in> set later" using that unfolding later(2) by simp
    then show ?thesis using IH by simp
  qed
  moreover have "r \<in> set rows \<or> r \<in> set claimed" if "r \<in> set rows'" "wp_status r = Running" for r
    using that IH new later(2) by auto
  moreover have "r \<in> set rows'" if "r \<in> set rows" "wp_id r \<notin> set (pid # pids)" for r
    using that untouched IH by auto
  ultimately show ?case by blast
qed simp


section \<open>Concrete runs\<close>

definition demo_row :: server_row where
  "demo_row = \<lparr>sv_id = 1, sv_slug = ''cad'', sv_name = ''CAD tools'', sv_description = [], sv_transport = ''sse'',
     sv_url = ''https://tools.example/mcp'', sv_cipher = ''gAAAA'', sv_timeout = Some 30, sv_sse = None, sv_enabled = True,
     sv_scope = ''departments'', sv_departments = [7], sv_disabled = [''purge''], sv_write = [''edit'', ''purge''], sv_tags = [], sv_icon = [],
     sv_fingerprint = ''f'', sv_test_fingerprint = ''f'', sv_test_ok_at = ''t'', sv_test_error = [], sv_created_by = ''admin'',
     sv_updated_by = ''admin'', sv_created = ''t'', sv_updated = ''t''\<rparr>"

definition demo_registry :: registry where
  "demo_registry = \<lparr>rg_servers = [demo_row],
     rg_subscriptions = [\<lparr>su_user = 42, su_slug = ''cad'', su_write = True, su_created = ''t'', su_updated = ''t''\<rparr>], rg_next_id = 2\<rparr>"

definition demo_caller :: caller where
  "demo_caller = \<lparr>cl_user = Some 42, cl_department = Some (Dept_number 7)\<rparr>"

definition demo_binding :: "string \<Rightarrow> tool_binding" where
  "demo_binding tool = \<lparr>tb_server = policy_server demo_vault demo_row, tb_tool = tool, tb_safe = ''mcp__cad__'' @ tool,
     tb_read_only = (tool = ''view''), tb_write = (tool \<noteq> ''view'')\<rparr>"

definition no_cancel :: checkpoints where
  "no_cancel = \<lparr>cp_start = False, cp_after = False, cp_end = False\<rparr>"

definition view_call :: turn_op where
  "view_call = Turn_call (\<lambda>_. []) demo_caller (Some demo_registry) no_cancel (Returned (Plain_result (J_text ''ok'' None))) 10 (demo_binding ''view'')"

definition demo_turn :: "turn_op list" where
  "demo_turn = [view_call,
     Turn_propose demo_caller (Some demo_registry) no_cancel 10 0 ''p'' ''d'' (Some ''c'') ''h'' (demo_binding ''edit''), view_call]"

lemma demo_turn_run:
  "(\<lambda>(t, rows). (tn_calls t, tn_external t, tn_proposed t, map wp_status rows))
     (foldl (turn_step demo_executor demo_vault) (turn_start, []) demo_turn)
   = (2, [(''cad'', ''view'')], [''p''], [Proposed])"
  by code_simp

lemma demo_call_run:
  "(\<lambda>(a, t). (a, tn_external t)) (call_tool demo_executor demo_vault (\<lambda>_. []) demo_caller (Some demo_registry) no_cancel
      (Returned (Plain_result (J_text ''ok'' None))) 10 (demo_binding ''view'') turn_start)
   = (Tool_text [111, 107], [(''cad'', ''view'')])"
  by code_simp

text \<open>A confirmed write of user 42 to the tool edit, and the world a worker meets.\<close>

definition demo_writes :: "string \<Rightarrow> proposal_event list" where
  "demo_writes tool = [Create 0 ''p'' 42 ''cad'' tool ''d'' ''c'' ''h'' 60, Confirm (seconds 1) 42 ''p'']"

definition demo_answer :: tool_result where
  "demo_answer = Plain_result (J_obj [(''filename'', J_text ''a.pdf'' None), (''content_base64'', J_text ''YWJj'' None), (''sha256'', J_text ''ABC'' None)])"

definition demo_exec :: exec_env where
  "demo_exec = \<lparr>ev_now = seconds 3, ev_registry = demo_registry, ev_department = (\<lambda>_. Some (Dept_number 7)), ev_lookup = demo_lookup,
     ev_remote = (\<lambda>_. Inr [\<lparr>rt_name = ''view'', rt_read_only = True\<rparr>, \<lparr>rt_name = ''edit'', rt_read_only = False\<rparr>,
       \<lparr>rt_name = ''purge'', rt_read_only = False\<rparr>]),
     ev_arguments = (\<lambda>_. Some (J_obj [])), ev_call = (\<lambda>_ _. Returned demo_answer), ev_sha = (\<lambda>_. ''abc''), ev_repr = (\<lambda>_. []), ev_disk = True\<rparr>"

definition demo_pass :: "executor_settings \<Rightarrow> exec_env \<Rightarrow> string \<Rightarrow> bool \<times> exec_world" where
  "demo_pass st ev tool = process_write_proposals st demo_vault (seconds 2) (\<lambda>_. ''k'') 5 (\<lambda>_. ev)
     \<lparr>xw_rows = pw_rows (foldl (proposal_step 3) proposal_start (demo_writes tool)), xw_cache = [], xw_files = [], xw_calls = []\<rparr>"

lemma demo_pass_run:
  "(\<lambda>(worked, x). (worked, map wp_status (xw_rows x), map (\<lambda>(p, r). (wp_id p, wp_user p, sv_slug r)) (xw_calls x), xw_files x))
     (demo_pass demo_executor demo_exec ''edit'')
   = (True, [Completed], [(''p'', 42, ''cad'')], [(''/data/mcp/42/p/a.pdf'', [97, 98, 99])])"
  by code_simp

theorem turn_budget_witness:
  "case foldl (turn_step demo_executor demo_vault) (turn_start, []) demo_turn of
     (t, rows) \<Rightarrow> tn_external t = [(''cad'', ''view'')] \<and> tn_proposed t = [''p'']
       \<and> int (length (tn_external t) + length (tn_proposed t)) \<le> ex_calls_per_turn demo_executor"
proof -
  obtain t rows where run: "(t, rows) = foldl (turn_step demo_executor demo_vault) (turn_start, []) demo_turn"
    by (cases "foldl (turn_step demo_executor demo_vault) (turn_start, []) demo_turn") simp
  have "0 < ex_calls_per_turn demo_executor" by (simp add: demo_executor_def)
  from turn_budget [OF this run] demo_turn_run show ?thesis unfolding run [symmetric] by simp
qed




section \<open>Gates the worker does not repeat\<close>

text \<open>The worker executes a confirmed write although the tool has been disabled on the server since
  (\<open>purge\<close> is in the disabled list), although MCP as a whole is switched off, and although the department of the
  user can no longer be determined; a turn refuses each of these.\<close>

lemma worker_skips_gates:
  "map (\<lambda>(p, r). wp_tool p) (xw_calls (snd (demo_pass demo_executor demo_exec ''purge''))) = [''purge'']"
  "map (\<lambda>(p, r). wp_tool p) (xw_calls (snd (demo_pass (demo_executor\<lparr>ex_plugins := (ex_plugins demo_executor)\<lparr>ps_policy := demo_settings\<lparr>st_enabled := False\<rparr>\<rparr>\<rparr>) demo_exec ''edit''))) = [''edit'']"
  "map (\<lambda>(p, r). wp_tool p) (xw_calls (snd (demo_pass demo_executor (demo_exec\<lparr>ev_department := \<lambda>_. None\<rparr>) ''edit''))) = [''edit'']"
  by code_simp+

lemma turn_keeps_gates:
  "policy_rejection demo_executor demo_vault demo_caller (Some demo_registry) (demo_binding ''purge'') = Some ''policy''"
  "policy_rejection (demo_executor\<lparr>ex_plugins := (ex_plugins demo_executor)\<lparr>ps_policy := demo_settings\<lparr>st_enabled := False\<rparr>\<rparr>\<rparr>)
     demo_vault demo_caller (Some demo_registry) (demo_binding ''edit'') = Some ''policy''"
  "policy_rejection demo_executor demo_vault (demo_caller\<lparr>cl_department := None\<rparr>) (Some demo_registry) (demo_binding ''edit'') = Some ''policy''"
  by code_simp+

end
