(* ===== verification/Sandbox_Policy.thy ===== *)
theory Sandbox_Policy
  imports Prelude "HOL-Library.List_Lexorder" "HOL-Library.Char_ord"
begin

text \<open>
  Admission of sandbox tasks: the fail-closed policy (\<open>sandbox/policy.py\<close>), and the request and its identity
  (\<open>sandbox/models.py\<close>), with what every admitted request satisfies.

  Settings are a record.  A deadline is given as \<open>datetime.fromisoformat\<close> reads its text.  Parameters are JSON
  values; a number is the text \<open>json.dumps\<close> writes for it.  Strings are ASCII, so their UTF-8 length is their length.
\<close>

section \<open>Text checks\<close>

definition char_code :: "char \<Rightarrow> nat" where
  "char_code c = of_char c"

definition is_digit :: "char \<Rightarrow> bool" where
  "is_digit c \<longleftrightarrow> 48 \<le> char_code c \<and> char_code c \<le> 57"

definition is_alnum :: "char \<Rightarrow> bool" where
  "is_alnum c \<longleftrightarrow> is_digit c \<or> 65 \<le> char_code c \<and> char_code c \<le> 90 \<or> 97 \<le> char_code c \<and> char_code c \<le> 122"

definition is_hex :: "char \<Rightarrow> bool" where
  "is_hex c \<longleftrightarrow> is_digit c \<or> 97 \<le> char_code c \<and> char_code c \<le> 102"

text \<open>Python's \<open>sub in text\<close> and \<open>removeprefix\<close>.\<close>

fun contains_text :: "string \<Rightarrow> string \<Rightarrow> bool" where
  "contains_text sub [] \<longleftrightarrow> sub = []"
| "contains_text sub (c # cs) \<longleftrightarrow> take (length sub) (c # cs) = sub \<or> contains_text sub cs"

definition remove_prefix :: "string \<Rightarrow> string \<Rightarrow> string" where
  "remove_prefix p s = (if take (length p) s = p then drop (length p) s else s)"

definition REF_RE :: "string \<Rightarrow> bool" where
  "REF_RE s \<longleftrightarrow> (case s of [] \<Rightarrow> False
     | c # cs \<Rightarrow> is_alnum c \<and> length cs \<le> 255 \<and> list_all (\<lambda>x. is_alnum x \<or> x \<in> set ''._:/-'') cs)"

definition ARTIFACT_ID_RE :: "string \<Rightarrow> bool" where
  "ARTIFACT_ID_RE s \<longleftrightarrow> (case s of [] \<Rightarrow> False
     | c # cs \<Rightarrow> is_alnum c \<and> length cs \<le> 255 \<and> list_all (\<lambda>x. is_alnum x \<or> x \<in> set ''._:-'') cs)"

definition hex_digest :: "string \<Rightarrow> bool" where
  "hex_digest s \<longleftrightarrow> length s = 64 \<and> list_all is_hex s"

definition DIGEST_RE :: "string \<Rightarrow> bool" where
  "DIGEST_RE s \<longleftrightarrow> (let t = py_lower s in hex_digest t \<or> take 7 t = ''sha256:'' \<and> hex_digest (drop 7 t))"

section \<open>Settings and requests\<close>

record sandbox_settings =
  sb_enabled :: bool
  sb_backend :: string
  sb_runner_url :: string
  sb_auth_ref :: string
  sb_require_attestation :: bool
  sb_attestation :: string
  sb_profile_digest :: string
  sb_dynamic_install :: string
  sb_default_network :: string
  sb_max_argument_chars :: int
  sb_task_timeout :: int
  sb_lease_seconds :: int
  sb_max_concurrent :: int
  sb_max_per_user :: int
  sb_max_per_department :: int

datatype param =
    P_null
  | P_bool bool
  | P_number string
  | P_text string
  | P_list "param list"
  | P_dict "(string \<times> param) list"
  | P_foreign

datatype deadline_text = No_deadline | Bad_deadline | Naive_deadline | Deadline time

record task_spec =
  sp_key :: string
  sp_owner :: string
  sp_department :: string
  sp_bundle :: string
  sp_digest :: string
  sp_profile :: string
  sp_policy :: string
  sp_capability_hash :: string
  sp_kind :: string
  sp_network :: string
  sp_capabilities :: "string list"
  sp_inputs :: "string list"
  sp_parameters :: param
  sp_deadline :: deadline_text
  sp_skill :: string
  sp_skill_digest :: string

datatype sandbox_error =
    Sandbox_disabled
  | Policy_error
  | Bad_value
  | Task_not_found
  | Task_conflict
  | Idempotency_conflict
  | Invalid_transition
  | Lease_lost
  | Task_terminal
  | Integrity_error

text \<open>Set and sort, as \<open>sorted({...})\<close>.\<close>

definition sorted_unique :: "string list \<Rightarrow> string list" where
  "sorted_unique xs = sort (remdups xs)"

text \<open>The identity of a request: what is hashed, without the idempotency key.\<close>

definition fingerprint_payload :: "task_spec \<Rightarrow> task_spec" where
  "fingerprint_payload spec = spec\<lparr>sp_key := [], sp_capabilities := sorted_unique (sp_capabilities spec)\<rparr>"

definition fingerprint :: "(task_spec \<Rightarrow> string) \<Rightarrow> task_spec \<Rightarrow> string" where
  "fingerprint sha spec = sha (fingerprint_payload spec)"

section \<open>Admission policy\<close>

definition DANGEROUS_KEYS :: "string list" where
  "DANGEROUS_KEYS =
     [''command'', ''cmd'', ''shell'', ''script'', ''docker_args'', ''dockerargs'', ''volume'', ''volumes'', ''host_path'', ''hostpath'',
      ''cwd'', ''env'', ''environment'', ''install'', ''pip'', ''npm'', ''secret'', ''token'', ''password'', ''api_key'']"

definition ALLOWED_CAPABILITIES :: "string list" where
  "ALLOWED_CAPABILITIES = [''sandbox.execute'', ''sandbox.network'', ''sandbox.internal_data'', ''sandbox.write_artifact'']"

definition truthy_text :: "string \<Rightarrow> bool" where
  "truthy_text s \<longleftrightarrow> py_lower (py_strip s) \<in> set [''1'', ''true'', ''yes'', ''on'']"

definition require_execution_enabled :: "sandbox_settings \<Rightarrow> sandbox_error option" where
  "require_execution_enabled st =
     (if \<not> sb_enabled st then Some Sandbox_disabled
      else if py_lower (if sb_backend st = [] then ''disabled'' else sb_backend st) \<noteq> ''runner_api'' then Some Policy_error
      else if py_strip (sb_runner_url st) = [] then Some Policy_error
      else if py_strip (sb_auth_ref st) = [] then Some Policy_error
      else if sb_require_attestation st \<and> \<not> REF_RE (py_strip (sb_attestation st)) then Some Policy_error
      else if sb_require_attestation st \<and> \<not> hex_digest (remove_prefix ''sha256:'' (py_lower (py_strip (sb_profile_digest st)))) then Some Policy_error
      else if truthy_text (sb_dynamic_install st) then Some Policy_error
      else None)"

definition check_ref :: "string \<Rightarrow> sandbox_error + string" where
  "check_ref value =
     (let s = py_strip value in
      if s = [] \<or> \<not> REF_RE s \<or> contains_text ''..'' s \<or> contains_text ''//'' s \<or> list_ex (\<lambda>c. char_code c < 32) s
      then Inl Policy_error else Inr s)"

definition normal_key :: "string \<Rightarrow> string" where
  "normal_key k = map (\<lambda>c. if c = CHR ''-'' then CHR ''_'' else c) (py_lower (py_strip k))"

fun check_parameters :: "param \<Rightarrow> bool" where
  "check_parameters (P_dict d) = list_all (\<lambda>(k, v). normal_key k \<notin> set DANGEROUS_KEYS \<and> check_parameters v) d"
| "check_parameters (P_list vs) = list_all check_parameters vs"
| "check_parameters P_foreign = False"
| "check_parameters _ = True"

definition check_deadline :: "sandbox_settings \<Rightarrow> time \<Rightarrow> deadline_text \<Rightarrow> sandbox_error + deadline_text" where
  "check_deadline st now d =
     (case d of
        No_deadline \<Rightarrow> Inr No_deadline
      | Deadline t \<Rightarrow>
          if t \<le> now then Inl Policy_error
          else if t > now + seconds (max 1 (sb_task_timeout st)) then Inl Policy_error
          else Inr (Deadline t)
      | _ \<Rightarrow> Inl Policy_error)"

text \<open>\<open>json.dumps\<close> with sorted keys and compact separators.\<close>

definition hex_char :: "nat \<Rightarrow> char" where
  "hex_char n = char_of (if n < 10 then 48 + n else 87 + n)"

definition json_escape :: "char \<Rightarrow> string" where
  "json_escape c =
     (let n = char_code c in
      if n = 34 \<or> n = 92 then [CHR 0x5C, c]
      else if n = 8 then [CHR 0x5C, CHR ''b''] else if n = 9 then [CHR 0x5C, CHR ''t'']
      else if n = 10 then [CHR 0x5C, CHR ''n''] else if n = 12 then [CHR 0x5C, CHR ''f'']
      else if n = 13 then [CHR 0x5C, CHR ''r'']
      else if n < 32 then [CHR 0x5C, CHR ''u'', CHR ''0'', CHR ''0'', hex_char (n div 16), hex_char (n mod 16)]
      else [c])"

definition json_string :: "string \<Rightarrow> string" where
  "json_string s = CHR 0x22 # concat (map json_escape s) @ [CHR 0x22]"

fun join_comma :: "string list \<Rightarrow> string" where
  "join_comma [] = []"
| "join_comma [x] = x"
| "join_comma (x # y # ys) = x @ CHR '','' # join_comma (y # ys)"

fun json_dumps :: "param \<Rightarrow> string" where
  "json_dumps P_null = ''null''"
| "json_dumps (P_bool b) = (if b then ''true'' else ''false'')"
| "json_dumps (P_number n) = n"
| "json_dumps (P_text s) = json_string s"
| "json_dumps (P_list vs) = CHR ''['' # join_comma (map json_dumps vs) @ '']''"
| "json_dumps (P_dict d) =
     CHR ''{'' # join_comma (map (\<lambda>(k, t). json_string k @ CHR '':'' # t) (sort_key fst (map (\<lambda>(k, v). (k, json_dumps v)) d))) @ ''}''"
| "json_dumps P_foreign = []"

definition check_skill :: "string \<Rightarrow> string \<Rightarrow> sandbox_error + string \<times> string" where
  "check_skill skill digest =
     (case (if skill = [] then Inr [] else check_ref skill) of
        Inl e \<Rightarrow> Inl e
      | Inr skill_ref \<Rightarrow>
          (let skill_digest = remove_prefix ''sha256:'' (py_lower digest) in
           if (skill_ref \<noteq> []) \<noteq> (skill_digest \<noteq> []) \<or> (skill_digest \<noteq> [] \<and> \<not> hex_digest skill_digest) then Inl Policy_error
           else Inr (skill_ref, skill_digest)))"

definition check_capabilities :: "sandbox_settings \<Rightarrow> string \<Rightarrow> string list \<Rightarrow> sandbox_error + string list" where
  "check_capabilities st network_ref caps =
     (let capabilities = sorted_unique (filter (\<lambda>s. s \<noteq> []) (map py_strip caps)) in
      if \<not> set capabilities \<subseteq> set ALLOWED_CAPABILITIES then Inl Policy_error
      else if ''sandbox.execute'' \<notin> set capabilities then Inl Policy_error
      else if network_ref \<noteq> [] \<and> (case check_ref network_ref of Inl _ \<Rightarrow> True | Inr _ \<Rightarrow> False) then Inl Policy_error
      else if network_ref \<noteq> [] \<and> ''sandbox.network'' \<notin> set capabilities then Inl Policy_error
      else if py_lower (sb_default_network st) \<noteq> ''none'' \<and> network_ref = [] then Inl Policy_error
      else Inr capabilities)"

definition check_inputs :: "string list \<Rightarrow> sandbox_error + string list" where
  "check_inputs ids =
     (let artifact_ids = map py_strip ids in
      if \<not> distinct artifact_ids then Inl Policy_error
      else if \<not> list_all ARTIFACT_ID_RE artifact_ids then Inl Policy_error
      else Inr artifact_ids)"

definition or_else :: "'e + 'a \<Rightarrow> ('a \<Rightarrow> 'e + 'b) \<Rightarrow> 'e + 'b" where
  "or_else r f = (case r of Inl e \<Rightarrow> Inl e | Inr x \<Rightarrow> f x)"

definition validate_task_spec :: "sandbox_settings \<Rightarrow> time \<Rightarrow> task_spec \<Rightarrow> sandbox_error + task_spec" where
  "validate_task_spec st now spec =
     (case require_execution_enabled st of
        Some e \<Rightarrow> Inl e
      | None \<Rightarrow>
          (let kind = (if sp_kind spec = [] then ''task'' else sp_kind spec) in
           if kind \<notin> {''task'', ''session''} then Inl Policy_error
           else or_else (check_ref (sp_key spec)) (\<lambda>key.
           or_else (check_skill (sp_skill spec) (sp_skill_digest spec)) (\<lambda>(skill, skill_digest).
           or_else (check_ref (sp_owner spec)) (\<lambda>owner.
           or_else (check_ref (sp_department spec)) (\<lambda>department.
           or_else (check_ref (sp_bundle spec)) (\<lambda>bundle.
           or_else (check_ref (sp_profile spec)) (\<lambda>profile.
           let digest = remove_prefix ''sha256:'' (py_lower (py_strip (sp_digest spec))) in
           if \<not> DIGEST_RE digest then Inl Policy_error
           else or_else (check_ref (sp_policy spec)) (\<lambda>policy.
           let capability_hash = py_strip (sp_capability_hash spec); network_ref = py_strip (sp_network spec) in
           if capability_hash \<noteq> [] \<and> \<not> REF_RE capability_hash then Inl Policy_error
           else or_else (check_capabilities st network_ref (sp_capabilities spec)) (\<lambda>capabilities.
           or_else (check_inputs (sp_inputs spec)) (\<lambda>inputs.
           if \<not> check_parameters (sp_parameters spec) then Inl Policy_error
           else if int (length (json_dumps (sp_parameters spec))) > max 1 (sb_max_argument_chars st) then Inl Policy_error
           else or_else (check_deadline st now (sp_deadline spec)) (\<lambda>deadline.
           Inr \<lparr>sp_key = key, sp_owner = owner, sp_department = department, sp_bundle = bundle, sp_digest = digest,
                sp_profile = profile, sp_policy = policy, sp_capability_hash = capability_hash, sp_kind = kind, sp_network = network_ref,
                sp_capabilities = capabilities, sp_inputs = inputs, sp_parameters = sp_parameters spec, sp_deadline = deadline,
                sp_skill = skill, sp_skill_digest = skill_digest\<rparr>))))))))))))"

section \<open>What an admitted request satisfies\<close>

lemma or_else_Inr: "or_else r f = Inr y \<longleftrightarrow> (\<exists>x. r = Inr x \<and> f x = Inr y)"
  by (simp add: or_else_def split: sum.splits)

lemma guard_Inr: "(if b then Inl e else r) = Inr y \<longleftrightarrow> \<not> b \<and> r = Inr y"
  by simp

text \<open>The keys of a parameter value at every depth.\<close>

fun param_keys :: "param \<Rightarrow> string list" where
  "param_keys (P_dict d) = concat (map (\<lambda>(k, v). k # param_keys v) d)"
| "param_keys (P_list vs) = concat (map param_keys vs)"
| "param_keys _ = []"

lemma no_dangerous_key: "check_parameters p \<Longrightarrow> k \<in> set (param_keys p) \<Longrightarrow> normal_key k \<notin> set DANGEROUS_KEYS"
proof (induction p rule: check_parameters.induct)
  case (1 d)
  from 1(3) obtain k0 v where kv: "(k0, v) \<in> set d" "k = k0 \<or> k \<in> set (param_keys v)" by auto
  from 1(2) kv(1) have ok: "normal_key k0 \<notin> set DANGEROUS_KEYS" "check_parameters v" by (fastforce simp: list_all_iff)+
  from kv(2) show ?case using ok(1) 1(1) [OF kv(1) refl ok(2)] by metis
next
  case (2 vs)
  from 2(3) obtain v where v: "v \<in> set vs" "k \<in> set (param_keys v)" by auto
  from 2(2) v(1) have "check_parameters v" by (simp add: list_all_iff)
  from 2(1) [OF v(1) this v(2)] show ?case .
qed simp_all

definition bounded_ref :: "string \<Rightarrow> bool" where
  "bounded_ref s \<longleftrightarrow> REF_RE s \<and> \<not> contains_text ''..'' s \<and> \<not> contains_text ''//'' s"

lemma check_ref_bounded: "check_ref v = Inr s \<Longrightarrow> bounded_ref s"
  unfolding check_ref_def bounded_ref_def Let_def by (simp split: if_splits)

lemma check_capabilities_ok:
  assumes "check_capabilities st net caps = Inr cs"
  shows "set cs \<subseteq> set ALLOWED_CAPABILITIES" "''sandbox.execute'' \<in> set cs" "net \<noteq> [] \<Longrightarrow> ''sandbox.network'' \<in> set cs"
    "py_lower (sb_default_network st) = ''none'' \<or> net \<noteq> []"
  using assms unfolding check_capabilities_def Let_def by (simp_all only: split: if_splits sum.splits) simp_all

lemma check_deadline_ok:
  "check_deadline st now d = Inr d' \<Longrightarrow>
   d' = No_deadline \<or> (\<exists>t. d' = Deadline t \<and> now < t \<and> t \<le> now + seconds (max 1 (sb_task_timeout st)))"
  by (auto simp: check_deadline_def not_le not_less split: deadline_text.splits if_splits)

lemma check_inputs_ok: "check_inputs ids = Inr ids' \<Longrightarrow> distinct ids' \<and> list_all ARTIFACT_ID_RE ids'"
  by (simp add: check_inputs_def Let_def split: if_splits)

lemma validated:
  assumes "validate_task_spec st now spec = Inr n"
  shows "require_execution_enabled st = None"
    "check_ref (sp_key spec) = Inr (sp_key n)" "check_ref (sp_owner spec) = Inr (sp_owner n)"
    "check_ref (sp_department spec) = Inr (sp_department n)" "check_ref (sp_bundle spec) = Inr (sp_bundle n)"
    "check_ref (sp_profile spec) = Inr (sp_profile n)" "check_ref (sp_policy spec) = Inr (sp_policy n)"
    "DIGEST_RE (sp_digest n)" "check_capabilities st (sp_network n) (sp_capabilities spec) = Inr (sp_capabilities n)"
    "check_inputs (sp_inputs spec) = Inr (sp_inputs n)" "sp_parameters n = sp_parameters spec" "check_parameters (sp_parameters spec)"
    "int (length (json_dumps (sp_parameters spec))) \<le> max 1 (sb_max_argument_chars st)"
    "check_deadline st now (sp_deadline spec) = Inr (sp_deadline n)"
proof -
  show none: "require_execution_enabled st = None" using assms unfolding validate_task_spec_def by (cases "require_execution_enabled st") simp_all
  note run = assms [unfolded validate_task_spec_def Let_def none option.case guard_Inr or_else_Inr split_paired_Ex prod.case sum.inject not_not not_less]
  show "check_ref (sp_key spec) = Inr (sp_key n)" "check_ref (sp_owner spec) = Inr (sp_owner n)"
    "check_ref (sp_department spec) = Inr (sp_department n)" "check_ref (sp_bundle spec) = Inr (sp_bundle n)"
    "check_ref (sp_profile spec) = Inr (sp_profile n)" "check_ref (sp_policy spec) = Inr (sp_policy n)"
    "DIGEST_RE (sp_digest n)" "check_capabilities st (sp_network n) (sp_capabilities spec) = Inr (sp_capabilities n)"
    "check_inputs (sp_inputs spec) = Inr (sp_inputs n)" "sp_parameters n = sp_parameters spec" "check_parameters (sp_parameters spec)"
    "int (length (json_dumps (sp_parameters spec))) \<le> max 1 (sb_max_argument_chars st)"
    "check_deadline st now (sp_deadline spec) = Inr (sp_deadline n)"
    using run by (elim exE conjE; hypsubst; simp only: task_spec.simps)+
qed

lemma execution_enabledD:
  assumes "require_execution_enabled st = None"
  shows "sb_enabled st" "py_lower (sb_backend st) = ''runner_api''" "py_strip (sb_runner_url st) \<noteq> []" "py_strip (sb_auth_ref st) \<noteq> []"
    "sb_require_attestation st \<Longrightarrow> REF_RE (py_strip (sb_attestation st))" "\<not> truthy_text (sb_dynamic_install st)"
proof -
  have "py_lower ''disabled'' \<noteq> ''runner_api''" by code_simp
  with assms show "sb_enabled st" "py_lower (sb_backend st) = ''runner_api''" "py_strip (sb_runner_url st) \<noteq> []" "py_strip (sb_auth_ref st) \<noteq> []"
    "sb_require_attestation st \<Longrightarrow> REF_RE (py_strip (sb_attestation st))" "\<not> truthy_text (sb_dynamic_install st)"
    unfolding require_execution_enabled_def by (simp_all split: if_splits)
qed


section \<open>Concrete requests\<close>

definition demo_sandbox :: sandbox_settings where
  "demo_sandbox = \<lparr>sb_enabled = True, sb_backend = ''runner_api'', sb_runner_url = ''https://runner'', sb_auth_ref = ''vault:runner'',
     sb_require_attestation = False, sb_attestation = [], sb_profile_digest = [], sb_dynamic_install = [], sb_default_network = ''none'',
     sb_max_argument_chars = 100, sb_task_timeout = 300, sb_lease_seconds = 60, sb_max_concurrent = 2, sb_max_per_user = 1,
     sb_max_per_department = 2\<rparr>"

definition demo_task :: "string \<Rightarrow> string \<Rightarrow> task_spec" where
  "demo_task key owner = \<lparr>sp_key = key, sp_owner = owner, sp_department = ''d1'', sp_bundle = ''bundle:1'', sp_digest = replicate 64 CHR ''a'',
     sp_profile = ''profile'', sp_policy = ''hash'', sp_capability_hash = [], sp_kind = [], sp_network = [], sp_capabilities = [''sandbox.execute''],
     sp_inputs = [], sp_parameters = P_dict [(''mode'', P_text ''fast'')], sp_deadline = No_deadline, sp_skill = [], sp_skill_digest = []\<rparr>"


text \<open>The digest pattern still allows a prefix after one was removed: a doubled prefix is admitted, and the stored digest
  keeps one of the two, unlike every other stored digest.\<close>

lemma doubled_prefix_admitted:
  "case validate_task_spec demo_sandbox 0 ((demo_task ''k1'' ''u1'')\<lparr>sp_digest := ''sha256:sha256:'' @ replicate 64 CHR ''a''\<rparr>) of
     Inl _ \<Rightarrow> False | Inr n \<Rightarrow> sp_digest n = ''sha256:'' @ replicate 64 CHR ''a''"
  by code_simp

end
