(* ===== verification/Sandbox_Grants.thy ===== *)
theory Sandbox_Grants
  imports Sandbox_Policy
begin

text \<open>
  The capability grants of users and departments: \<open>SandboxAuthorizationStore\<close> (\<open>sandbox/authorization.py\<close>), and what they
  mean: the effective capabilities of a request as a function of the grants and revocations that were made.
\<close>

section \<open>The store\<close>

definition SANDBOX_CAPABILITIES :: "string list" where
  "SANDBOX_CAPABILITIES = [''sandbox.execute'', ''sandbox.network'', ''sandbox.internal_data'', ''sandbox.write_artifact'']"

definition GATEWAY_CAPABILITIES :: "string list" where
  "GATEWAY_CAPABILITIES = [''external_tool.invoke'', ''external_tool.write'']"

definition AUTHORIZED_CAPABILITIES :: "string list" where
  "AUTHORIZED_CAPABILITIES = SANDBOX_CAPABILITIES @ GATEWAY_CAPABILITIES"

definition PRINCIPAL_TYPES :: "string list" where
  "PRINCIPAL_TYPES = [''user'', ''department'']"

record grant_row =
  gr_type :: string
  gr_principal :: string
  gr_capability :: string
  gr_enabled :: bool
  gr_by :: string
  gr_at :: time

type_synonym grants = "grant_row list"

definition check_principal :: "string \<Rightarrow> string \<Rightarrow> (string \<times> string) option" where
  "check_principal principal_type principal_id =
     (let kind = py_lower (py_strip principal_type); value = py_strip principal_id in
      if kind \<notin> set PRINCIPAL_TYPES \<or> value = [] \<or> length value > 128 \<or> list_ex (\<lambda>c. c = CHR ''/'' \<or> c = CHR 0x5C \<or> c = CHR 0x00) value
      then None else Some (kind, value))"

definition capability_names :: "string list \<Rightarrow> string list" where
  "capability_names values = sorted_unique (filter (\<lambda>s. s \<noteq> []) (map py_strip values))"

definition check_names :: "string list \<Rightarrow> string list option" where
  "check_names values =
     (if set (capability_names values) \<subseteq> set AUTHORIZED_CAPABILITIES then Some (capability_names values) else None)"

definition has_key :: "string \<times> string \<Rightarrow> string \<Rightarrow> grant_row \<Rightarrow> bool" where
  "has_key p c r \<longleftrightarrow> (gr_type r, gr_principal r) = p \<and> gr_capability r = c"

definition upsert_grant :: "string \<times> string \<Rightarrow> string \<Rightarrow> time \<Rightarrow> grants \<Rightarrow> string \<Rightarrow> grants" where
  "upsert_grant p actor now rows c =
     (if list_ex (has_key p c) rows
      then update_where (has_key p c) (\<lambda>r. r\<lparr>gr_enabled := True, gr_by := clip 128 actor, gr_at := now\<rparr>) rows
      else rows @ [\<lparr>gr_type = fst p, gr_principal = snd p, gr_capability = c, gr_enabled = True, gr_by = clip 128 actor, gr_at = now\<rparr>])"

definition disable_grant :: "string \<times> string \<Rightarrow> string \<Rightarrow> time \<Rightarrow> grants \<Rightarrow> string \<Rightarrow> grants" where
  "disable_grant p actor now rows c =
     update_where (has_key p c) (\<lambda>r. r\<lparr>gr_enabled := False, gr_by := clip 128 actor, gr_at := now\<rparr>) rows"

definition list_for :: "string \<times> string \<Rightarrow> grants \<Rightarrow> string list" where
  "list_for p rows = sort (map gr_capability (filter (\<lambda>r. (gr_type r, gr_principal r) = p \<and> gr_enabled r) rows))"

definition has_explicit_rows :: "string \<times> string \<Rightarrow> grants \<Rightarrow> bool" where
  "has_explicit_rows p rows \<longleftrightarrow> list_ex (\<lambda>r. (gr_type r, gr_principal r) = p) rows"

definition grant :: "string \<Rightarrow> string \<Rightarrow> string list \<Rightarrow> string \<Rightarrow> time \<Rightarrow> grants \<Rightarrow> (string list \<times> grants) option" where
  "grant kind who caps actor now rows =
     (case (check_principal kind who, check_names caps) of
        (Some p, Some names) \<Rightarrow> (let rows' = foldl (upsert_grant p actor now) rows names in Some (list_for p rows', rows'))
      | _ \<Rightarrow> None)"

definition revoke :: "string \<Rightarrow> string \<Rightarrow> string list \<Rightarrow> string \<Rightarrow> time \<Rightarrow> grants \<Rightarrow> (string list \<times> grants) option" where
  "revoke kind who caps actor now rows =
     (case (check_principal kind who, check_names caps) of
        (Some p, Some names) \<Rightarrow> (let rows' = foldl (disable_grant p actor now) rows names in Some (list_for p rows', rows'))
      | _ \<Rightarrow> None)"

text \<open>The rows of one principal of a request, where it is given: whether there are any, and what they grant;
  \<open>None\<close> for an identifier that is refused.\<close>

definition principal_grants :: "string \<Rightarrow> string \<Rightarrow> grants \<Rightarrow> (bool \<times> string list) option" where
  "principal_grants kind who rows =
     (if py_strip who = [] then Some (False, [])
      else map_option (\<lambda>p. (has_explicit_rows p rows, list_for p rows)) (check_principal kind (py_strip who)))"

definition nonempty_names :: "string list \<Rightarrow> string set" where
  "nonempty_names values = {s \<in> set (map py_strip values). s \<noteq> []}"

definition effective_capabilities :: "string list \<Rightarrow> string \<Rightarrow> string \<Rightarrow> string list \<Rightarrow> grants \<Rightarrow> string set option" where
  "effective_capabilities configured user department context rows =
     (let deployment = nonempty_names configured \<inter> set AUTHORIZED_CAPABILITIES in
      case principal_grants ''user'' user rows of
        None \<Rightarrow> None
      | Some (explicit_user, granted_user) \<Rightarrow>
          (case principal_grants ''department'' department rows of
             None \<Rightarrow> None
           | Some (explicit_dept, granted_dept) \<Rightarrow>
               Some (if explicit_user \<or> explicit_dept then deployment \<inter> (set granted_user \<union> set granted_dept)
                     else if nonempty_names context = {} then deployment
                     else deployment \<inter> nonempty_names context)))"

section \<open>Histories\<close>

datatype grant_op = Grant_op string string "string list" string time | Revoke_op string string "string list" string time

fun grant_step :: "grants \<Rightarrow> grant_op \<Rightarrow> grants" where
  "grant_step rows (Grant_op kind who caps actor now) = (case grant kind who caps actor now rows of None \<Rightarrow> rows | Some (_, rows') \<Rightarrow> rows')"
| "grant_step rows (Revoke_op kind who caps actor now) = (case revoke kind who caps actor now rows of None \<Rightarrow> rows | Some (_, rows') \<Rightarrow> rows')"

text \<open>The meaning of a history for one principal and capability: \<open>None\<close> as long as it was never granted, then
  whether the last operation on it granted it.\<close>

definition concerns :: "string \<Rightarrow> string \<Rightarrow> string list \<Rightarrow> string \<times> string \<Rightarrow> string \<Rightarrow> bool" where
  "concerns kind who caps p c \<longleftrightarrow>
     check_principal kind who = Some p \<and> set (capability_names caps) \<subseteq> set AUTHORIZED_CAPABILITIES \<and> c \<in> set (capability_names caps)"

fun status_step :: "string \<times> string \<Rightarrow> string \<Rightarrow> bool option \<Rightarrow> grant_op \<Rightarrow> bool option" where
  "status_step p c s (Grant_op kind who caps actor now) = (if concerns kind who caps p c then Some True else s)"
| "status_step p c s (Revoke_op kind who caps actor now) = (if concerns kind who caps p c then map_option (\<lambda>_. False) s else s)"

definition status_of :: "grant_op list \<Rightarrow> string \<times> string \<Rightarrow> string \<Rightarrow> bool option" where
  "status_of ops p c = foldl (status_step p c) None ops"

text \<open>The table and its meaning.\<close>

definition row_status :: "grants \<Rightarrow> string \<times> string \<Rightarrow> string \<Rightarrow> bool option" where
  "row_status rows p c = map_option gr_enabled (fetchone (has_key p c) rows)"

lemma has_key_iff: "has_key p c r \<longleftrightarrow> ((gr_type r, gr_principal r), gr_capability r) = (p, c)"
  by (simp add: has_key_def)

lemma row_status_upsert:
  "row_status (upsert_grant p actor now rows c) q d = (if (q, d) = (p, c) then Some True else row_status rows q d)"
proof (cases "list_ex (has_key p c) rows")
  case True
  have keep: "has_key q d (r\<lparr>gr_enabled := b, gr_by := x, gr_at := y\<rparr>) = has_key q d r" for r b x y
    by (simp add: has_key_def)
  obtain r where "fetchone (has_key p c) rows = Some r"
    using True by (cases "fetchone (has_key p c) rows") (auto simp: fetchone_None_iff list_ex_iff)
  then show ?thesis using True
    by (auto simp: upsert_grant_def row_status_def fetchone_update_where keep has_key_iff option.map_comp comp_def
        dest!: fetchone_SomeD intro: map_option_cong)
next
  case False
  have "fetchone (has_key p c) rows = None" using False by (auto simp: fetchone_None_iff list_ex_iff)
  then show ?thesis using False
    by (auto simp: upsert_grant_def row_status_def fetchone_append has_key_def split: option.split)
qed

lemma row_status_disable:
  "row_status (disable_grant p actor now rows c) q d =
     (if (q, d) = (p, c) then map_option (\<lambda>_. False) (row_status rows q d) else row_status rows q d)"
proof -
  have keep: "has_key q d (r\<lparr>gr_enabled := b, gr_by := x, gr_at := y\<rparr>) = has_key q d r" for r b x y
    by (simp add: has_key_def)
  show ?thesis
    by (auto simp: disable_grant_def row_status_def fetchone_update_where keep has_key_iff option.map_comp comp_def
        dest!: fetchone_SomeD intro!: map_option_cong)
qed

lemma row_status_upserts:
  "row_status (foldl (upsert_grant p actor now) rows cs) q d = (if q = p \<and> d \<in> set cs then Some True else row_status rows q d)"
  by (induction cs arbitrary: rows) (auto simp: row_status_upsert)

lemma row_status_disables:
  "row_status (foldl (disable_grant p actor now) rows cs) q d =
     (if q = p \<and> d \<in> set cs then map_option (\<lambda>_. False) (row_status rows q d) else row_status rows q d)"
  by (induction cs arbitrary: rows) (auto simp: row_status_disable option.map_comp comp_def)

lemma row_status_step: "row_status (grant_step rows op) p c = status_step p c (row_status rows p c) op"
proof (cases op)
  case (Grant_op kind who caps actor now)
  then show ?thesis
    by (auto simp: grant_def check_names_def concerns_def Let_def row_status_upserts split: option.split)
next
  case (Revoke_op kind who caps actor now)
  then show ?thesis
    by (auto simp: revoke_def check_names_def concerns_def Let_def row_status_disables split: option.split)
qed

lemma row_status_run: "row_status (foldl grant_step rows ops) p c = foldl (status_step p c) (row_status rows p c) ops"
  by (induction ops arbitrary: rows) (simp_all add: row_status_step)

text \<open>The primary key of the table is unique.\<close>

definition grant_key :: "grant_row \<Rightarrow> (string \<times> string) \<times> string" where
  "grant_key r = ((gr_type r, gr_principal r), gr_capability r)"

lemma keys_upsert: "distinct (map grant_key rows) \<Longrightarrow> distinct (map grant_key (upsert_grant p actor now rows c))"
  by (auto simp: upsert_grant_def table_simps grant_key_def has_key_def list_ex_iff)

lemma keys_disable: "map grant_key (disable_grant p actor now rows c) = map grant_key rows"
  by (simp add: disable_grant_def table_simps grant_key_def)

lemma keys_folds:
  "distinct (map grant_key rows) \<Longrightarrow> distinct (map grant_key (foldl (upsert_grant p actor now) rows cs))"
  "distinct (map grant_key rows) \<Longrightarrow> distinct (map grant_key (foldl (disable_grant p actor now) rows cs))"
  by (rule foldl_invariant [where P = "\<lambda>rows. distinct (map grant_key rows)"]; simp add: keys_upsert keys_disable)+

lemma keys_run: "distinct (map grant_key (foldl grant_step [] ops))"
proof (rule foldl_invariant [where P = "\<lambda>rows. distinct (map grant_key rows)"])
  show "distinct (map grant_key (grant_step rows op))" if "distinct (map grant_key rows)" for rows op
    using that by (cases op) (auto simp: grant_def revoke_def Let_def keys_folds split: option.split)
qed simp

lemma row_status_iff:
  assumes "distinct (map grant_key rows)"
  shows "row_status rows p c = Some b \<longleftrightarrow> (\<exists>r \<in> set rows. grant_key r = (p, c) \<and> gr_enabled r = b)"
proof -
  have key: "has_key p c = (\<lambda>r. grant_key r = (p, c))" by (auto simp: has_key_def grant_key_def)
  show ?thesis using fetchone_key_iff [OF assms, of "(p, c)"] by (auto simp: row_status_def key)
qed

lemma list_for_status: "distinct (map grant_key rows) \<Longrightarrow> set (list_for p rows) = {c. row_status rows p c = Some True}"
  by (auto simp: list_for_def row_status_iff grant_key_def)

lemma explicit_status: "has_explicit_rows p rows \<longleftrightarrow> (\<exists>c. row_status rows p c \<noteq> None)"
  by (auto simp: has_explicit_rows_def row_status_def fetchone_None_iff has_key_def list_ex_iff)

section \<open>What the grants amount to\<close>

text \<open>Whether a history ever granted a principal anything, and what it leaves granted.\<close>

definition ever_granted :: "grant_op list \<Rightarrow> string \<times> string \<Rightarrow> bool" where
  "ever_granted ops p \<longleftrightarrow> (\<exists>c \<in> set AUTHORIZED_CAPABILITIES. status_of ops p c \<noteq> None)"

lemma status_known:
  assumes "status_of ops p c \<noteq> None"
  shows "c \<in> set AUTHORIZED_CAPABILITIES"
proof -
  have "foldl (status_step p c) s ops \<noteq> None \<longrightarrow> c \<in> set AUTHORIZED_CAPABILITIES \<or> s \<noteq> None" for s
  proof (induction ops arbitrary: s)
    case (Cons op ops)
    have "status_step p c s op \<noteq> None \<longrightarrow> c \<in> set AUTHORIZED_CAPABILITIES \<or> s \<noteq> None"
      by (cases op) (auto simp: concerns_def)
    with Cons.IH [of "status_step p c s op"] show ?case by auto
  qed simp
  with assms show ?thesis by (auto simp: status_of_def)
qed

lemma run_grants:
  "set (list_for p (foldl grant_step [] ops)) = {c. status_of ops p c = Some True}"
  "has_explicit_rows p (foldl grant_step [] ops) \<longleftrightarrow> ever_granted ops p"
proof -
  have status: "row_status (foldl grant_step [] ops) p c = status_of ops p c" for c
    by (simp add: row_status_run status_of_def row_status_def [of "[]"])
  show "set (list_for p (foldl grant_step [] ops)) = {c. status_of ops p c = Some True}"
    by (simp add: list_for_status [OF keys_run] status)
  show "has_explicit_rows p (foldl grant_step [] ops) \<longleftrightarrow> ever_granted ops p"
    unfolding explicit_status status ever_granted_def using status_known [of ops p] by blast
qed

lemma effective_run:
  assumes "check_principal ''user'' user = Some u" "check_principal ''department'' department = Some d"
  shows "effective_capabilities configured user department context (foldl grant_step [] ops) =
    Some {c \<in> nonempty_names configured. c \<in> set AUTHORIZED_CAPABILITIES
      \<and> (if ever_granted ops u \<or> ever_granted ops d then status_of ops u c = Some True \<or> status_of ops d c = Some True
         else nonempty_names context = {} \<or> c \<in> nonempty_names context)}"
proof -
  have ids: "py_strip user \<noteq> []" "py_strip department \<noteq> []"
    "check_principal ''user'' (py_strip user) = Some u" "check_principal ''department'' (py_strip department) = Some d"
    using assms by (auto simp: check_principal_def Let_def split: if_splits)
  then show ?thesis
    by (auto simp: effective_capabilities_def principal_grants_def run_grants Let_def)
qed


definition demo_grants :: "grant_op list" where
  "demo_grants = [Grant_op ''user'' ''7'' [''sandbox.execute'', ''sandbox.network''] ''admin'' 0,
     Grant_op ''department'' ''d1'' [''sandbox.execute''] ''admin'' 1, Revoke_op ''User'' '' 7'' [''sandbox.network''] ''admin'' 2]"


text \<open>Two consequences that the description of the store does not announce.  Revoking a capability that a user holds by
  the deployment's default, without an earlier grant, changes nothing; and a capability revoked from a user stays
  effective as long as the department holds it.\<close>

lemma revoke_default_ineffective:
  assumes "check_principal ''user'' user = Some u" "check_principal ''department'' department = Some d"
    and "\<not> ever_granted ops u"
  shows "effective_capabilities configured user department context (foldl grant_step [] (ops @ [Revoke_op ''user'' user caps actor now]))
    = effective_capabilities configured user department context (foldl grant_step [] ops)"
proof -
  have none: "status_of ops u c = None" for c using assms(3) status_known [of ops u c] unfolding ever_granted_def by blast
  have same: "status_of (ops @ [Revoke_op ''user'' user caps actor now]) p c = status_of ops p c" for p c
    using none assms(1) by (auto simp: status_of_def concerns_def)
  have "ever_granted (ops @ [Revoke_op ''user'' user caps actor now]) p = ever_granted ops p" for p
    by (simp add: ever_granted_def same)
  with same show ?thesis unfolding effective_run [OF assms(1,2)] by simp
qed

lemma department_overrides_revocation:
  "effective_capabilities [''sandbox.execute''] ''7'' ''d1'' [] (foldl grant_step []
     [Grant_op ''department'' ''d1'' [''sandbox.execute''] ''admin'' 0, Grant_op ''user'' ''7'' [''sandbox.execute''] ''admin'' 1,
      Revoke_op ''user'' ''7'' [''sandbox.execute''] ''admin'' 2]) = Some {''sandbox.execute''}"
  by code_simp

end
