(* ===== verification/Sandbox_Tasks.thy ===== *)
theory Sandbox_Tasks
  imports Sandbox_Policy
begin

text \<open>
  The task ledger of the sandbox: \<open>SandboxTaskStore\<close> (\<open>sandbox/task_store.py\<close>), every operation.

  An operation is one transaction on one reading \<open>now\<close> of the clock; times are compared as instants, which is how their
  UTC texts compare.  The ledger is the table of tasks and the table of events in the order of their identifiers.
  A manifest is what the code reads of the JSON it is given: the listed keys of its items.  The wording of error
  messages and the metadata of events are left out, and so are the migrations of old databases.
\<close>

section \<open>Tasks and events\<close>

datatype task_status =
    T_admitted | T_queued | T_running | T_collecting | T_succeeded | T_rejected | T_timed_out | T_cancel_requested
  | T_cancelled | T_failed | T_expired | T_unknown | T_cleanup_pending | T_reconcile_required

definition TERMINAL :: "task_status list" where
  "TERMINAL = [T_succeeded, T_rejected, T_cancelled, T_failed, T_expired]"

definition UNCERTAIN :: "task_status list" where
  "UNCERTAIN = [T_unknown, T_cleanup_pending, T_reconcile_required]"

text \<open>The statuses in which a lease counts against the limits.\<close>

definition LEASED :: "task_status list" where
  "LEASED = [T_running, T_collecting, T_cancel_requested, T_timed_out]"

fun TRANSITIONS :: "task_status \<Rightarrow> task_status list" where
  "TRANSITIONS T_admitted = [T_queued, T_rejected, T_expired, T_cancel_requested, T_cancelled]"
| "TRANSITIONS T_queued = [T_running, T_rejected, T_expired, T_cancel_requested, T_cancelled, T_reconcile_required]"
| "TRANSITIONS T_running = [T_collecting, T_failed, T_timed_out, T_cancel_requested, T_unknown, T_reconcile_required]"
| "TRANSITIONS T_collecting = [T_succeeded, T_failed, T_cleanup_pending, T_unknown, T_reconcile_required]"
| "TRANSITIONS T_cancel_requested = [T_cancelled, T_unknown, T_cleanup_pending, T_reconcile_required]"
| "TRANSITIONS T_timed_out = [T_cleanup_pending, T_unknown, T_reconcile_required]"
| "TRANSITIONS T_unknown = [T_cleanup_pending, T_reconcile_required, T_succeeded, T_failed, T_cancelled]"
| "TRANSITIONS T_cleanup_pending = [T_cleanup_pending, T_reconcile_required, T_succeeded, T_failed, T_cancelled, T_unknown]"
| "TRANSITIONS T_reconcile_required = [T_cleanup_pending, T_succeeded, T_failed, T_cancelled, T_unknown]"
| "TRANSITIONS _ = []"

text \<open>An item of a manifest; a size that is missing or cannot be read is \<open>None\<close>.\<close>

record manifest_item =
  mi_id :: "string option"
  mi_sha256 :: "string option"
  mi_state :: "string option"
  mi_role :: "string option"
  mi_filename :: "string option"
  mi_media :: "string option"
  mi_size :: "int option"

text \<open>A manifest: empty, without a list of items, or with one, whose elements that are no mappings are \<open>None\<close>; the flag
  says that it holds nothing beside what is stored of it.\<close>

datatype manifest = Empty_manifest | Bad_items | Items bool "manifest_item option list"

record task =
  tk_id :: string
  tk_fingerprint :: string
  tk_spec :: task_spec
  tk_manifest :: manifest
  tk_status :: task_status
  tk_desired :: string
  tk_observed :: string
  tk_cleanup :: string
  tk_execution :: string
  tk_backend :: string
  tk_lease_owner :: string
  tk_lease_expires :: "time option"
  tk_token :: int
  tk_attempt :: int
  tk_deadline :: time
  tk_error :: string
  tk_revision :: int
  tk_created :: time
  tk_updated :: time
  tk_started :: "time option"
  tk_finished :: "time option"

abbreviation tk_owner :: "task \<Rightarrow> string" where
  "tk_owner t \<equiv> sp_owner (tk_spec t)"

abbreviation tk_department :: "task \<Rightarrow> string" where
  "tk_department t \<equiv> sp_department (tk_spec t)"

abbreviation tk_key :: "task \<Rightarrow> string" where
  "tk_key t \<equiv> sp_key (tk_spec t)"

record task_event =
  te_task :: string
  te_action :: string
  te_from :: "task_status option"
  te_to :: task_status
  te_actor :: string
  te_owner :: string
  te_token :: int
  te_revision :: int
  te_at :: time

record ledger =
  lg_tasks :: "task list"
  lg_events :: "task_event list"

section \<open>Manifests\<close>

definition safe_item :: "manifest_item \<Rightarrow> manifest_item" where
  "safe_item i =
     \<lparr>mi_id = map_option (clip 256) (mi_id i), mi_sha256 = map_option (clip 256) (mi_sha256 i), mi_state = map_option (clip 256) (mi_state i),
      mi_role = map_option (clip 256) (mi_role i), mi_filename = map_option (clip 256) (mi_filename i),
      mi_media = map_option (clip 256) (mi_media i), mi_size = map_option (\<lambda>n. max 0 (min n (2 ^ 63 - 1))) (mi_size i)\<rparr>"

definition has_id :: "manifest_item \<Rightarrow> bool" where
  "has_id i \<longleftrightarrow> mi_id i \<noteq> None \<and> mi_id i \<noteq> Some []"

fun safe_manifest :: "manifest \<Rightarrow> manifest" where
  "safe_manifest Empty_manifest = Items True []"
| "safe_manifest Bad_items = Empty_manifest"
| "safe_manifest (Items _ raw) = Items True (map Some (filter has_id (map safe_item (List.map_filter id (take 256 raw)))))"

definition text_or_empty :: "string option \<Rightarrow> string" where
  "text_or_empty s = (case s of None \<Rightarrow> [] | Some x \<Rightarrow> x)"

definition item_committed :: "manifest_item \<Rightarrow> bool" where
  "item_committed i \<longleftrightarrow>
     text_or_empty (mi_state i) \<in> {''committed'', ''consumed''}
     \<and> (let artifact_id = text_or_empty (mi_id i) in
          artifact_id \<noteq> [] \<and> CHR ''/'' \<notin> set artifact_id \<and> CHR 0x5C \<notin> set artifact_id \<and> \<not> contains_text ''..'' artifact_id)
     \<and> hex_digest (remove_prefix ''sha256:'' (py_lower (text_or_empty (mi_sha256 i))))"

fun manifest_committed :: "manifest \<Rightarrow> bool" where
  "manifest_committed (Items _ items) \<longleftrightarrow> items \<noteq> [] \<and> list_all (\<lambda>x. case x of None \<Rightarrow> False | Some i \<Rightarrow> item_committed i) items"
| "manifest_committed _ \<longleftrightarrow> False"

text \<open>Python's \<open>a or b or {}\<close> on manifests, and \<open>dict(a) == dict(b)\<close> for a stored \<open>b\<close>.\<close>

definition manifest_or :: "manifest option \<Rightarrow> manifest \<Rightarrow> manifest" where
  "manifest_or given stored = (case given of None \<Rightarrow> stored | Some Empty_manifest \<Rightarrow> stored | Some m \<Rightarrow> m)"

fun same_manifest :: "manifest \<Rightarrow> manifest \<Rightarrow> bool" where
  "same_manifest Empty_manifest Empty_manifest = True"
| "same_manifest (Items e xs) (Items e' ys) = (e \<and> e' \<and> xs = ys)"
| "same_manifest _ _ = False"

section \<open>Reading and writing rows\<close>

definition get_task :: "string \<Rightarrow> ledger \<Rightarrow> task option" where
  "get_task tid lg = fetchone (\<lambda>t. tk_id t = tid) (lg_tasks lg)"

definition require_task :: "string \<Rightarrow> ledger \<Rightarrow> sandbox_error + task" where
  "require_task tid lg = (case get_task tid lg of None \<Rightarrow> Inl Task_not_found | Some t \<Rightarrow> Inr t)"

definition put_task :: "task \<Rightarrow> (task \<Rightarrow> task) \<Rightarrow> ledger \<Rightarrow> ledger" where
  "put_task current f lg =
     lg\<lparr>lg_tasks := update_where (\<lambda>t. tk_id t = tk_id current \<and> tk_revision t = tk_revision current) f (lg_tasks lg)\<rparr>"

definition log_event :: "task \<Rightarrow> string \<Rightarrow> task_status option \<Rightarrow> task_status \<Rightarrow> string \<Rightarrow> string \<Rightarrow> int \<Rightarrow> int \<Rightarrow> time \<Rightarrow> ledger \<Rightarrow> ledger" where
  "log_event t action from_status to_status actor owner token revision now lg =
     lg\<lparr>lg_events := lg_events lg @
        [\<lparr>te_task = tk_id t, te_action = clip 100 action, te_from = from_status, te_to = to_status, te_actor = clip 128 actor,
          te_owner = clip 128 owner, te_token = token, te_revision = revision, te_at = now\<rparr>]\<rparr>"

definition task_list :: "string option \<Rightarrow> string option \<Rightarrow> task_status list \<Rightarrow> int \<Rightarrow> ledger \<Rightarrow> task list" where
  "task_list owner department statuses limit lg =
     take (nat (max 1 (min limit 1000))) (sort_key (\<lambda>t. - tk_created t) (filter (\<lambda>t.
       (owner = None \<or> owner = Some [] \<or> owner = Some (tk_owner t))
       \<and> (department = None \<or> department = Some [] \<or> department = Some (tk_department t))
       \<and> (statuses = [] \<or> tk_status t \<in> set statuses)) (lg_tasks lg)))"

definition task_events :: "string \<Rightarrow> int \<Rightarrow> ledger \<Rightarrow> task_event list" where
  "task_events tid limit lg =
     (let evs = filter (\<lambda>e. te_task e = tid) (lg_events lg); n = nat (max 1 (min limit 1000)) in drop (length evs - n) evs)"

section \<open>Admission\<close>

definition task_id_char :: "char \<Rightarrow> bool" where
  "task_id_char c \<longleftrightarrow> is_alnum c \<or> c \<in> set ''._:-''"

definition replay_task :: "string \<Rightarrow> task \<Rightarrow> ledger \<Rightarrow> sandbox_error + task \<times> ledger" where
  "replay_task print existing lg = (if tk_fingerprint existing \<noteq> print then Inl Idempotency_conflict else Inr (existing, lg))"

definition new_task :: "sandbox_settings \<Rightarrow> time \<Rightarrow> string \<Rightarrow> string \<Rightarrow> task_spec \<Rightarrow> task" where
  "new_task st now tid print spec =
     \<lparr>tk_id = tid, tk_fingerprint = print, tk_spec = spec, tk_manifest = Empty_manifest, tk_status = T_admitted, tk_desired = ''running'',
      tk_observed = [], tk_cleanup = ''pending'', tk_execution = [], tk_backend = [], tk_lease_owner = [], tk_lease_expires = None,
      tk_token = 0, tk_attempt = 0,
      tk_deadline = (case sp_deadline spec of Deadline t \<Rightarrow> t | _ \<Rightarrow> now + seconds (max 1 (sb_task_timeout st))),
      tk_error = [], tk_revision = 0, tk_created = now, tk_updated = now, tk_started = None, tk_finished = None\<rparr>"

definition task_create ::
  "sandbox_settings \<Rightarrow> (task_spec \<Rightarrow> string) \<Rightarrow> time \<Rightarrow> string \<Rightarrow> task_spec \<Rightarrow> string \<Rightarrow> ledger \<Rightarrow> sandbox_error + task \<times> ledger" where
  "task_create st sha now task_id spec actor lg =
     or_else (validate_task_spec st now spec) (\<lambda>normalized.
       let tid = py_strip task_id; print = fingerprint sha normalized in
       if tid = [] \<or> length tid > 128 \<or> \<not> list_all task_id_char tid then Inl Bad_value
       else case fetchone (\<lambda>t. tk_owner t = sp_owner normalized \<and> tk_key t = sp_key normalized) (lg_tasks lg) of
         Some existing \<Rightarrow> replay_task print existing lg
       | None \<Rightarrow>
           if list_ex (\<lambda>t. tk_id t = tid) (lg_tasks lg) then Inl Integrity_error
           else (let t = new_task st now tid print normalized in
                 Inr (t, log_event t ''sandbox.task_submit'' None T_admitted (if actor = [] then sp_owner normalized else actor) [] 0 0 now
                           (lg\<lparr>lg_tasks := lg_tasks lg @ [t]\<rparr>))))"

section \<open>Transitions\<close>

definition assert_lease :: "time \<Rightarrow> task \<Rightarrow> string option \<Rightarrow> int option \<Rightarrow> sandbox_error option" where
  "assert_lease now t lease_owner fencing_token =
     (case (lease_owner, fencing_token) of
        (Some owner, Some token) \<Rightarrow>
          if owner = [] then Some Lease_lost
          else if tk_lease_owner t \<noteq> owner \<or> tk_token t \<noteq> token then Some Lease_lost
          else (case tk_lease_expires t of None \<Rightarrow> Some Lease_lost | Some e \<Rightarrow> if e \<le> now then Some Lease_lost else None)
      | _ \<Rightarrow> Some Lease_lost)"

text \<open>The optional arguments of \<open>transition\<close>.\<close>

record change =
  ch_expected :: "int option"
  ch_owner :: "string option"
  ch_token :: "int option"
  ch_require_lease :: bool
  ch_actor :: string
  ch_action :: string
  ch_observed :: "string option"
  ch_cleanup :: "string option"
  ch_desired :: "string option"
  ch_execution :: "string option"
  ch_backend :: "string option"
  ch_manifest :: "manifest option"
  ch_error :: "string option"

definition no_change :: change where
  "no_change = \<lparr>ch_expected = None, ch_owner = None, ch_token = None, ch_require_lease = False, ch_actor = [],
     ch_action = ''sandbox.task_transition'', ch_observed = None, ch_cleanup = None, ch_desired = None, ch_execution = None,
     ch_backend = None, ch_manifest = None, ch_error = None\<rparr>"

definition set_clip :: "nat \<Rightarrow> string option \<Rightarrow> string \<Rightarrow> string" where
  "set_clip n given old = (case given of None \<Rightarrow> old | Some s \<Rightarrow> clip n s)"

definition moved :: "time \<Rightarrow> task_status \<Rightarrow> change \<Rightarrow> manifest option \<Rightarrow> task \<Rightarrow> task" where
  "moved now target ch m t =
     t\<lparr>tk_status := target, tk_updated := now, tk_revision := tk_revision t + 1,
       tk_observed := set_clip 200 (ch_observed ch) (tk_observed t), tk_cleanup := set_clip 50 (ch_cleanup ch) (tk_cleanup t),
       tk_desired := set_clip 50 (ch_desired ch) (tk_desired t), tk_execution := set_clip 256 (ch_execution ch) (tk_execution t),
       tk_backend := set_clip 256 (ch_backend ch) (tk_backend t),
       tk_manifest := (case m of None \<Rightarrow> tk_manifest t | Some x \<Rightarrow> safe_manifest x),
       tk_error := set_clip 80 (ch_error ch) (tk_error t),
       tk_finished := (if target \<in> set TERMINAL then Some now else tk_finished t),
       tk_lease_owner := (if target \<in> set TERMINAL \<or> target \<in> set UNCERTAIN then [] else tk_lease_owner t),
       tk_lease_expires := (if target \<in> set TERMINAL \<or> target \<in> set UNCERTAIN then None else tk_lease_expires t)\<rparr>"

definition task_transition :: "time \<Rightarrow> string \<Rightarrow> task_status \<Rightarrow> change \<Rightarrow> ledger \<Rightarrow> sandbox_error + task \<times> ledger" where
  "task_transition now tid target ch lg =
     or_else (require_task tid lg) (\<lambda>current.
       if (case ch_expected ch of None \<Rightarrow> False | Some r \<Rightarrow> tk_revision current \<noteq> r) then Inl Task_conflict
       else case (if ch_require_lease ch then assert_lease now current (ch_owner ch) (ch_token ch) else None) of
         Some e \<Rightarrow> Inl e
       | None \<Rightarrow>
           if tk_status current = target then
             (case ch_manifest ch of
                Some m \<Rightarrow> if same_manifest m (tk_manifest current) then Inr (current, lg) else Inl Task_conflict
              | None \<Rightarrow> Inr (current, lg))
           else if target \<notin> set (TRANSITIONS (tk_status current)) then
             Inl (if tk_status current \<in> set TERMINAL then Task_terminal else Invalid_transition)
           else if target = T_succeeded \<and> \<not> manifest_committed (safe_manifest (manifest_or (ch_manifest ch) (tk_manifest current))) then Inl Task_conflict
           else
             (let m = (if target = T_succeeded then Some (safe_manifest (manifest_or (ch_manifest ch) (tk_manifest current))) else ch_manifest ch);
                  owner = (case ch_owner ch of None \<Rightarrow> tk_lease_owner current | Some o' \<Rightarrow> if o' = [] then tk_lease_owner current else o');
                  token = (case ch_token ch of None \<Rightarrow> tk_token current | Some k \<Rightarrow> k)
              in Inr (moved now target ch m current,
                      log_event current (ch_action ch) (Some (tk_status current)) target (ch_actor ch) owner token (tk_revision current + 1) now
                        (put_task current (moved now target ch m) lg))))"

definition task_enqueue :: "time \<Rightarrow> string \<Rightarrow> int option \<Rightarrow> string \<Rightarrow> ledger \<Rightarrow> sandbox_error + task \<times> ledger" where
  "task_enqueue now tid expected actor lg =
     task_transition now tid T_queued (no_change\<lparr>ch_expected := expected, ch_actor := actor, ch_action := ''sandbox.task_queue''\<rparr>) lg"

definition task_complete :: "time \<Rightarrow> string \<Rightarrow> string \<Rightarrow> int \<Rightarrow> manifest \<Rightarrow> int option \<Rightarrow> string \<Rightarrow> ledger \<Rightarrow> sandbox_error + task \<times> ledger" where
  "task_complete now tid owner token m expected actor lg =
     task_transition now tid T_succeeded
       (no_change\<lparr>ch_expected := expected, ch_owner := Some owner, ch_token := Some token, ch_require_lease := True,
          ch_actor := (if actor = [] then owner else actor), ch_action := ''sandbox.task_complete'', ch_manifest := Some m,
          ch_observed := Some ''succeeded'', ch_cleanup := Some ''complete''\<rparr>) lg"

definition task_fail :: "time \<Rightarrow> string \<Rightarrow> string \<Rightarrow> int \<Rightarrow> string \<Rightarrow> int option \<Rightarrow> ledger \<Rightarrow> sandbox_error + task \<times> ledger" where
  "task_fail now tid owner token error_code expected lg =
     task_transition now tid T_failed
       (no_change\<lparr>ch_expected := expected, ch_owner := Some owner, ch_token := Some token, ch_require_lease := True, ch_actor := owner,
          ch_action := ''sandbox.task_failed'', ch_error := Some error_code, ch_observed := Some ''failed'', ch_cleanup := Some ''complete''\<rparr>) lg"

definition task_unknown :: "time \<Rightarrow> string \<Rightarrow> string option \<Rightarrow> int option \<Rightarrow> string \<Rightarrow> ledger \<Rightarrow> sandbox_error + task \<times> ledger" where
  "task_unknown now tid owner token reason lg =
     task_transition now tid T_unknown
       (no_change\<lparr>ch_owner := owner, ch_token := token, ch_require_lease := (owner \<noteq> None),
          ch_actor := (case owner of None \<Rightarrow> ''reconciler'' | Some o' \<Rightarrow> if o' = [] then ''reconciler'' else o'), ch_action := ''sandbox.task_unknown'',
          ch_observed := Some reason, ch_cleanup := Some ''unknown'', ch_error := Some ''unknown_execution''\<rparr>) lg"

definition task_timeout :: "time \<Rightarrow> string \<Rightarrow> string \<Rightarrow> int \<Rightarrow> ledger \<Rightarrow> sandbox_error + task \<times> ledger" where
  "task_timeout now tid owner token lg =
     task_transition now tid T_timed_out
       (no_change\<lparr>ch_owner := Some owner, ch_token := Some token, ch_require_lease := True, ch_actor := owner, ch_action := ''sandbox.task_timeout'',
          ch_desired := Some ''cancelled'', ch_observed := Some ''timed_out'', ch_cleanup := Some ''unknown'', ch_error := Some ''timeout''\<rparr>) lg"

section \<open>Leases\<close>

definition lease_duration :: "sandbox_settings \<Rightarrow> int option \<Rightarrow> int" where
  "lease_duration st given = max 1 (case given of None \<Rightarrow> sb_lease_seconds st | Some s \<Rightarrow> if s = 0 then sb_lease_seconds st else s)"

text \<open>A task that holds a slot at an instant, and the three counts a claim compares with the limits.\<close>

definition holds_slot :: "time \<Rightarrow> task \<Rightarrow> bool" where
  "holds_slot now t \<longleftrightarrow> tk_status t \<in> set LEASED \<and> (case tk_lease_expires t of None \<Rightarrow> False | Some e \<Rightarrow> e > now)"

definition slots_full :: "sandbox_settings \<Rightarrow> time \<Rightarrow> task \<Rightarrow> task list \<Rightarrow> bool" where
  "slots_full st now current ts \<longleftrightarrow>
     int (rowcount (holds_slot now) ts) \<ge> max 1 (sb_max_concurrent st)
     \<or> int (rowcount (\<lambda>t. tk_owner t = tk_owner current \<and> holds_slot now t) ts) \<ge> max 1 (sb_max_per_user st)
     \<or> int (rowcount (\<lambda>t. tk_department t = tk_department current \<and> holds_slot now t) ts) \<ge> max 1 (sb_max_per_department st)"

text \<open>The rows that \<open>claim\<close> writes: the task has missed its deadline, or it runs.\<close>

definition expired_row :: "time \<Rightarrow> task \<Rightarrow> task" where
  "expired_row now t = t\<lparr>tk_status := T_expired, tk_desired := ''cancelled'', tk_error := ''deadline_expired'', tk_finished := Some now,
     tk_revision := tk_revision t + 1, tk_updated := now\<rparr>"

definition claimed_row :: "time \<Rightarrow> string \<Rightarrow> time \<Rightarrow> task \<Rightarrow> task" where
  "claimed_row now owner expires t =
     t\<lparr>tk_status := T_running, tk_lease_owner := owner, tk_lease_expires := Some expires, tk_token := tk_token t + 1,
       tk_attempt := tk_attempt t + 1, tk_revision := tk_revision t + 1,
       tk_started := (case tk_started t of None \<Rightarrow> Some now | Some s \<Rightarrow> Some s), tk_updated := now, tk_observed := []\<rparr>"

definition task_claim :: "sandbox_settings \<Rightarrow> time \<Rightarrow> string \<Rightarrow> string \<Rightarrow> int option \<Rightarrow> string \<Rightarrow> ledger \<Rightarrow> sandbox_error + task option \<times> ledger" where
  "task_claim st now tid worker lease_seconds actor lg =
     (let owner = py_strip worker; expires = now + seconds (lease_duration st lease_seconds) in
      if owner = [] then Inl Bad_value
      else or_else (require_task tid lg) (\<lambda>current.
        if tk_status current \<notin> {T_admitted, T_queued} then
          (if tk_status current \<in> set TERMINAL \<or> tk_status current \<in> set UNCERTAIN then Inr (None, lg) else Inl Invalid_transition)
        else if tk_deadline current \<le> now then
          Inr (None, log_event current ''sandbox.task_expire'' (Some (tk_status current)) T_expired ''scheduler'' [] 0 (tk_revision current + 1) now
                       (put_task current (expired_row now) lg))
        else if tk_lease_owner current \<noteq> [] \<and> tk_lease_owner current \<noteq> owner
                \<and> (case tk_lease_expires current of None \<Rightarrow> False | Some e \<Rightarrow> e > now) then Inr (None, lg)
        else if slots_full st now current (lg_tasks lg) then Inr (None, lg)
        else
          Inr (Some (claimed_row now owner expires current),
               log_event current ''sandbox.task_start'' (Some (tk_status current)) T_running (if actor = [] then owner else actor) owner
                 (tk_token current + 1) (tk_revision current + 1) now (put_task current (claimed_row now owner expires) lg))))"

fun claim_loop :: "sandbox_settings \<Rightarrow> time \<Rightarrow> string \<Rightarrow> int option \<Rightarrow> string list \<Rightarrow> ledger \<Rightarrow> sandbox_error + task list \<times> ledger" where
  "claim_loop st now worker lease_seconds [] lg = Inr ([], lg)"
| "claim_loop st now worker lease_seconds (tid # tids) lg =
     or_else (task_claim st now tid worker lease_seconds [] lg) (\<lambda>(item, lg1).
     or_else (claim_loop st now worker lease_seconds tids lg1) (\<lambda>(items, lg2).
     Inr ((case item of None \<Rightarrow> items | Some t \<Rightarrow> t # items), lg2)))"

definition task_claim_next ::
  "sandbox_settings \<Rightarrow> time \<Rightarrow> string \<Rightarrow> int option \<Rightarrow> int \<Rightarrow> string option \<Rightarrow> ledger \<Rightarrow> sandbox_error + task list \<times> ledger" where
  "task_claim_next st now worker lease_seconds limit department lg =
     claim_loop st now worker lease_seconds
       (map tk_id (take (nat (max 1 (min limit 100))) (sort_key tk_created (filter (\<lambda>t.
          tk_status t \<in> {T_admitted, T_queued} \<and> (department = None \<or> department = Some [] \<or> department = Some (tk_department t))) (lg_tasks lg))))) lg"

definition renewed_row :: "time \<Rightarrow> time \<Rightarrow> task \<Rightarrow> task" where
  "renewed_row now expires t = t\<lparr>tk_lease_expires := Some expires, tk_revision := tk_revision t + 1, tk_updated := now\<rparr>"

definition task_renew :: "sandbox_settings \<Rightarrow> time \<Rightarrow> string \<Rightarrow> string \<Rightarrow> int \<Rightarrow> int option \<Rightarrow> ledger \<Rightarrow> sandbox_error + task \<times> ledger" where
  "task_renew st now tid owner token lease_seconds lg =
     or_else (require_task tid lg) (\<lambda>current.
       case assert_lease now current (Some owner) (Some token) of
         Some e \<Rightarrow> Inl e
       | None \<Rightarrow>
           (let expires = now + seconds (lease_duration st lease_seconds) in
            Inr (renewed_row now expires current, put_task current (renewed_row now expires) lg)))"

section \<open>Cancellation and observation\<close>

definition wish_cancelled :: "time \<Rightarrow> task \<Rightarrow> task" where
  "wish_cancelled now t = t\<lparr>tk_desired := ''cancelled'', tk_updated := now, tk_revision := tk_revision t + 1\<rparr>"

definition cancelled_row :: "time \<Rightarrow> task_status \<Rightarrow> task \<Rightarrow> task" where
  "cancelled_row now target t =
     t\<lparr>tk_desired := ''cancelled'', tk_status := target, tk_error := (if tk_error t = [] then ''cancel_requested'' else tk_error t),
       tk_finished := (if target = T_cancelled then Some now else tk_finished t),
       tk_lease_owner := (if target = T_cancelled then [] else tk_lease_owner t),
       tk_lease_expires := (if target = T_cancelled then None else tk_lease_expires t),
       tk_revision := tk_revision t + 1, tk_updated := now\<rparr>"

definition task_cancel :: "time \<Rightarrow> string \<Rightarrow> string \<Rightarrow> ledger \<Rightarrow> sandbox_error + task \<times> ledger" where
  "task_cancel now tid actor lg =
     or_else (require_task tid lg) (\<lambda>current.
       if tk_status current \<in> set TERMINAL then Inr (current, lg)
       else if tk_status current \<in> set UNCERTAIN \<or> tk_status current = T_timed_out then
         (if tk_desired current = ''cancelled'' then Inr (current, lg)
          else Inr (wish_cancelled now current,
                    log_event current ''sandbox.task_cancel'' (Some (tk_status current)) (tk_status current) actor [] (tk_token current)
                      (tk_revision current + 1) now (put_task current (wish_cancelled now) lg)))
       else if tk_status current = T_cancel_requested then Inr (current, lg)
       else
         (let target = (if tk_status current \<in> {T_admitted, T_queued} then T_cancelled else T_cancel_requested) in
          if target \<notin> set (TRANSITIONS (tk_status current)) then Inl Invalid_transition
          else Inr (cancelled_row now target current,
                    log_event current ''sandbox.task_cancel'' (Some (tk_status current)) target actor (tk_lease_owner current) (tk_token current)
                      (tk_revision current + 1) now (put_task current (cancelled_row now target) lg))))"

definition set_unless_empty :: "nat \<Rightarrow> string \<Rightarrow> string \<Rightarrow> string" where
  "set_unless_empty n given old = (if given = [] then old else clip n given)"

definition observed_row :: "time \<Rightarrow> string \<Rightarrow> string \<Rightarrow> string \<Rightarrow> string \<Rightarrow> task \<Rightarrow> task" where
  "observed_row now observed execution backend cleanup t =
     t\<lparr>tk_observed := clip 200 observed, tk_execution := set_unless_empty 256 execution (tk_execution t),
       tk_backend := set_unless_empty 256 backend (tk_backend t), tk_cleanup := set_unless_empty 50 cleanup (tk_cleanup t),
       tk_revision := tk_revision t + 1, tk_updated := now\<rparr>"

definition task_observe ::
  "time \<Rightarrow> string \<Rightarrow> string \<Rightarrow> int \<Rightarrow> string \<Rightarrow> string \<Rightarrow> string \<Rightarrow> string \<Rightarrow> int option \<Rightarrow> ledger \<Rightarrow> sandbox_error + task \<times> ledger" where
  "task_observe now tid owner token observed execution backend cleanup expected lg =
     or_else (require_task tid lg) (\<lambda>current.
       if (case expected of None \<Rightarrow> False | Some r \<Rightarrow> tk_revision current \<noteq> r) then Inl Task_conflict
       else case assert_lease now current (Some owner) (Some token) of
         Some e \<Rightarrow> Inl e
       | None \<Rightarrow>
           Inr (observed_row now observed execution backend cleanup current,
                log_event current ''sandbox.task_observe'' (Some (tk_status current)) (tk_status current) owner owner token
                  (tk_revision current + 1) now (put_task current (observed_row now observed execution backend cleanup) lg)))"

definition CLEANUP_STATES :: "string list" where
  "CLEANUP_STATES = [''pending'', ''running'', ''complete'', ''unknown'']"

definition cleanup_row :: "time \<Rightarrow> string \<Rightarrow> task \<Rightarrow> task" where
  "cleanup_row now cleanup t = t\<lparr>tk_cleanup := cleanup, tk_revision := tk_revision t + 1, tk_updated := now\<rparr>"

definition set_cleanup_state :: "time \<Rightarrow> string \<Rightarrow> string \<Rightarrow> string option \<Rightarrow> int option \<Rightarrow> string \<Rightarrow> ledger \<Rightarrow> sandbox_error + task \<times> ledger" where
  "set_cleanup_state now tid cleanup owner token actor lg =
     (if cleanup \<notin> set CLEANUP_STATES then Inl Bad_value
      else or_else (require_task tid lg) (\<lambda>current.
        case (if owner = None then None else assert_lease now current owner token) of
          Some e \<Rightarrow> Inl e
        | None \<Rightarrow>
            Inr (cleanup_row now cleanup current,
                 log_event current ''sandbox.task_cleanup'' (Some (tk_status current)) (tk_status current) actor
                   (case owner of None \<Rightarrow> tk_lease_owner current | Some o' \<Rightarrow> if o' = [] then tk_lease_owner current else o')
                   (case token of None \<Rightarrow> tk_token current | Some k \<Rightarrow> k)
                   (tk_revision current + 1) now (put_task current (cleanup_row now cleanup) lg))))"

section \<open>Reconciliation\<close>

definition reconcile_target :: "string \<Rightarrow> task_status option" where
  "reconcile_target outcome =
     map_of [(''succeeded'', T_succeeded), (''failed'', T_failed), (''cancelled'', T_cancelled), (''cleanup_pending'', T_cleanup_pending),
       (''unknown'', T_unknown), (''reconcile_required'', T_reconcile_required)] (py_lower (py_strip outcome))"

text \<open>The outcome is checked on the task as it was read before, and applied by a transition of its own.\<close>

definition task_reconcile ::
  "time \<Rightarrow> string \<Rightarrow> string \<Rightarrow> string \<Rightarrow> manifest option \<Rightarrow> string \<Rightarrow> string \<Rightarrow> task option \<Rightarrow> ledger \<Rightarrow> sandbox_error + task \<times> ledger" where
  "task_reconcile now tid outcome execution m cleanup actor seen lg =
     (case reconcile_target outcome of
        None \<Rightarrow> Inl Bad_value
      | Some target \<Rightarrow>
          (case seen of
             None \<Rightarrow> Inl Task_not_found
           | Some t \<Rightarrow>
               if tk_status t \<notin> set UNCERTAIN \<and> tk_status t \<notin> {T_cancel_requested, T_timed_out} then
                 (if tk_status t = target then Inr (t, lg) else Inl Invalid_transition)
               else if target = T_succeeded \<and> \<not> manifest_committed (safe_manifest (manifest_or m (tk_manifest t))) then Inl Task_conflict
               else task_transition now tid target
                      (no_change\<lparr>ch_actor := actor, ch_action := ''sandbox.task_reconcile'',
                         ch_execution := Some (if execution = [] then tk_execution t else execution), ch_manifest := m,
                         ch_cleanup := Some cleanup, ch_observed := Some (''reconciled:'' @ py_lower (py_strip outcome))\<rparr>) lg))"

definition lost_target :: "task \<Rightarrow> task_status" where
  "lost_target t = (if tk_execution t \<noteq> [] then T_unknown else T_reconcile_required)"

definition lost_row :: "time \<Rightarrow> task \<Rightarrow> task" where
  "lost_row now t = t\<lparr>tk_status := lost_target t, tk_observed := ''lease_expired'', tk_cleanup := ''unknown'', tk_lease_owner := [],
     tk_lease_expires := None, tk_error := ''lease_expired'', tk_revision := tk_revision t + 1, tk_updated := now\<rparr>"

definition lose_lease :: "time \<Rightarrow> ledger \<Rightarrow> task \<Rightarrow> ledger" where
  "lose_lease now lg t =
     log_event t ''sandbox.task_unknown'' (Some (tk_status t)) (lost_target t) ''reconciler'' (tk_lease_owner t) (tk_token t) (tk_revision t + 1) now
       (put_task t (lost_row now) lg)"

definition lease_over :: "time \<Rightarrow> task \<Rightarrow> bool" where
  "lease_over now t \<longleftrightarrow> tk_status t \<in> set LEASED \<and> (case tk_lease_expires t of None \<Rightarrow> False | Some e \<Rightarrow> e \<le> now)"

definition reconcile_expired_leases :: "time \<Rightarrow> int \<Rightarrow> ledger \<Rightarrow> ledger" where
  "reconcile_expired_leases now limit lg =
     foldl (lose_lease now) lg (take (nat (max 1 (min limit 1000))) (sort_key tk_updated (filter (lease_over now) (lg_tasks lg))))"

definition expire_task :: "time \<Rightarrow> ledger \<Rightarrow> task \<Rightarrow> ledger" where
  "expire_task now lg t =
     log_event t ''sandbox.task_expire'' (Some (tk_status t)) T_expired ''reconciler'' [] 0 (tk_revision t + 1) now (put_task t (expired_row now) lg)"

definition overdue :: "time \<Rightarrow> task \<Rightarrow> bool" where
  "overdue now t \<longleftrightarrow> tk_status t \<in> {T_admitted, T_queued} \<and> tk_deadline t \<le> now"

definition expire_deadlines :: "time \<Rightarrow> int \<Rightarrow> ledger \<Rightarrow> ledger" where
  "expire_deadlines now limit lg =
     foldl (expire_task now) lg (take (nat (max 1 (min limit 1000))) (sort_key tk_deadline (filter (overdue now) (lg_tasks lg))))"

end
