(* ===== verification/Sandbox_Properties.thy ===== *)
theory Sandbox_Properties
  imports Sandbox_Tasks
begin

text \<open>
  Properties of the task ledger of the sandbox over arbitrary sequences of its operations: the concurrency limits hold at
  every instant, a task is started at most once, finished tasks and successes are final and backed by committed
  artifacts, whoever lost a lease never writes again, and the events replay to the status of every task.

  All operations are reduced to single writes of a row, \<open>ledger_write\<close>, over which each invariant is proved once.
\<close>

section \<open>Operations as writes\<close>

datatype task_op =
    Op_create time string task_spec string
  | Op_transition time string task_status change
  | Op_claim time string string "int option" string
  | Op_renew time string string int "int option"
  | Op_cancel time string string
  | Op_observe time string string int string string string string "int option"
  | Op_cleanup time string string "string option" "int option" string
  | Op_reconcile time string string string "manifest option" string string "task option"
  | Op_expired_leases time int
  | Op_deadlines time int

fun op_time :: "task_op \<Rightarrow> time" where
  "op_time (Op_create now tid spec actor) = now"
| "op_time (Op_transition now tid target ch) = now"
| "op_time (Op_claim now tid worker lease_seconds actor) = now"
| "op_time (Op_renew now tid owner token lease_seconds) = now"
| "op_time (Op_cancel now tid actor) = now"
| "op_time (Op_observe now tid owner token observed execution backend cleanup expected) = now"
| "op_time (Op_cleanup now tid cleanup owner token actor) = now"
| "op_time (Op_reconcile now tid outcome execution m cleanup actor seen) = now"
| "op_time (Op_expired_leases now limit) = now"
| "op_time (Op_deadlines now limit) = now"

definition ledger_after :: "ledger \<Rightarrow> 'e + 'a \<times> ledger \<Rightarrow> ledger" where
  "ledger_after lg r = (case r of Inl _ \<Rightarrow> lg | Inr (_, lg') \<Rightarrow> lg')"

fun ledger_step :: "sandbox_settings \<Rightarrow> (task_spec \<Rightarrow> string) \<Rightarrow> ledger \<Rightarrow> task_op \<Rightarrow> ledger" where
  "ledger_step st sha lg (Op_create now tid spec actor) = ledger_after lg (task_create st sha now tid spec actor lg)"
| "ledger_step st sha lg (Op_transition now tid target ch) = ledger_after lg (task_transition now tid target ch lg)"
| "ledger_step st sha lg (Op_claim now tid worker lease_seconds actor) = ledger_after lg (task_claim st now tid worker lease_seconds actor lg)"
| "ledger_step st sha lg (Op_renew now tid owner token lease_seconds) = ledger_after lg (task_renew st now tid owner token lease_seconds lg)"
| "ledger_step st sha lg (Op_cancel now tid actor) = ledger_after lg (task_cancel now tid actor lg)"
| "ledger_step st sha lg (Op_observe now tid owner token observed execution backend cleanup expected) =
     ledger_after lg (task_observe now tid owner token observed execution backend cleanup expected lg)"
| "ledger_step st sha lg (Op_cleanup now tid cleanup owner token actor) = ledger_after lg (set_cleanup_state now tid cleanup owner token actor lg)"
| "ledger_step st sha lg (Op_reconcile now tid outcome execution m cleanup actor seen) =
     ledger_after lg (task_reconcile now tid outcome execution m cleanup actor seen lg)"
| "ledger_step st sha lg (Op_expired_leases now limit) = reconcile_expired_leases now limit lg"
| "ledger_step st sha lg (Op_deadlines now limit) = expire_deadlines now limit lg"

definition ledger_start :: ledger where
  "ledger_start = \<lparr>lg_tasks = [], lg_events = []\<rparr>"

text \<open>What may happen to a row.\<close>

definition status_change :: "task_status \<Rightarrow> task_status \<Rightarrow> bool" where
  "status_change s s' \<longleftrightarrow> s' = s \<or> s' \<in> set (TRANSITIONS s) \<or> s = T_admitted \<and> s' = T_running"

datatype lease_change = Lease_kept | Lease_cleared | Lease_renewed | Lease_taken

fun lease_rule :: "sandbox_settings \<Rightarrow> time \<Rightarrow> task list \<Rightarrow> task \<Rightarrow> task \<Rightarrow> lease_change \<Rightarrow> bool" where
  "lease_rule st now ts t t' Lease_kept \<longleftrightarrow>
     tk_lease_owner t' = tk_lease_owner t \<and> tk_lease_expires t' = tk_lease_expires t \<and> tk_token t' = tk_token t \<and> tk_attempt t' = tk_attempt t
     \<and> (tk_status t' \<noteq> tk_status t \<longrightarrow> tk_status t' \<notin> set UNCERTAIN \<and> (tk_status t' \<in> set TERMINAL \<longrightarrow> tk_status t \<in> {T_admitted, T_queued}))"
| "lease_rule st now ts t t' Lease_cleared \<longleftrightarrow>
     tk_lease_owner t' = [] \<and> tk_lease_expires t' = None \<and> tk_token t' = tk_token t \<and> tk_attempt t' = tk_attempt t"
| "lease_rule st now ts t t' Lease_renewed \<longleftrightarrow>
     tk_lease_owner t' = tk_lease_owner t \<and> tk_lease_owner t \<noteq> [] \<and> (\<exists>e e'. tk_lease_expires t = Some e \<and> e > now \<and> tk_lease_expires t' = Some e')
     \<and> tk_token t' = tk_token t \<and> tk_attempt t' = tk_attempt t \<and> tk_status t' = tk_status t"
| "lease_rule st now ts t t' Lease_taken \<longleftrightarrow>
     tk_status t \<in> {T_admitted, T_queued} \<and> tk_status t' = T_running \<and> \<not> slots_full st now t ts
     \<and> tk_token t' = tk_token t + 1 \<and> tk_attempt t' = tk_attempt t + 1"

definition row_change :: "sandbox_settings \<Rightarrow> time \<Rightarrow> task list \<Rightarrow> task \<Rightarrow> task \<Rightarrow> bool" where
  "row_change st now ts t t' \<longleftrightarrow>
     tk_id t' = tk_id t \<and> tk_spec t' = tk_spec t \<and> tk_fingerprint t' = tk_fingerprint t
     \<and> status_change (tk_status t) (tk_status t')
     \<and> (tk_manifest t' = tk_manifest t \<or> tk_status t' \<noteq> tk_status t)
     \<and> (tk_status t' = T_succeeded \<longrightarrow> tk_status t \<noteq> T_succeeded \<longrightarrow> manifest_committed (tk_manifest t'))
     \<and> (\<exists>k. lease_rule st now ts t t' k)"

text \<open>An event that records a change of a row, or none for a change that keeps the status.\<close>

definition recorded :: "task \<Rightarrow> task \<Rightarrow> task_event list \<Rightarrow> bool" where
  "recorded t t' es \<longleftrightarrow> (es = [] \<and> tk_status t' = tk_status t)
     \<or> (\<exists>e. es = [e] \<and> te_task e = tk_id t \<and> te_from e = Some (tk_status t) \<and> te_to e = tk_status t')"

inductive ledger_write :: "sandbox_settings \<Rightarrow> time \<Rightarrow> ledger \<Rightarrow> ledger \<Rightarrow> bool" for st now where
  admit: "tk_id t \<notin> tk_id ` set (lg_tasks lg) \<Longrightarrow> \<forall>s \<in> set (lg_tasks lg). (tk_owner s, tk_key s) \<noteq> (tk_owner t, tk_key t)
    \<Longrightarrow> t = new_task st now (tk_id t) (tk_fingerprint t) (tk_spec t) \<Longrightarrow> te_task e = tk_id t \<Longrightarrow> te_from e = None \<Longrightarrow> te_to e = T_admitted
    \<Longrightarrow> ledger_write st now lg (lg\<lparr>lg_tasks := lg_tasks lg @ [t], lg_events := lg_events lg @ [e]\<rparr>)"
| change: "t \<in> set (lg_tasks lg) \<Longrightarrow> row_change st now (lg_tasks lg) t (f t) \<Longrightarrow> recorded t (f t) es
    \<Longrightarrow> ledger_write st now lg (lg\<lparr>lg_tasks := update_where (\<lambda>s. tk_id s = tk_id t) f (lg_tasks lg), lg_events := lg_events lg @ es\<rparr>)"

definition ids_unique :: "ledger \<Rightarrow> bool" where
  "ids_unique lg \<longleftrightarrow> distinct (map tk_id (lg_tasks lg))"

lemma put_task_ids:
  assumes "ids_unique lg" "t \<in> set (lg_tasks lg)"
  shows "put_task t f lg = lg\<lparr>lg_tasks := update_where (\<lambda>s. tk_id s = tk_id t) f (lg_tasks lg)\<rparr>"
proof -
  have "update_where (\<lambda>s. tk_id s = tk_id t \<and> tk_revision s = tk_revision t) f (lg_tasks lg) = update_where (\<lambda>s. tk_id s = tk_id t) f (lg_tasks lg)"
    using distinct_key_unique [OF assms(1) [unfolded ids_unique_def] _ assms(2)] by (auto simp: update_where_def intro!: map_cong)
  then show ?thesis by (simp add: put_task_def)
qed

text \<open>The two shapes in which the operations write a row.\<close>

lemma write_logged:
  assumes "ids_unique lg" "t \<in> set (lg_tasks lg)" "row_change st now (lg_tasks lg) t (f t)" "target = tk_status (f t)"
  shows "ledger_write st now lg (log_event t action (Some (tk_status t)) target actor owner token revision clock (put_task t f lg))"
proof -
  let ?e = "\<lparr>te_task = tk_id t, te_action = clip 100 action, te_from = Some (tk_status t), te_to = target, te_actor = clip 128 actor,
      te_owner = clip 128 owner, te_token = token, te_revision = revision, te_at = clock\<rparr>"
  have "recorded t (f t) [?e]" using assms(4) by (simp add: recorded_def)
  from ledger_write.change [where f = f, OF assms(2,3) this] show ?thesis
    by (simp add: log_event_def put_task_ids [OF assms(1,2)])
qed

lemma write_silent:
  assumes "ids_unique lg" "t \<in> set (lg_tasks lg)" "row_change st now (lg_tasks lg) t (f t)" "tk_status (f t) = tk_status t"
  shows "ledger_write st now lg (put_task t f lg)"
proof -
  have "recorded t (f t) []" using assms(4) by (simp add: recorded_def)
  from ledger_write.change [where f = f, OF assms(2,3) this] show ?thesis by (simp add: put_task_ids [OF assms(1,2)])
qed

lemma require_taskD: "require_task tid lg = Inr t \<Longrightarrow> t \<in> set (lg_tasks lg) \<and> tk_id t = tid"
  by (auto simp: require_task_def get_task_def dest: fetchone_SomeD split: option.splits)

lemma safe_item_idem: "safe_item (safe_item i) = safe_item i"
  by (cases i) (auto simp: safe_item_def clip_def option.map_comp comp_def intro!: option.map_cong)

lemma safe_twice:
  assumes "manifest_committed (safe_manifest m)"
  shows "safe_manifest (safe_manifest m) = safe_manifest m"
proof (cases m)
  case (Items e raw)
  let ?ys = "filter has_id (map safe_item (List.map_filter id (take 256 raw)))"
  have "length (List.map_filter id (take 256 raw)) \<le> 256"
    unfolding map_filter_def using length_filter_le [of _ "take 256 raw"] by (simp add: order_trans [OF length_filter_le])
  then have len: "length ?ys \<le> 256" by (metis length_filter_le length_map order_trans)
  have safe: "map safe_item ?ys = ?ys" by (rule map_idI) (auto simp: safe_item_idem)
  have "List.map_filter id (map Some ?ys) = ?ys" by (simp add: map_filter_def comp_def)
  with len safe Items show ?thesis by simp
qed (use assms in simp_all)

text \<open>Every operation is a sequence of writes; all but the two sweeps are at most one.\<close>

lemma create_write:
  assumes "ids_unique lg"
  shows "(ledger_write st now)\<^sup>=\<^sup>= lg (ledger_after lg (task_create st sha now tid spec actor lg))"
proof (cases "task_create st sha now tid spec actor lg")
  case (Inr out)
  obtain n where n: "validate_task_spec st now spec = Inr n" using Inr by (auto simp: task_create_def or_else_Inr)
  define t where "t = new_task st now (py_strip tid) (fingerprint sha n) n"
  have t: "tk_id t = py_strip tid" "tk_fingerprint t = fingerprint sha n" "tk_spec t = n" by (simp_all add: t_def new_task_def)
  show ?thesis
  proof (cases "fetchone (\<lambda>t. tk_owner t = sp_owner n \<and> tk_key t = sp_key n) (lg_tasks lg)")
    case None
    obtain a where out: "out = (t, log_event t ''sandbox.task_submit'' None T_admitted a [] 0 0 now (lg\<lparr>lg_tasks := lg_tasks lg @ [t]\<rparr>))"
      "\<not> list_ex (\<lambda>t. tk_id t = py_strip tid) (lg_tasks lg)"
      using Inr None n by (auto simp: task_create_def or_else_def Let_def t_def split: if_splits)
    let ?e = "\<lparr>te_task = tk_id t, te_action = clip 100 ''sandbox.task_submit'', te_from = None, te_to = T_admitted, te_actor = clip 128 a,
        te_owner = clip 128 [], te_token = 0, te_revision = 0, te_at = now\<rparr>"
    have "ledger_write st now lg (lg\<lparr>lg_tasks := lg_tasks lg @ [t], lg_events := lg_events lg @ [?e]\<rparr>)"
    proof (rule ledger_write.admit)
      show "tk_id t \<notin> tk_id ` set (lg_tasks lg)" using out(2) t(1) by (auto simp: list_ex_iff)
      show "\<forall>s \<in> set (lg_tasks lg). (tk_owner s, tk_key s) \<noteq> (tk_owner t, tk_key t)" using None t(3) by (auto simp: fetchone_None_iff)
      show "t = new_task st now (tk_id t) (tk_fingerprint t) (tk_spec t)" unfolding t by (rule t_def)
    qed simp_all
    then have "ledger_write st now lg (snd out)" by (simp add: out(1) log_event_def)
    then show ?thesis using Inr by (cases out) (simp add: ledger_after_def)
  next
    case (Some existing)
    then have "snd out = lg" using Inr n by (auto simp: task_create_def or_else_def replay_task_def Let_def split: if_splits)
    then show ?thesis using Inr by (cases out) (simp add: ledger_after_def)
  qed
qed (simp add: ledger_after_def)

lemma row_changeI:
  assumes "lease_rule st now ts t t' k" "tk_id t' = tk_id t \<and> tk_spec t' = tk_spec t \<and> tk_fingerprint t' = tk_fingerprint t"
    and "status_change (tk_status t) (tk_status t')" "tk_manifest t' = tk_manifest t \<or> tk_status t' \<noteq> tk_status t"
    and "tk_status t' = T_succeeded \<Longrightarrow> tk_status t \<noteq> T_succeeded \<Longrightarrow> manifest_committed (tk_manifest t')"
  shows "row_change st now ts t t'"
  using assms by (auto simp: row_change_def)

lemma moved_change:
  assumes "target \<noteq> tk_status t" "target \<in> set (TRANSITIONS (tk_status t))"
    and "target = T_succeeded \<Longrightarrow> (\<exists>x. m = Some (safe_manifest x) \<and> manifest_committed (safe_manifest x))"
  shows "row_change st now ts t (moved clock target ch m t)"
proof -
  have "lease_rule st now ts t (moved clock target ch m t) (if target \<in> set TERMINAL \<or> target \<in> set UNCERTAIN then Lease_cleared else Lease_kept)"
    by (simp add: moved_def)
  moreover have "manifest_committed (tk_manifest (moved clock target ch m t))" if "target = T_succeeded"
    using assms(3) [OF that] safe_twice by (auto simp: moved_def)
  ultimately show ?thesis using assms(1,2) by (intro row_changeI) (simp_all add: status_change_def moved_def)
qed

lemma transition_write:
  assumes "ids_unique lg"
  shows "(ledger_write st now)\<^sup>=\<^sup>= lg (ledger_after lg (task_transition clock tid target ch lg))"
proof (cases "task_transition clock tid target ch lg")
  case (Inr out)
  obtain t where t: "require_task tid lg = Inr t" using Inr by (auto simp: task_transition_def or_else_Inr)
  note mem = require_taskD [OF t]
  show ?thesis
  proof (cases "tk_status t = target")
    case True
    then have "snd out = lg" using Inr t by (auto simp: task_transition_def or_else_def split: if_splits option.splits)
    then show ?thesis using Inr by (cases out) (simp add: ledger_after_def)
  next
    case False
    let ?m = "if target = T_succeeded then Some (safe_manifest (manifest_or (ch_manifest ch) (tk_manifest t))) else ch_manifest ch"
    have ok: "target \<in> set (TRANSITIONS (tk_status t))"
      "target = T_succeeded \<Longrightarrow> manifest_committed (safe_manifest (manifest_or (ch_manifest ch) (tk_manifest t)))"
      using Inr t False by (auto simp: task_transition_def or_else_def split: if_splits option.splits)
    obtain owner token where out: "snd out = log_event t (ch_action ch) (Some (tk_status t)) target (ch_actor ch) owner token (tk_revision t + 1) clock
        (put_task t (moved clock target ch ?m) lg)"
      using Inr t False by (auto simp: task_transition_def or_else_def Let_def split: if_splits option.splits)
    have row: "row_change st now (lg_tasks lg) t (moved clock target ch ?m t)"
      using False ok by (intro moved_change) auto
    have "ledger_write st now lg (snd out)"
      unfolding out by (rule write_logged [OF assms conjunct1 [OF mem]], rule row) (simp add: moved_def)
    then show ?thesis using Inr by (cases out) (simp add: ledger_after_def)
  qed
qed (simp add: ledger_after_def)

text \<open>The rows that the other operations write.\<close>

lemma kept_change:
  assumes "tk_id t' = tk_id t \<and> tk_spec t' = tk_spec t \<and> tk_fingerprint t' = tk_fingerprint t"
    "tk_status t' = tk_status t" "tk_manifest t' = tk_manifest t" "lease_rule st now ts t t' Lease_kept"
  shows "row_change st now ts t t'"
  by (rule row_changeI [OF assms(4,1)]) (simp_all add: assms status_change_def)

lemma expired_change: "tk_status t \<in> {T_admitted, T_queued} \<Longrightarrow> row_change st now ts t (expired_row clock t)"
  by (rule row_changeI [where k = Lease_kept]) (auto simp: expired_row_def status_change_def UNCERTAIN_def)

lemma claim_write:
  assumes "ids_unique lg"
  shows "(ledger_write st now)\<^sup>=\<^sup>= lg (ledger_after lg (task_claim st now tid worker lease_seconds actor lg))"
proof (cases "task_claim st now tid worker lease_seconds actor lg")
  case (Inr out)
  let ?owner = "py_strip worker" and ?expires = "now + seconds (lease_duration st lease_seconds)"
  obtain t where t: "require_task tid lg = Inr t" using Inr by (auto simp: task_claim_def or_else_Inr Let_def split: if_splits)
  note mem = conjunct1 [OF require_taskD [OF t]]
  have late: "row_change st now (lg_tasks lg) t (expired_row now t)" if "tk_status t \<in> {T_admitted, T_queued}"
    using that by (intro expired_change)
  have started: "row_change st now (lg_tasks lg) t (claimed_row now ?owner ?expires t)"
    if "tk_status t \<in> {T_admitted, T_queued}" "\<not> slots_full st now t (lg_tasks lg)"
    by (rule row_changeI [where k = Lease_taken]) (use that in \<open>auto simp: claimed_row_def status_change_def\<close>)
  consider "snd out = lg"
    | "tk_status t \<in> {T_admitted, T_queued}"
      "snd out = log_event t ''sandbox.task_expire'' (Some (tk_status t)) T_expired ''scheduler'' [] 0 (tk_revision t + 1) now (put_task t (expired_row now) lg)"
    | "tk_status t \<in> {T_admitted, T_queued}" "\<not> slots_full st now t (lg_tasks lg)"
      "snd out = log_event t ''sandbox.task_start'' (Some (tk_status t)) T_running (if actor = [] then ?owner else actor) ?owner
         (tk_token t + 1) (tk_revision t + 1) now (put_task t (claimed_row now ?owner ?expires) lg)"
    using Inr t by (auto simp: task_claim_def or_else_def Let_def split: if_splits)
  then have "(ledger_write st now)\<^sup>=\<^sup>= lg (snd out)"
  proof cases
    case 2
    have "ledger_write st now lg (snd out)"
      unfolding 2(2) by (rule write_logged [OF assms mem], rule late [OF 2(1)]) (simp add: expired_row_def)
    then show ?thesis by simp
  next
    case 3
    have "ledger_write st now lg (snd out)"
      unfolding 3(3) by (rule write_logged [OF assms mem], rule started [OF 3(1,2)]) (simp add: claimed_row_def)
    then show ?thesis by simp
  qed simp
  then show ?thesis using Inr by (cases out) (simp add: ledger_after_def)
qed (simp add: ledger_after_def)

lemma renew_write:
  assumes "ids_unique lg"
  shows "(ledger_write st now)\<^sup>=\<^sup>= lg (ledger_after lg (task_renew st now tid owner token lease_seconds lg))"
proof (cases "task_renew st now tid owner token lease_seconds lg")
  case (Inr out)
  obtain t where t: "require_task tid lg = Inr t" using Inr by (auto simp: task_renew_def or_else_Inr)
  note mem = conjunct1 [OF require_taskD [OF t]]
  obtain e where lease: "assert_lease now t (Some owner) (Some token) = None" and out: "snd out = put_task t (renewed_row now e) lg"
    using Inr t by (auto simp: task_renew_def or_else_def Let_def split: option.splits)
  have row: "row_change st now (lg_tasks lg) t (renewed_row now e t)"
    by (rule row_changeI [where k = Lease_renewed]) (use lease in \<open>auto simp: renewed_row_def status_change_def assert_lease_def split: option.splits if_splits\<close>)
  have "ledger_write st now lg (snd out)"
    unfolding out by (rule write_silent [OF assms mem], rule row) (simp add: renewed_row_def)
  then show ?thesis using Inr by (cases out) (simp add: ledger_after_def)
qed (simp add: ledger_after_def)

lemma cancelled_change:
  assumes "target \<in> set (TRANSITIONS (tk_status t))" "target \<in> {T_cancelled, T_cancel_requested}" "target \<noteq> tk_status t"
  shows "row_change st now ts t (cancelled_row clock target t)"
  by (rule row_changeI [where k = "if target = T_cancelled then Lease_cleared else Lease_kept"])
    (use assms in \<open>auto simp: cancelled_row_def status_change_def UNCERTAIN_def TERMINAL_def\<close>)

lemma cancel_write:
  assumes "ids_unique lg"
  shows "(ledger_write st now)\<^sup>=\<^sup>= lg (ledger_after lg (task_cancel clock tid actor lg))"
proof (cases "task_cancel clock tid actor lg")
  case (Inr out)
  obtain t where t: "require_task tid lg = Inr t" using Inr by (auto simp: task_cancel_def or_else_Inr)
  note mem = conjunct1 [OF require_taskD [OF t]]
  let ?target = "if tk_status t \<in> {T_admitted, T_queued} then T_cancelled else T_cancel_requested"
  consider "snd out = lg"
    | "snd out = log_event t ''sandbox.task_cancel'' (Some (tk_status t)) (tk_status t) actor [] (tk_token t) (tk_revision t + 1) clock
        (put_task t (wish_cancelled clock) lg)"
    | "tk_status t \<noteq> T_cancel_requested" "tk_status t \<notin> set TERMINAL" "?target \<in> set (TRANSITIONS (tk_status t))"
      "snd out = log_event t ''sandbox.task_cancel'' (Some (tk_status t)) ?target actor (tk_lease_owner t) (tk_token t) (tk_revision t + 1) clock
        (put_task t (cancelled_row clock ?target) lg)"
    using Inr t by (auto simp: task_cancel_def or_else_def Let_def split: if_splits)
  then have "(ledger_write st now)\<^sup>=\<^sup>= lg (snd out)"
  proof cases
    case 2
    have "row_change st now (lg_tasks lg) t (wish_cancelled clock t)" by (rule kept_change) (simp_all add: wish_cancelled_def)
    then have "ledger_write st now lg (snd out)"
      unfolding 2 by (intro write_logged [OF assms mem]) (simp_all add: wish_cancelled_def)
    then show ?thesis by simp
  next
    case 3
    have "row_change st now (lg_tasks lg) t (cancelled_row clock ?target t)"
      by (rule cancelled_change) (use 3(1-3) in \<open>auto simp: TERMINAL_def\<close>)
    then have "ledger_write st now lg (snd out)"
      unfolding 3(4) by (intro write_logged [OF assms mem]) (simp_all add: cancelled_row_def)
    then show ?thesis by simp
  qed simp
  then show ?thesis using Inr by (cases out) (simp add: ledger_after_def)
qed (simp add: ledger_after_def)

lemma observe_write:
  assumes "ids_unique lg"
  shows "(ledger_write st now)\<^sup>=\<^sup>= lg (ledger_after lg (task_observe clock tid owner token observed execution backend cleanup expected lg))"
proof (cases "task_observe clock tid owner token observed execution backend cleanup expected lg")
  case (Inr out)
  let ?f = "observed_row clock observed execution backend cleanup"
  obtain t where t: "require_task tid lg = Inr t" using Inr by (auto simp: task_observe_def or_else_Inr)
  note mem = conjunct1 [OF require_taskD [OF t]]
  have out: "snd out = log_event t ''sandbox.task_observe'' (Some (tk_status t)) (tk_status t) owner owner token (tk_revision t + 1) clock (put_task t ?f lg)"
    using Inr t by (auto simp: task_observe_def or_else_def split: option.splits if_splits)
  have "row_change st now (lg_tasks lg) t (?f t)" by (rule kept_change) (simp_all add: observed_row_def)
  then have "ledger_write st now lg (snd out)"
    unfolding out by (intro write_logged [OF assms mem]) (simp_all add: observed_row_def)
  then show ?thesis using Inr by (cases out) (simp add: ledger_after_def)
qed (simp add: ledger_after_def)

lemma cleanup_write:
  assumes "ids_unique lg"
  shows "(ledger_write st now)\<^sup>=\<^sup>= lg (ledger_after lg (set_cleanup_state clock tid cleanup owner token actor lg))"
proof (cases "set_cleanup_state clock tid cleanup owner token actor lg")
  case (Inr out)
  obtain t where t: "require_task tid lg = Inr t" using Inr by (auto simp: set_cleanup_state_def or_else_Inr split: if_splits)
  note mem = conjunct1 [OF require_taskD [OF t]]
  obtain o' k where out: "snd out = log_event t ''sandbox.task_cleanup'' (Some (tk_status t)) (tk_status t) actor o' k (tk_revision t + 1) clock
      (put_task t (cleanup_row clock cleanup) lg)"
    using Inr t by (auto simp: set_cleanup_state_def or_else_def split: option.splits if_splits)
  have "row_change st now (lg_tasks lg) t (cleanup_row clock cleanup t)" by (rule kept_change) (simp_all add: cleanup_row_def)
  then have "ledger_write st now lg (snd out)"
    unfolding out by (intro write_logged [OF assms mem]) (simp_all add: cleanup_row_def)
  then show ?thesis using Inr by (cases out) (simp add: ledger_after_def)
qed (simp add: ledger_after_def)

lemma reconcile_write:
  assumes "ids_unique lg"
  shows "(ledger_write st now)\<^sup>=\<^sup>= lg (ledger_after lg (task_reconcile clock tid outcome execution m cleanup actor seen lg))"
  using transition_write [OF assms]
  by (auto simp: task_reconcile_def ledger_after_def split: option.split)

section \<open>Runs and invariants\<close>

lemma update_ids:
  assumes "ids_unique lg" "t \<in> set (lg_tasks lg)" "tk_id (f t) = tk_id t"
  shows "map tk_id (update_where (\<lambda>s. tk_id s = tk_id t) f (lg_tasks lg)) = map tk_id (lg_tasks lg)"
proof -
  have "tk_id ((if tk_id s = tk_id t then f s else s)) = tk_id s" if "s \<in> set (lg_tasks lg)" for s
    using distinct_key_unique [OF assms(1) [unfolded ids_unique_def] that assms(2)] assms(3) by auto
  then show ?thesis by (simp add: update_where_def)
qed

lemma ids_write: "ledger_write st now lg lg' \<Longrightarrow> ids_unique lg \<Longrightarrow> ids_unique lg'"
proof (induction rule: ledger_write.induct)
  case (change t lg f es)
  show ?case using change(4) update_ids [OF change(4,1)] change(2) by (simp add: ids_unique_def row_change_def)
qed (simp add: ids_unique_def)

lemma ids_writes: "(ledger_write st now)\<^sup>*\<^sup>* lg lg' \<Longrightarrow> ids_unique lg \<Longrightarrow> ids_unique lg'"
  by (induction rule: rtranclp_induct) (auto intro: ids_write)

text \<open>A sweep writes the selected rows one after the other; each is still as it was read.\<close>

lemma sweep_writes:
  assumes one: "\<And>lg t. ids_unique lg \<Longrightarrow> t \<in> set (lg_tasks lg) \<Longrightarrow> P t \<Longrightarrow> ledger_write st now lg (g lg t) \<and> lg_tasks (g lg t) = lg_tasks (put_task t h lg)"
    and "ids_unique lg" "distinct (map tk_id ts)" "set ts \<subseteq> set (lg_tasks lg)" "\<forall>t \<in> set ts. P t"
  shows "(ledger_write st now)\<^sup>*\<^sup>* lg (foldl g lg ts)"
  using assms(2-)
proof (induction ts arbitrary: lg)
  case (Cons t ts)
  have t: "ledger_write st now lg (g lg t)" "lg_tasks (g lg t) = lg_tasks (put_task t h lg)" using one Cons.prems by simp_all
  have "s \<in> set (lg_tasks (g lg t))" if "s \<in> set ts" for s
  proof -
    have "tk_id t \<notin> tk_id ` set ts" using Cons.prems(2) by simp
    then have "tk_id s \<noteq> tk_id t" using that by (metis imageI)
    then show ?thesis using Cons.prems(3) that by (auto simp: t(2) put_task_def intro: update_where_untouched)
  qed
  then have "(ledger_write st now)\<^sup>*\<^sup>* (g lg t) (foldl g (g lg t) ts)"
    using ids_write [OF t(1) Cons.prems(1)] Cons.prems by (intro Cons.IH) auto
  with t(1) show ?case by (simp add: converse_rtranclp_into_rtranclp)
qed simp

lemma selected_rows:
  assumes "ids_unique lg"
  shows "distinct (map tk_id (take n (sort_key k (filter P (lg_tasks lg)))))"
    "set (take n (sort_key k (filter P (lg_tasks lg)))) \<subseteq> set (lg_tasks lg)"
    "\<forall>t \<in> set (take n (sort_key k (filter P (lg_tasks lg)))). P t"
proof -
  have "distinct (map tk_id (filter P (lg_tasks lg)))" using assms by (simp add: ids_unique_def distinct_map_filter)
  then have "distinct (map tk_id (sort_key k (filter P (lg_tasks lg))))"
    by (simp add: distinct_map)
  then show "distinct (map tk_id (take n (sort_key k (filter P (lg_tasks lg)))))" by (simp add: distinct_take flip: take_map)
qed (auto dest!: in_set_takeD)

lemma lost_change: "tk_status t \<in> set LEASED \<Longrightarrow> row_change st now ts t (lost_row clock t)"
  by (rule row_changeI [where k = Lease_cleared]) (auto simp: lost_row_def lost_target_def status_change_def LEASED_def split: if_splits)

lemma expired_leases_writes:
  assumes "ids_unique lg"
  shows "(ledger_write st now)\<^sup>*\<^sup>* lg (reconcile_expired_leases clock limit lg)"
  unfolding reconcile_expired_leases_def
proof (rule sweep_writes [where P = "lease_over clock", OF _ assms selected_rows [OF assms]])
  fix lg t assume "ids_unique lg" "t \<in> set (lg_tasks lg)" "lease_over clock t"
  then show "ledger_write st now lg (lose_lease clock lg t) \<and> lg_tasks (lose_lease clock lg t) = lg_tasks (put_task t (lost_row clock) lg)"
    unfolding lose_lease_def by (intro conjI write_logged lost_change) (simp_all add: lease_over_def lost_row_def log_event_def)
qed

lemma deadlines_writes:
  assumes "ids_unique lg"
  shows "(ledger_write st now)\<^sup>*\<^sup>* lg (expire_deadlines clock limit lg)"
  unfolding expire_deadlines_def
proof (rule sweep_writes [where P = "overdue clock", OF _ assms selected_rows [OF assms]])
  fix lg t assume "ids_unique lg" "t \<in> set (lg_tasks lg)" "overdue clock t"
  then show "ledger_write st now lg (expire_task clock lg t) \<and> lg_tasks (expire_task clock lg t) = lg_tasks (put_task t (expired_row clock) lg)"
    unfolding expire_task_def by (intro conjI write_logged expired_change) (simp_all add: overdue_def expired_row_def log_event_def)
qed

lemma step_writes:
  assumes "ids_unique lg"
  shows "(ledger_write st (op_time op))\<^sup>*\<^sup>* lg (ledger_step st sha lg op)"
proof -
  have one: "(ledger_write st now)\<^sup>*\<^sup>* lg lg'" if "(ledger_write st now)\<^sup>=\<^sup>= lg lg'" for now lg' using that by auto
  show ?thesis
    by (cases op) (simp_all add: one [OF create_write [OF assms]] one [OF transition_write [OF assms]] one [OF claim_write [OF assms]]
      one [OF renew_write [OF assms]] one [OF cancel_write [OF assms]] one [OF observe_write [OF assms]] one [OF cleanup_write [OF assms]]
      one [OF reconcile_write [OF assms]] expired_leases_writes [OF assms] deadlines_writes [OF assms])
qed

abbreviation ledger_run :: "sandbox_settings \<Rightarrow> (task_spec \<Rightarrow> string) \<Rightarrow> ledger \<Rightarrow> task_op list \<Rightarrow> ledger" where
  "ledger_run st sha \<equiv> foldl (ledger_step st sha)"

lemma run_keeps:
  assumes kept: "\<And>now lg lg'. ledger_write st now lg lg' \<Longrightarrow> ids_unique lg \<Longrightarrow> I lg \<Longrightarrow> I lg'"
    and "ids_unique lg" "I lg"
  shows "ids_unique (ledger_run st sha lg ops) \<and> I (ledger_run st sha lg ops)"
proof (rule foldl_invariant [where P = "\<lambda>lg. ids_unique lg \<and> I lg"])
  fix lg op assume "ids_unique lg \<and> I lg"
  moreover have "ids_unique lg' \<and> I lg'" if "(ledger_write st now)\<^sup>*\<^sup>* lg lg'" "ids_unique lg \<and> I lg" for now lg'
    using that by (induction rule: rtranclp_induct) (auto intro: ids_write kept)
  ultimately show "ids_unique (ledger_step st sha lg op) \<and> I (ledger_step st sha lg op)" using step_writes by blast
qed (use assms in simp)

text \<open>Rows: only a task in progress has a lease, a success has committed artifacts, and a task is claimed at most once.\<close>

definition lease_row_ok :: "task \<Rightarrow> bool" where
  "lease_row_ok t \<longleftrightarrow> (tk_status t \<notin> set LEASED \<longrightarrow> tk_lease_owner t = [] \<and> tk_lease_expires t = None)
     \<and> (tk_status t = T_succeeded \<longrightarrow> manifest_committed (tk_manifest t))
     \<and> tk_attempt t \<le> (if tk_status t \<in> {T_admitted, T_queued} then 0 else 1)"

lemmas status_sets = TERMINAL_def UNCERTAIN_def LEASED_def

lemma row_change_ok:
  assumes "row_change st now ts t t'" "lease_row_ok t"
  shows "lease_row_ok t'"
proof -
  obtain k where k: "lease_rule st now ts t t' k" using assms(1) by (auto simp: row_change_def)
  have change: "status_change (tk_status t) (tk_status t')"
    "tk_status t' = T_succeeded \<longrightarrow> manifest_committed (tk_manifest t')"
    using assms by (auto simp: row_change_def lease_row_ok_def)
  show ?thesis
  proof (cases k)
    case Lease_kept
    then show ?thesis using k change assms(2)
      by (cases "tk_status t"; cases "tk_status t'") (simp_all add: lease_row_ok_def status_change_def status_sets)
  next
    case Lease_cleared
    then show ?thesis using k change assms(2)
      by (cases "tk_status t") (auto simp: lease_row_ok_def status_change_def status_sets)
  next
    case Lease_renewed
    then show ?thesis using k change assms(2) by (auto simp: lease_row_ok_def)
  next
    case Lease_taken
    then show ?thesis using k change assms(2) by (auto simp: lease_row_ok_def status_sets)
  qed
qed

definition rows_ok :: "ledger \<Rightarrow> bool" where
  "rows_ok lg \<longleftrightarrow> list_all lease_row_ok (lg_tasks lg)"

lemma all_update_where:
  assumes "r \<in> set (update_where P f rows)" "\<And>r. r \<in> set rows \<Longrightarrow> P r \<Longrightarrow> Q (f r)" "\<And>r. r \<in> set rows \<Longrightarrow> Q r"
  shows "Q r"
  using assms by (auto simp: set_update_where split: if_splits)

lemma rows_write:
  assumes "ledger_write st now lg lg'" "ids_unique lg" "rows_ok lg"
  shows "rows_ok lg'"
  using assms
proof cases
  case (admit t e)
  have "lease_row_ok t" by (subst admit(4)) (simp add: lease_row_ok_def new_task_def)
  with assms(3) admit show ?thesis by (simp add: rows_ok_def)
next
  case (change t f es)
  have old: "lease_row_ok s" if "s \<in> set (lg_tasks lg)" for s using assms(3) that by (simp add: rows_ok_def list_all_iff)
  have "lease_row_ok s" if "s \<in> set (update_where (\<lambda>s. tk_id s = tk_id t) f (lg_tasks lg))" for s
    using that
  proof (rule all_update_where)
    show "lease_row_ok (f s)" if "s \<in> set (lg_tasks lg)" "tk_id s = tk_id t" for s
      using distinct_key_unique [OF assms(2) [unfolded ids_unique_def] that(1) change(2) that(2)] row_change_ok [OF change(3)] old change(2) by simp
  qed (rule old)
  then show ?thesis by (simp add: change(1) rows_ok_def list_all_iff)
qed

lemma start_ok: "ids_unique ledger_start" "rows_ok ledger_start"
  by (simp_all add: ids_unique_def rows_ok_def ledger_start_def)

lemma run_ok: "ids_unique (ledger_run st sha ledger_start ops) \<and> rows_ok (ledger_run st sha ledger_start ops)"
  by (rule run_keeps [where I = rows_ok, OF rows_write start_ok])

section \<open>The concurrency limits\<close>

lemma rowcount_update_le:
  assumes "\<And>r. r \<in> set rows \<Longrightarrow> \<not> K r \<Longrightarrow> Q r \<Longrightarrow> Q' r" "\<And>r. r \<in> set rows \<Longrightarrow> K r \<Longrightarrow> Q (f r) \<Longrightarrow> Q' r"
  shows "rowcount Q (update_where K f rows) \<le> rowcount Q' rows"
  using assms by (induction rows) auto

lemma rowcount_update_le_one:
  assumes "\<And>r. r \<in> set rows \<Longrightarrow> \<not> K r \<Longrightarrow> Q r \<Longrightarrow> Q' r"
  shows "rowcount Q (update_where K f rows) \<le> rowcount Q' rows + rowcount K rows"
  using assms
proof (induction rows)
  case (Cons r rows)
  have "rowcount Q (update_where K f rows) \<le> rowcount Q' rows + rowcount K rows" using Cons by simp
  then show ?case using Cons.prems [of r] by auto
qed simp

lemma rowcount_id:
  assumes "distinct (map k rows)"
  shows "rowcount (\<lambda>s. k s = x) rows \<le> 1"
  using assms
proof (induction rows)
  case (Cons r rows)
  show ?case
  proof (cases "k r = x")
    case True
    then have "\<not> 0 < rowcount (\<lambda>s. k s = x) rows" using Cons.prems unfolding rowcount_pos_iff by (auto simp: image_iff)
    then show ?thesis by simp
  next
    case False
    then show ?thesis using Cons by simp
  qed
qed simp

text \<open>The tasks of a selection that hold a slot; the limits at every instant from \<open>now\<close> on.\<close>

definition slots :: "(task_spec \<Rightarrow> bool) \<Rightarrow> time \<Rightarrow> ledger \<Rightarrow> int" where
  "slots sel u lg = int (rowcount (\<lambda>t. sel (tk_spec t) \<and> holds_slot u t) (lg_tasks lg))"

definition within_limits :: "sandbox_settings \<Rightarrow> time \<Rightarrow> ledger \<Rightarrow> bool" where
  "within_limits st now lg \<longleftrightarrow> (\<forall>u \<ge> now. slots (\<lambda>_. True) u lg \<le> max 1 (sb_max_concurrent st)
     \<and> (\<forall>owner. slots (\<lambda>s. sp_owner s = owner) u lg \<le> max 1 (sb_max_per_user st))
     \<and> (\<forall>department. slots (\<lambda>s. sp_department s = department) u lg \<le> max 1 (sb_max_per_department st)))"

lemma holds_slot_earlier: "holds_slot u t \<Longrightarrow> now \<le> u \<Longrightarrow> holds_slot now t"
  by (auto simp: holds_slot_def split: option.splits)

lemma row_change_slot:
  assumes "row_change st now ts t t'" "lease_row_ok t" "holds_slot u t'" "now \<le> u"
  shows "holds_slot now t \<or> \<not> slots_full st now t ts"
proof -
  obtain k where k: "lease_rule st now ts t t' k" using assms(1) by (auto simp: row_change_def)
  have "tk_status t \<in> set LEASED" if "tk_lease_expires t \<noteq> None" using assms(2) that by (auto simp: lease_row_ok_def)
  then show ?thesis using k assms(3,4) by (cases k) (auto simp: holds_slot_def split: option.splits)
qed

text \<open>A write adds at most one slot, and only where the limits leave room for it.\<close>

lemma write_slots:
  assumes "ledger_write st now lg lg'" "ids_unique lg" "rows_ok lg" "now \<le> u"
  shows "slots sel u lg' \<le> slots sel now lg
    \<or> (\<exists>t \<in> set (lg_tasks lg). sel (tk_spec t) \<and> \<not> slots_full st now t (lg_tasks lg) \<and> slots sel u lg' \<le> slots sel now lg + 1)"
  using assms(1)
proof cases
  case (admit t e)
  have "\<not> holds_slot u t" by (subst admit(4)) (simp add: holds_slot_def new_task_def)
  then have "slots sel u lg' = slots sel u lg" by (simp add: admit(1) slots_def rowcount_def)
  also have "\<dots> \<le> slots sel now lg"
    unfolding slots_def of_nat_le_iff by (rule rowcount_mono) (use holds_slot_earlier assms(4) in blast)
  finally show ?thesis by simp
next
  case (change t f es)
  have same: "s = t" if "s \<in> set (lg_tasks lg)" "tk_id s = tk_id t" for s
    by (rule distinct_key_unique [OF assms(2) [unfolded ids_unique_def] that(1) change(2) that(2)])
  have tasks': "lg_tasks lg' = update_where (\<lambda>s. tk_id s = tk_id t) f (lg_tasks lg)" by (simp add: change(1))
  have spec: "tk_spec (f t) = tk_spec t" using change(3) by (simp add: row_change_def)
  have ok: "lease_row_ok t" using assms(3) change(2) by (simp add: rows_ok_def list_all_iff)
  show ?thesis
  proof (cases "sel (tk_spec t) \<and> \<not> slots_full st now t (lg_tasks lg)")
    case True
    have "slots sel u lg' \<le> slots sel now lg + int (rowcount (\<lambda>s. tk_id s = tk_id t) (lg_tasks lg))"
      unfolding slots_def tasks' of_nat_add [symmetric] of_nat_le_iff
      by (rule rowcount_update_le_one) (use holds_slot_earlier assms(4) in blast)
    also have "\<dots> \<le> slots sel now lg + 1" using rowcount_id [OF assms(2) [unfolded ids_unique_def]] by simp
    finally show ?thesis using True change(2) by blast
  next
    case False
    have "slots sel u lg' \<le> slots sel now lg"
      unfolding slots_def tasks' of_nat_le_iff
    proof (rule rowcount_update_le)
      fix s assume s: "s \<in> set (lg_tasks lg)" "tk_id s = tk_id t" "sel (tk_spec (f s)) \<and> holds_slot u (f s)"
      then have "s = t" using same by blast
      then show "sel (tk_spec s) \<and> holds_slot now s"
        using s(3) spec False row_change_slot [OF change(3) ok _ assms(4)] by auto
    qed (use holds_slot_earlier assms(4) in blast)
    then show ?thesis by simp
  qed
qed

lemma write_within_limits:
  assumes "ledger_write st now lg lg'" "ids_unique lg" "rows_ok lg" "within_limits st start lg" "start \<le> now"
  shows "within_limits st now lg'"
proof -
  have room: "slots (\<lambda>_. True) now lg + 1 \<le> max 1 (sb_max_concurrent st)" "slots (\<lambda>s. sp_owner s = tk_owner t) now lg + 1 \<le> max 1 (sb_max_per_user st)"
    "slots (\<lambda>s. sp_department s = tk_department t) now lg + 1 \<le> max 1 (sb_max_per_department st)"
    if "\<not> slots_full st now t (lg_tasks lg)" for t
    using that by (auto simp: slots_full_def slots_def)
  note now = assms(4) [unfolded within_limits_def, rule_format, OF assms(5)]
  show ?thesis unfolding within_limits_def
  proof (intro allI impI conjI)
    fix u owner department assume u: "now \<le> u"
    have bound: "slots sel u lg' \<le> limit"
      if "slots sel now lg \<le> limit" "\<And>t. sel (tk_spec t) \<Longrightarrow> \<not> slots_full st now t (lg_tasks lg) \<Longrightarrow> slots sel now lg + 1 \<le> limit" for sel limit
      using write_slots [OF assms(1-3) u, of sel] that by (meson order_trans)
    show "slots (\<lambda>_. True) u lg' \<le> max 1 (sb_max_concurrent st)" by (rule bound) (use now room(1) in simp_all)
    show "slots (\<lambda>s. sp_owner s = owner) u lg' \<le> max 1 (sb_max_per_user st)" by (rule bound) (use now room(2) in auto)
    show "slots (\<lambda>s. sp_department s = department) u lg' \<le> max 1 (sb_max_per_department st)" by (rule bound) (use now room(3) in auto)
  qed
qed

lemma writes_within_limits:
  assumes "(ledger_write st now)\<^sup>*\<^sup>* lg lg'" "ids_unique lg" "rows_ok lg" "within_limits st now lg"
  shows "within_limits st now lg' \<and> ids_unique lg' \<and> rows_ok lg'"
  using assms(1)
proof (induction rule: rtranclp_induct)
  case (step y z)
  then show ?case using write_within_limits [OF step(2) _ _ _ order_refl] ids_write rows_write by blast
qed (use assms in simp)

text \<open>C35. However operations interleave, as long as their clock does not run backwards: at every instant the tasks that hold
  a lease are at most as many as the deployment allows, those of each user at most as many as a user may have, and
  those of each department at most as many as a department may have.\<close>

theorem sandbox_slots_bounded:
  assumes "sorted (map op_time ops)" "\<forall>op \<in> set ops. op_time op \<le> u" "lg = ledger_run st sha ledger_start ops"
  shows "int (rowcount (holds_slot u) (lg_tasks lg)) \<le> max 1 (sb_max_concurrent st)
    \<and> int (rowcount (\<lambda>t. tk_owner t = owner \<and> holds_slot u t) (lg_tasks lg)) \<le> max 1 (sb_max_per_user st)
    \<and> int (rowcount (\<lambda>t. tk_department t = department \<and> holds_slot u t) (lg_tasks lg)) \<le> max 1 (sb_max_per_department st)"
proof -
  have run: "within_limits st u (ledger_run st sha lg0 ops)"
    if "within_limits st start lg0" "ids_unique lg0" "rows_ok lg0" "\<forall>op \<in> set ops. start \<le> op_time op" "sorted (map op_time ops)"
      "\<forall>op \<in> set ops. op_time op \<le> u" "start \<le> u" for start lg0
    using that
  proof (induction ops arbitrary: start lg0)
    case Nil
    then show ?case by (simp add: within_limits_def)
  next
    case (Cons op ops)
    have "within_limits st (op_time op) lg0" using Cons.prems(1,4) by (auto simp: within_limits_def)
    from writes_within_limits [OF step_writes [OF Cons.prems(2)] Cons.prems(2,3) this]
    have after: "within_limits st (op_time op) (ledger_step st sha lg0 op)" "ids_unique (ledger_step st sha lg0 op)" "rows_ok (ledger_step st sha lg0 op)"
      by blast+
    show ?case using Cons.IH [OF after] Cons.prems(5,6) by simp
  qed
  have "within_limits st start ledger_start" for start by (simp add: within_limits_def slots_def ledger_start_def le_max_iff_disj)
  moreover obtain start where "\<forall>op \<in> set ops. start \<le> op_time op" "start \<le> u"
  proof
    show "\<forall>op \<in> set ops. Min (insert u (op_time ` set ops)) \<le> op_time op" "Min (insert u (op_time ` set ops)) \<le> u" by simp_all
  qed
  ultimately have "within_limits st u lg" unfolding assms(3) using start_ok assms(1,2) by (intro run) simp_all
  from this [unfolded within_limits_def, rule_format, OF order_refl] show ?thesis by (simp add: slots_def)
qed

section \<open>What stays\<close>

text \<open>A property of a row that no change of the row destroys holds from then on.\<close>

definition row_with :: "(task \<Rightarrow> bool) \<Rightarrow> string \<Rightarrow> ledger \<Rightarrow> bool" where
  "row_with S tid lg \<longleftrightarrow> (\<exists>t \<in> set (lg_tasks lg). tk_id t = tid \<and> S t)"

lemma stable_write:
  assumes "\<And>now ts t t'. row_change st now ts t t' \<Longrightarrow> S t \<Longrightarrow> S t'"
    and "ledger_write st now lg lg'" "ids_unique lg" "row_with S tid lg"
  shows "row_with S tid lg'"
  using assms(2)
proof cases
  case (admit t e)
  then show ?thesis using assms(4) by (auto simp: row_with_def)
next
  case (change t f es)
  obtain s where s: "s \<in> set (lg_tasks lg)" "tk_id s = tid" "S s" using assms(4) by (auto simp: row_with_def)
  show ?thesis
  proof (cases "s = t")
    case True
    then have "S (f s)" "tk_id (f s) = tid" using assms(1) [OF change(3)] change(3) s by (auto simp: row_change_def)
    moreover have "f s \<in> set (lg_tasks lg')" using s(1) True by (simp add: change(1) update_where_touched)
    ultimately show ?thesis by (auto simp: row_with_def)
  next
    case False
    then have "tk_id s \<noteq> tk_id t" using distinct_key_unique [OF assms(3) [unfolded ids_unique_def] s(1) change(2)] by blast
    then have "s \<in> set (lg_tasks lg')" using s(1) by (simp add: change(1) update_where_untouched)
    then show ?thesis using s by (auto simp: row_with_def)
  qed
qed

lemma stable_run:
  assumes "\<And>now ts t t'. row_change st now ts t t' \<Longrightarrow> S t \<Longrightarrow> S t'" "ids_unique lg" "row_with S tid lg"
  shows "ids_unique (ledger_run st sha lg ops) \<and> row_with S tid (ledger_run st sha lg ops)"
  by (rule run_keeps [where I = "row_with S tid", OF stable_write assms(2,3)]) (use assms(1) in blast)

lemma require_task_iff:
  assumes "ids_unique lg"
  shows "require_task tid lg = Inr t \<longleftrightarrow> t \<in> set (lg_tasks lg) \<and> tk_id t = tid"
  using fetchone_key_iff [OF assms [unfolded ids_unique_def], of tid t] by (auto simp: require_task_def get_task_def split: option.splits)

lemma row_with_require:
  assumes "ids_unique lg" "row_with S tid lg"
  obtains t where "require_task tid lg = Inr t" "S t"
  using assms require_task_iff by (auto simp: row_with_def)

text \<open>A task that left the queue stays out of it.\<close>

lemma started_stable:
  assumes "row_change st now ts t t'" "tk_status t \<notin> {T_admitted, T_queued}"
  shows "tk_status t' \<notin> {T_admitted, T_queued}"
  using assms by (cases "tk_status t") (auto simp: row_change_def status_change_def)

text \<open>C36. A task is started at most once: after a claim of a task succeeded, no later claim of it does, whatever happens to
  the task, its lease or its worker in between.\<close>

theorem sandbox_started_once:
  assumes "lg = ledger_run st sha ledger_start ops" "task_claim st now tid worker ls actor lg = Inr (Some t, lg1)"
    and "lg2 = ledger_run st sha lg1 later"
  shows "task_claim st now' tid worker' ls' actor' lg2 \<noteq> Inr (Some t', lg3)"
proof
  assume again: "task_claim st now' tid worker' ls' actor' lg2 = Inr (Some t', lg3)"
  have ids: "ids_unique lg" using run_ok assms(1) by blast
  have step: "(ledger_write st now)\<^sup>=\<^sup>= lg lg1" using claim_write [OF ids, of st now tid worker ls actor] by (simp add: assms(2) ledger_after_def)
  then have ids1: "ids_unique lg1" using ids ids_write by auto
  let ?S = "\<lambda>t. tk_status t \<notin> {T_admitted, T_queued}"
  obtain s where s: "require_task tid lg = Inr s" "t = claimed_row now (py_strip worker) (now + seconds (lease_duration st ls)) s"
    "lg_tasks lg1 = lg_tasks (put_task s (claimed_row now (py_strip worker) (now + seconds (lease_duration st ls))) lg)"
    using assms(2) by (auto simp: task_claim_def or_else_Inr Let_def log_event_def split: if_splits)
  note mem = require_taskD [OF s(1)]
  have "t \<in> set (lg_tasks lg1)"
    unfolding s(3) put_task_ids [OF ids conjunct1 [OF mem]] using mem s(2) by (auto intro!: update_where_touched)
  then have "row_with ?S tid lg1" using mem s(2) by (auto simp: row_with_def claimed_row_def intro!: bexI [of _ t])
  from stable_run [OF _ ids1 this, of st sha later] started_stable
  have "ids_unique lg2" "row_with ?S tid lg2" unfolding assms(3) by blast+
  then obtain r where "require_task tid lg2 = Inr r" "?S r" by (rule row_with_require)
  then show False using again by (auto simp: task_claim_def or_else_def Let_def split: if_splits)
qed

text \<open>A finished task keeps its status, its request and its result.\<close>

lemma finished_stable:
  assumes "row_change st now ts t t'" "tk_status t \<in> set TERMINAL \<and> tk_status t = s \<and> tk_manifest t = m \<and> tk_spec t = sp"
  shows "tk_status t' \<in> set TERMINAL \<and> tk_status t' = s \<and> tk_manifest t' = m \<and> tk_spec t' = sp"
proof -
  have "TRANSITIONS (tk_status t) = []" "tk_status t \<noteq> T_admitted" using assms(2) by (cases "tk_status t"; simp add: TERMINAL_def)+
  then have "tk_status t' = tk_status t" using assms(1) by (simp add: row_change_def status_change_def)
  with assms show ?thesis by (auto simp: row_change_def)
qed

text \<open>C37. A finished task is final: whatever operations follow, its status, request and result stay as they are; and a task
  that succeeded has a result of at least one artifact, each committed, with an identifier free of path components
  and a SHA-256 digest.\<close>

theorem sandbox_finished_final:
  assumes "lg = ledger_run st sha ledger_start ops" "t \<in> set (lg_tasks lg)" "tk_status t \<in> set TERMINAL"
  shows "(tk_status t = T_succeeded \<longrightarrow> manifest_committed (tk_manifest t))
    \<and> (\<exists>t' \<in> set (lg_tasks (ledger_run st sha lg later)). tk_id t' = tk_id t \<and> tk_status t' = tk_status t
        \<and> tk_manifest t' = tk_manifest t \<and> tk_spec t' = tk_spec t)"
proof
  have ok: "ids_unique lg" "rows_ok lg" using run_ok assms(1) by blast+
  then show "tk_status t = T_succeeded \<longrightarrow> manifest_committed (tk_manifest t)"
    using assms(2) by (simp add: rows_ok_def list_all_iff lease_row_ok_def)
  let ?S = "\<lambda>x. tk_status x \<in> set TERMINAL \<and> tk_status x = tk_status t \<and> tk_manifest x = tk_manifest t \<and> tk_spec x = tk_spec t"
  have "row_with ?S (tk_id t) lg" using assms(2,3) by (auto simp: row_with_def)
  from stable_run [OF _ ok(1) this, of st sha later] finished_stable
  show "\<exists>t' \<in> set (lg_tasks (ledger_run st sha lg later)). tk_id t' = tk_id t \<and> tk_status t' = tk_status t
      \<and> tk_manifest t' = tk_manifest t \<and> tk_spec t' = tk_spec t" unfolding row_with_def by blast
qed

text \<open>Without a lease and out of the queue, there is no way back to one.\<close>

lemma unleased_stable:
  assumes "row_change st now ts t t'" "tk_status t \<notin> {T_admitted, T_queued} \<and> tk_lease_owner t = []"
  shows "tk_status t' \<notin> {T_admitted, T_queued} \<and> tk_lease_owner t' = []"
proof -
  obtain k where k: "lease_rule st now ts t t' k" using assms(1) by (auto simp: row_change_def)
  have "tk_lease_owner t' = []" using k assms(2) by (cases k) auto
  with started_stable [OF assms(1)] assms(2) show ?thesis by blast
qed


section \<open>The events replay to the tasks\<close>

text \<open>The steps an event log records for a task, and following them: \<open>None\<close> where a step does not start at the status
  the previous one reached.\<close>

definition trace :: "string \<Rightarrow> task_event list \<Rightarrow> (task_status option \<times> task_status) list" where
  "trace tid es = map (\<lambda>e. (te_from e, te_to e)) (filter (\<lambda>e. te_task e = tid) es)"

fun follow :: "task_status option \<Rightarrow> (task_status option \<times> task_status) list \<Rightarrow> task_status option option" where
  "follow s [] = Some s"
| "follow s ((from_status, to_status) # steps) = (if from_status = s then follow (Some to_status) steps else None)"

lemma follow_append: "follow s (xs @ ys) = (case follow s xs of None \<Rightarrow> None | Some s' \<Rightarrow> follow s' ys)"
  by (induction s xs rule: follow.induct) auto

lemma trace_append: "trace tid (xs @ ys) = trace tid xs @ trace tid ys"
  by (simp add: trace_def)

definition legal_step :: "task_status option \<times> task_status \<Rightarrow> bool" where
  "legal_step step \<longleftrightarrow> (case step of (None, s) \<Rightarrow> s = T_admitted | (Some s, s') \<Rightarrow> status_change s s')"

definition replays :: "ledger \<Rightarrow> bool" where
  "replays lg \<longleftrightarrow> (\<forall>t \<in> set (lg_tasks lg). follow None (trace (tk_id t) (lg_events lg)) = Some (Some (tk_status t))
        \<and> list_all legal_step (trace (tk_id t) (lg_events lg)))
     \<and> (\<forall>e \<in> set (lg_events lg). te_task e \<in> tk_id ` set (lg_tasks lg))"

lemma trace_none: "(\<And>e. e \<in> set es \<Longrightarrow> te_task e \<noteq> tid) \<Longrightarrow> trace tid es = []"
  by (auto simp: trace_def filter_empty_conv)

lemma replay_write:
  assumes "ledger_write st now lg lg'" "ids_unique lg" "replays lg"
  shows "replays lg'"
  using assms(1)
proof cases
  case (admit t e)
  have none: "trace (tk_id t) (lg_events lg) = []"
  proof (rule trace_none)
    fix e assume "e \<in> set (lg_events lg)"
    then have "te_task e \<in> tk_id ` set (lg_tasks lg)" using assms(3) by (simp add: replays_def)
    then show "te_task e \<noteq> tk_id t" using admit(2) by auto
  qed
  have status: "tk_status t = T_admitted" by (subst admit(4)) (simp add: new_task_def)
  have own: "trace (tk_id t) (lg_events lg @ [e]) = [(None, T_admitted)]" using none admit by (simp add: trace_def)
  have old: "trace (tk_id s) (lg_events lg @ [e]) = trace (tk_id s) (lg_events lg)" if "s \<in> set (lg_tasks lg)" for s
    using that admit(2,5) by (auto simp: trace_def)
  show ?thesis using assms(3) own old status admit(5) by (auto simp: admit(1) replays_def legal_step_def)
next
  case (change t f es)
  have id: "tk_id (f t) = tk_id t" using change(3) by (simp add: row_change_def)
  have same: "s = t" if "s \<in> set (lg_tasks lg)" "tk_id s = tk_id t" for s
    by (rule distinct_key_unique [OF assms(2) [unfolded ids_unique_def] that(1) change(2) that(2)])
  have es: "trace tid es = (if tid = tk_id t \<and> es \<noteq> [] then [(Some (tk_status t), tk_status (f t))] else [])" for tid
    using change(4) by (auto simp: recorded_def trace_def)
  have t: "follow None (trace (tk_id t) (lg_events lg)) = Some (Some (tk_status t))" "list_all legal_step (trace (tk_id t) (lg_events lg))"
    using assms(3) change(2) by (simp_all add: replays_def)
  have "status_change (tk_status t) (tk_status (f t))" using change(3) by (simp add: row_change_def)
  then have new: "follow None (trace (tk_id t) (lg_events lg @ es)) = Some (Some (tk_status (f t)))
      \<and> list_all legal_step (trace (tk_id t) (lg_events lg @ es))"
    using t change(4) by (auto simp: trace_append es follow_append legal_step_def recorded_def)
  have tasks': "lg_tasks lg' = update_where (\<lambda>s. tk_id s = tk_id t) f (lg_tasks lg)" "lg_events lg' = lg_events lg @ es"
    by (simp_all add: change(1))
  have "follow None (trace (tk_id s) (lg_events lg')) = Some (Some (tk_status s)) \<and> list_all legal_step (trace (tk_id s) (lg_events lg'))"
    if s: "s \<in> set (lg_tasks lg')" for s
  proof (cases "tk_id s = tk_id t")
    case True
    obtain r where r: "r \<in> set (lg_tasks lg)" "s = (if tk_id r = tk_id t then f r else r)" using s by (auto simp: tasks' set_update_where)
    then have "s = f t" using True same by (auto split: if_splits)
    then show ?thesis using new id by (simp add: tasks')
  next
    case False
    then have "s \<in> set (lg_tasks lg)" using s same id by (auto simp: tasks' set_update_where split: if_splits)
    then show ?thesis using assms(3) False es by (simp add: tasks' replays_def trace_append)
  qed
  moreover have "te_task e \<in> tk_id ` set (lg_tasks lg')" if e: "e \<in> set (lg_events lg')" for e
  proof -
    have ids: "tk_id ` set (lg_tasks lg') = tk_id ` set (lg_tasks lg)"
      using arg_cong [OF update_ids [where f = f, OF assms(2) change(2) id], of set] by (simp add: tasks')
    show ?thesis using e [unfolded tasks'(2)] assms(3) change(2,4) unfolding ids by (auto simp: replays_def recorded_def)
  qed
  ultimately show ?thesis by (simp add: replays_def)
qed

text \<open>C39. The event log accounts for every task: after any run, the events of a task form an unbroken chain from its
  admission to its present status, and every step of the chain keeps the status, follows the table of transitions,
  or is the start of an admitted task.\<close>

theorem sandbox_events_replay:
  assumes "lg = ledger_run st sha ledger_start ops" "t \<in> set (lg_tasks lg)"
  shows "follow None (trace (tk_id t) (lg_events lg)) = Some (Some (tk_status t))
    \<and> list_all (\<lambda>(s, s'). case s of None \<Rightarrow> s' = T_admitted
        | Some s0 \<Rightarrow> s' = s0 \<or> s' \<in> set (TRANSITIONS s0) \<or> s0 = T_admitted \<and> s' = T_running) (trace (tk_id t) (lg_events lg))"
proof -
  have start: "replays ledger_start" by (simp add: replays_def ledger_start_def)
  have "ids_unique lg \<and> replays lg" unfolding assms(1) by (rule run_keeps [where I = replays, OF _ start_ok(1) start]) (rule replay_write)
  then have t: "follow None (trace (tk_id t) (lg_events lg)) = Some (Some (tk_status t))" "list_all legal_step (trace (tk_id t) (lg_events lg))"
    using assms(2) by (simp_all add: replays_def)
  have "legal_step = (\<lambda>(s, s'). case s of None \<Rightarrow> s' = T_admitted
      | Some s0 \<Rightarrow> s' = s0 \<or> s' \<in> set (TRANSITIONS s0) \<or> s0 = T_admitted \<and> s' = T_running)"
    by (auto simp: fun_eq_iff legal_step_def status_change_def split: option.split)
  with t show ?thesis by simp
qed

section \<open>Idempotent admission\<close>

definition keys_ok :: "ledger \<Rightarrow> bool" where
  "keys_ok lg \<longleftrightarrow> distinct (map (\<lambda>t. (tk_owner t, tk_key t)) (lg_tasks lg))"

lemma keys_write:
  assumes "ledger_write st now lg lg'" "ids_unique lg" "keys_ok lg"
  shows "keys_ok lg'"
  using assms(1)
proof cases
  case (admit t e)
  then show ?thesis using assms(3) by (auto simp: keys_ok_def)
next
  case (change t f es)
  have "(tk_owner ((if tk_id s = tk_id t then f s else s)), tk_key ((if tk_id s = tk_id t then f s else s))) = (tk_owner s, tk_key s)"
    if "s \<in> set (lg_tasks lg)" for s
    using distinct_key_unique [OF assms(2) [unfolded ids_unique_def] that change(2)] change(3) by (auto simp: row_change_def)
  then have "map (\<lambda>t. (tk_owner t, tk_key t)) (lg_tasks lg') = map (\<lambda>t. (tk_owner t, tk_key t)) (lg_tasks lg)"
    by (simp add: change(1) update_where_def)
  then show ?thesis using assms(3) by (simp add: keys_ok_def)
qed

lemma keys_run_ok:
  assumes "ids_unique lg" "keys_ok lg"
  shows "ids_unique (ledger_run st sha lg ops) \<and> keys_ok (ledger_run st sha lg ops)"
  by (rule run_keeps [where I = keys_ok, OF _ assms]) (rule keys_write)

lemma request_stable:
  assumes "row_change st now ts t t'" "tk_fingerprint t = p \<and> tk_owner t = o' \<and> tk_key t = k"
  shows "tk_fingerprint t' = p \<and> tk_owner t' = o' \<and> tk_key t' = k"
  using assms by (simp add: row_change_def)


section \<open>Concrete runs\<close>

definition demo_manifest :: manifest where
  "demo_manifest = Items True [Some \<lparr>mi_id = Some ''art-1'', mi_sha256 = Some (replicate 64 CHR ''b''), mi_state = Some ''committed'', mi_role = None,
     mi_filename = Some ''out.csv'', mi_media = None, mi_size = Some 10\<rparr>]"

definition leased :: "string \<Rightarrow> int \<Rightarrow> change" where
  "leased owner token = no_change\<lparr>ch_owner := Some owner, ch_token := Some token, ch_require_lease := True\<rparr>"

text \<open>Three requests, of which two run; one succeeds, the other loses its lease.\<close>

definition demo_admissions :: "task_op list" where
  "demo_admissions = [Op_create 0 ''t1'' (demo_task ''k1'' ''u1'') [], Op_create (seconds 1) ''t2'' (demo_task ''k2'' ''u1'') [],
     Op_create (seconds 1) ''t3'' (demo_task ''k1'' ''u2'') []]"

definition demo_starts :: "task_op list" where
  "demo_starts = [Op_claim (seconds 2) ''t1'' ''w1'' None [], Op_claim (seconds 3) ''t2'' ''w1'' None [], Op_claim (seconds 3) ''t3'' ''w2'' None []]"

definition demo_ends :: "task_op list" where
  "demo_ends = [Op_transition (seconds 4) ''t1'' T_collecting (leased ''w1'' 1),
     Op_transition (seconds 5) ''t1'' T_succeeded ((leased ''w1'' 1)\<lparr>ch_manifest := Some demo_manifest\<rparr>), Op_expired_leases (seconds 70) 10]"

abbreviation demo_ledger :: "task_op list \<Rightarrow> ledger" where
  "demo_ledger \<equiv> ledger_run demo_sandbox sp_bundle ledger_start"

lemma demo_ledger_runs:
  "map (\<lambda>t. (tk_id t, tk_status t, tk_lease_owner t)) (lg_tasks (demo_ledger (demo_admissions @ demo_starts)))
   = [(''t1'', T_running, ''w1''), (''t2'', T_admitted, []), (''t3'', T_running, ''w2'')]"
  by code_simp

theorem sandbox_slots_bounded_witness:
  "rowcount (holds_slot (seconds 3)) (lg_tasks (demo_ledger (demo_admissions @ demo_starts))) = 2
   \<and> int (rowcount (\<lambda>t. tk_owner t = ''u1'' \<and> holds_slot (seconds 3) t) (lg_tasks (demo_ledger (demo_admissions @ demo_starts)))) \<le> 1"
proof
  show "rowcount (holds_slot (seconds 3)) (lg_tasks (demo_ledger (demo_admissions @ demo_starts))) = 2" by code_simp
  have ops: "sorted (map op_time (demo_admissions @ demo_starts))" "\<forall>op \<in> set (demo_admissions @ demo_starts). op_time op \<le> seconds 3"
    by code_simp+
  from sandbox_slots_bounded [OF ops refl, of demo_sandbox sp_bundle "''u1''"]
  show "int (rowcount (\<lambda>t. tk_owner t = ''u1'' \<and> holds_slot (seconds 3) t) (lg_tasks (demo_ledger (demo_admissions @ demo_starts)))) \<le> 1"
    by (simp add: demo_sandbox_def)
qed

definition first_claim :: "sandbox_error + task option \<times> ledger" where
  "first_claim = task_claim demo_sandbox (seconds 2) ''t1'' ''w1'' None [] (demo_ledger demo_admissions)"

theorem sandbox_started_once_witness:
  "\<exists>t lg1. first_claim = Inr (Some t, lg1)
     \<and> task_claim demo_sandbox (seconds 80) ''t1'' ''w2'' None [] (ledger_run demo_sandbox sp_bundle lg1 [Op_expired_leases (seconds 70) 10]) \<noteq> Inr (Some t, lg1)"
proof -
  have "case first_claim of Inr (Some t, lg1) \<Rightarrow> True | _ \<Rightarrow> False" by code_simp
  then obtain t lg1 where run: "first_claim = Inr (Some t, lg1)" by (auto split: sum.splits prod.splits option.splits)
  from sandbox_started_once [OF refl run [unfolded first_claim_def] refl] run show ?thesis by blast
qed

definition demo_end :: ledger where
  "demo_end = demo_ledger (demo_admissions @ demo_starts @ demo_ends)"

definition demo_done :: task where
  "demo_done = hd (lg_tasks demo_end)"

definition demo_lost :: task where
  "demo_lost = last (lg_tasks demo_end)"

lemma demo_end_statuses:
  "map (\<lambda>t. (tk_status t, tk_lease_owner t)) (lg_tasks demo_end) = [(T_succeeded, []), (T_admitted, []), (T_reconcile_required, [])]"
  by code_simp

lemma demo_end_rows:
  "demo_done \<in> set (lg_tasks demo_end)" "tk_status demo_done = T_succeeded" "tk_status demo_done \<in> set TERMINAL"
  "demo_lost \<in> set (lg_tasks demo_end)" "tk_status demo_lost = T_reconcile_required" "tk_status demo_lost \<notin> {T_admitted, T_queued}"
  "tk_lease_owner demo_lost = []"
  using demo_end_statuses by (auto simp: demo_done_def demo_lost_def TERMINAL_def map_eq_Cons_conv)

theorem sandbox_finished_final_witness:
  "demo_done \<in> set (lg_tasks demo_end) \<and> tk_status demo_done = T_succeeded \<and> manifest_committed (tk_manifest demo_done)"
proof (intro conjI)
  show "demo_done \<in> set (lg_tasks demo_end)" "tk_status demo_done = T_succeeded" by (rule demo_end_rows)+
  show "manifest_committed (tk_manifest demo_done)"
    by (rule mp [OF conjunct1 [OF sandbox_finished_final [OF demo_end_def demo_end_rows(1,3)]] demo_end_rows(2)])
qed


theorem sandbox_events_replay_witness:
  "demo_done \<in> set (lg_tasks demo_end)
   \<and> follow None (trace (tk_id demo_done) (lg_events demo_end)) = Some (Some T_succeeded)"
proof
  show "demo_done \<in> set (lg_tasks demo_end)" by (rule demo_end_rows)
  show "follow None (trace (tk_id demo_done) (lg_events demo_end)) = Some (Some T_succeeded)"
    by (rule conjunct1 [OF sandbox_events_replay [OF demo_end_def demo_end_rows(1)], unfolded demo_end_rows(2)])
qed

definition first_admission :: "sandbox_error + task \<times> ledger" where
  "first_admission = task_create demo_sandbox sp_bundle 0 ''t1'' (demo_task ''k1'' ''u1'') [] (demo_ledger [])"


section \<open>Repeated callbacks\<close>

text \<open>A repeated completion is not answered like the first: the first one ended the lease, and the lease is checked before
  the status.\<close>

lemma repeated_completion_refused:
  "case task_complete (seconds 5) ''t1'' ''w1'' 1 demo_manifest None []
      (demo_ledger (demo_admissions @ demo_starts @ [Op_transition (seconds 4) ''t1'' T_collecting (leased ''w1'' 1)])) of
     Inl _ \<Rightarrow> False
   | Inr (t, lg) \<Rightarrow> tk_status t = T_succeeded \<and> task_complete (seconds 6) ''t1'' ''w1'' 1 demo_manifest None [] lg = Inl Lease_lost"
  by code_simp

end
