(* ===== verification/Spec2Isabelle.thy ===== *)
theory Spec2Isabelle
  imports Quota_Properties Lease_Election Governor_Deployment Admission LLM_Governor Write_Proposals Plan_Dag
    Harness_Ledger Job_Properties Release_Policy Mcp_Executor_Properties Sandbox_Grants Sandbox_Properties
begin

text \<open>
  A verification library for a hardware knowledge-base server, written in Python, that answers questions
  about circuits and documents and authors documents with language models.  The development covers the
  parts of the server that several processes share and that must stay correct when they interleave, fail
  or lose their leases: the deployment-wide resource quotas, leader election, admission of requests and
  model calls, write proposals of tools, and the durable stores and the executor behind document
  authoring; and what decides over everything that leaves the system: the release of documents and the
  registry, policy and execution of external tools, and the admission and bookkeeping of sandboxed code.  Paths below are relative to \<open>src/src/\<close>.

  \<^bold>\<open>How the parts interact.\<close>  A request passes \<open>AdmissionController.check\<close> (rate limits, token budgets,
  queue age).  Work that uses a scarce resource takes a permit from the \<open>ResourceGovernor\<close>: in process
  scope from two bounded semaphores, in deployment scope from a quota store shared by all processes
  (SQLite or PostgreSQL), whose expired permits are isolated by a maintenance loop that one process, the
  lease holder, runs.  A model call passes \<open>LLMGovernor.slot\<close> and the provider limits.  A tool that wants
  to write stores a proposal, which a user confirms and a worker claims.  A document request becomes a
  durable job; a worker claims it together with the lock of its resource, compiles the document plan to a
  graph of nodes and executes it; a harness run records events, receipts, checkpoints and drafts under a
  fencing token.  The finished document is released by \<open>ReleasePolicyService.evaluate\<close>.  External tool servers
  are registered, tested and enabled by administrators and subscribed to by users; a turn is offered the tools the
  policy admits, calls them through the executor, and turns writes into proposals, which a worker executes after
  the user confirmed them, keeping the returned artifact.  A request to run code in the sandbox names capabilities, which
  are bounded by the grants of the user and the department; the admission policy normalises it, the ledger stores it once
  per key, workers claim it under a lease within the concurrency limits and report to the ledger, and a reconciler settles
  the tasks whose workers were lost.

  \<^bold>\<open>Theories and the code they model.\<close>
  \<^item> \<open>Prelude\<close>: instants, SQL tables as lists of rows, Python's string functions, and the lemmas on them.
  \<^item> \<open>Quota_Types\<close>, \<open>Quota_Interface\<close>: the tables of the quota database and the locales \<open>quota_store\<close> and
    \<open>permit_tables\<close>, the contract between the governor and a store.
  \<^item> \<open>Quota_Sqlite\<close>, \<open>Quota_Postgres\<close>: \<open>SqliteQuotaStore\<close> and \<open>PostgresQuotaStore\<close> of
    \<open>core/concurrency/resource_governor.py\<close>, every operation, each interpreting \<open>permit_tables\<close>.
  \<^item> \<open>Quota_Properties\<close>: capacity is never exceeded under any interleaving, admission is exact, escalation
    blocks, audited releases happen once, the two stores agree on whole-second clocks; and where isolated
    permits or the plain release fall short of the comments.
  \<^item> \<open>Lease_Election\<close>: the maintenance leases, \<open>core/concurrency/resource_governor.py\<close> and
    \<open>attachments/coordinator_lease.py\<close>, as three interpretations of the locale \<open>lease_election\<close>, with the
    loops around them.
  \<^item> \<open>Governor_Process\<close>, \<open>Governor_Deployment\<close>: \<open>ResourceGovernor\<close> and \<open>ResourcePermit\<close>; the deployment
    scope is proved once over the locale \<open>governor_store\<close> and interpreted on both stores.
  \<^item> \<open>Rate_Limiter\<close>, \<open>Admission\<close>, \<open>LLM_Governor\<close>: \<open>core/concurrency/rate_limiter.py\<close>,
    \<open>distributed_limiter.py\<close>, \<open>provider_limiter.py\<close>, \<open>admission.py\<close> and \<open>core/llm_governor.py\<close>: bounds on
    what any sequence of calls is granted, and that slots are returned on every path.
  \<^item> \<open>Write_Proposals\<close>: \<open>agents/mcp/write_store.py\<close>: a claimed write was confirmed, attempts are bounded and
    carry one idempotency key, finished rows do not change.
  \<^item> \<open>Kahn\<close>, \<open>Task_Graph\<close>: \<open>document_authoring/planning/task_graph.py\<close>: the queue algorithm as a locale
    \<open>ready_queue\<close> with its two instances, and the compiler with its validation.
  \<^item> \<open>Plan_Dag\<close>: \<open>PlanDAGExecutor.run\<close> of \<open>document_authoring/harness/plan_graph.py\<close>: the run ends with a
    complete success or a definite error, and its outputs refine the sequential meaning of the graph.
  \<^item> \<open>Harness_Run\<close>, \<open>Harness_Ledger\<close>: the run status contract (\<open>document_authoring/harness/state_machine.py\<close>)
    and the run tables of \<open>document_authoring/work_order_store.py\<close>: stale workers are fenced, event logs
    are gapless, human decisions are consumed once.
  \<^item> \<open>Job_Store\<close>, \<open>Job_Properties\<close>: \<open>document_authoring/job_store.py\<close>: rows stay well formed, live jobs
    never share a locked resource, creating and finding jobs are inverse.
  \<^item> \<open>Release_Policy\<close>: \<open>document_authoring/planning/release.py\<close> and the content hash of
    \<open>document_authoring/planning/models.py\<close>: the exact conditions of a release, what a signature does and does
    not cover, and the reconstruction of lineages.
  \<^item> \<open>Tool_Policy\<close>: \<open>agents/mcp/policy.py\<close>: every offered tool passed every gate; when tool names are read back.
  \<^item> \<open>Net_Address\<close>, \<open>Mcp_Validation\<close>: Python's \<open>urlsplit\<close> and \<open>ipaddress\<close>, and \<open>agents/mcp/validation.py\<close> on
    them: an accepted URL leads outside.
  \<^item> \<open>Mcp_Registry\<close>, \<open>Mcp_Service\<close>, \<open>Mcp_Registry_Properties\<close>: \<open>agents/mcp/store.py\<close>, \<open>service.py\<close>, and the discovery
    and cache of \<open>client.py\<close> and \<open>cache.py\<close>: tables stay well formed, an enabled server was tested as it is
    configured, the tools of a turn come from such servers, the catalog shows what can be subscribed to; and the
    races and erased credentials that the service does not prevent.
  \<^item> \<open>Mcp_Artifacts\<close>: \<open>agents/mcp/artifacts.py\<close>: reads stay inside the artifact directory, saved artifacts are read
    back.
  \<^item> \<open>Mcp_Executor\<close>, \<open>Mcp_Executor_Properties\<close>: \<open>agents/mcp/executor.py\<close> and the write pass of \<open>workers/main.py\<close>:
    calls pass every gate, writes need confirmation and consent, a pass settles what it claims; and the gates
    the worker does not repeat.
  \<^item> \<open>Sandbox_Policy\<close>: \<open>sandbox/policy.py\<close> and the request of \<open>sandbox/models.py\<close>: what every admitted request satisfies.
  \<^item> \<open>Sandbox_Grants\<close>: \<open>sandbox/authorization.py\<close>: the effective capabilities as a function of the history of grants and
    revocations, and the revocations that have no effect.
  \<^item> \<open>Sandbox_Tasks\<close>, \<open>Sandbox_Properties\<close>: \<open>sandbox/task_store.py\<close>: every operation is a sequence of guarded row changes,
    from which the invariants follow by induction: live leases stay within the limits, a task is started at most once, a
    finished task does not change, a lost lease is never regained, the events replay to the status, and admission is
    idempotent.

  \<^bold>\<open>Modelling conventions.\<close>  A table is the list of its rows; an operation is the transaction the code runs
  and returns the new database or an error, and an error leaves the database as it was.  Concurrency is the
  order of transactions: the theorems quantify over arbitrary sequences of operations.  The clock is an
  argument of each operation; instants are whole microseconds, ISO strings are compared as the instants
  they denote, and SQLite's \<open>datetime\<close> truncates to seconds.  Floating-point token counts are exact
  rationals or reals.  Identifiers from \<open>uuid4\<close>, content hashes, model and tool callbacks and the answers
  of Redis are parameters.  JSON payloads are texts except for the entries the code reads.

  \<^bold>\<open>Loops.\<close>  Kahn's loops and the rounds of the DAG executor run on fuel equal to the number of nodes; every
  iteration removes a node, and the theorems show that the fuel is never exhausted with work left.  The walk
  along a lineage ends because every step marks a new record.  Waiting
  loops (the deployment acquire, the busy retry) run on the finite list of attempts the environment allows,
  and the theorems say when they return.

  \<^bold>\<open>Not modelled.\<close>  Redis is one server with one clock; the creation of the process-scope semaphores is
  atomic.  Rendering, parsing, retrieval, conversations, HTTP routes, observability and calls to language
  models are left out: they are input and output or run in third-party libraries.  Of the work-order store
  the tables of templates, schemas, policies, work orders, artifacts and approvals are left out.  Of the sandbox the
  runner's client, the artifact files and the catalogs of bundles and skills are left out.

  \<^bold>\<open>Next.\<close>  The rest of the work-order store, plan submission and review of \<open>document_authoring/planning\<close>,
  access to projects, the sandbox service around its ledger.
\<close>

end
